(* ===== verification/Onyx_Prelude.thy ===== *)
theory Onyx_Prelude
  imports Main "HOL-Library.Word" "HOL-Library.Monad_Syntax"
begin

text \<open>
  Shared vocabulary of the development: machine integer types, the error numbers of the
  kernel's C library, kernel code as functions into \<open>option\<close> with a weakest
  precondition for total correctness, arrays with bounds, word-level bit masks, and the
  interfaces (locales) that several components implement.

  A kernel routine that mutates state is a function \<open>state \<Rightarrow> (result \<times> state) option\<close>.
  \<open>None\<close> stands for behaviour the C and C++ code leaves undefined or from which the kernel
  does not recover: an access outside an array, a null or dangling pointer, a failed
  \<open>assert\<close>, a spin lock taken twice by its holder, and (for loops defined by
  \<^theory_text>\<open>partial_function\<close>) running forever. A theorem that a routine yields
  \<open>Some\<close> therefore says that none of these happens.
\<close>

unbundle bit_operations_syntax

section \<open>Machine integers and error numbers\<close>

type_synonym u8 = "8 word"
type_synonym u16 = "16 word"
type_synonym u32 = "32 word"
type_synonym u64 = "64 word"

definition INT_MAX :: nat where
  "INT_MAX = 2147483647"

definition ULONG_MAX :: u64 where
  "ULONG_MAX = 0xffffffffffffffff"

abbreviation EPERM :: int where "EPERM \<equiv> 1"
abbreviation ENOENT :: int where "ENOENT \<equiv> 2"
abbreviation ESRCH :: int where "ESRCH \<equiv> 3"
abbreviation EINTR :: int where "EINTR \<equiv> 4"
abbreviation EIO :: int where "EIO \<equiv> 5"
abbreviation EBADF :: int where "EBADF \<equiv> 9"
abbreviation EAGAIN :: int where "EAGAIN \<equiv> 11"
abbreviation ENOMEM :: int where "ENOMEM \<equiv> 12"
abbreviation EACCES :: int where "EACCES \<equiv> 13"
abbreviation EFAULT :: int where "EFAULT \<equiv> 14"
abbreviation EBUSY :: int where "EBUSY \<equiv> 16"
abbreviation EEXIST :: int where "EEXIST \<equiv> 17"
abbreviation EXDEV :: int where "EXDEV \<equiv> 18"
abbreviation ENOTDIR :: int where "ENOTDIR \<equiv> 20"
abbreviation EISDIR :: int where "EISDIR \<equiv> 21"
abbreviation EINVAL :: int where "EINVAL \<equiv> 22"
abbreviation EMFILE :: int where "EMFILE \<equiv> 24"
abbreviation ENOTTY :: int where "ENOTTY \<equiv> 25"
abbreviation ENOSPC :: int where "ENOSPC \<equiv> 28"
abbreviation ESPIPE :: int where "ESPIPE \<equiv> 29"
abbreviation EPIPE :: int where "EPIPE \<equiv> 32"
abbreviation ERANGE :: int where "ERANGE \<equiv> 34"
abbreviation ENAMETOOLONG :: int where "ENAMETOOLONG \<equiv> 36"
abbreviation ENOSYS :: int where "ENOSYS \<equiv> 38"
abbreviation ENOTEMPTY :: int where "ENOTEMPTY \<equiv> 39"
abbreviation ELOOP :: int where "ELOOP \<equiv> 40"
abbreviation EOVERFLOW :: int where "EOVERFLOW \<equiv> 75"
abbreviation ETIMEDOUT :: int where "ETIMEDOUT \<equiv> 110"

section \<open>Total correctness of partial computations\<close>

definition wp :: "'a option \<Rightarrow> ('a \<Rightarrow> bool) \<Rightarrow> bool" where
  "wp m Q = (case m of None \<Rightarrow> False | Some x \<Rightarrow> Q x)"

named_theorems wp_simps \<open>weakest preconditions of the control structures\<close>

lemma wp_Some [wp_simps]: "wp (Some x) Q = Q x"
  by (simp add: wp_def)

lemma wp_None [wp_simps]: "wp None Q = False"
  by (simp add: wp_def)

lemma wp_bind [wp_simps]: "wp (Option.bind m f) Q = wp m (\<lambda>x. wp (f x) Q)"
  by (cases m) (simp_all add: wp_def)

lemma wp_if [wp_simps]: "wp (if b then m else n) Q = (if b then wp m Q else wp n Q)"
  by simp

lemma wp_prod [wp_simps]: "wp (case p of (x, y) \<Rightarrow> f x y) Q = (case p of (x, y) \<Rightarrow> wp (f x y) Q)"
  by (cases p) simp

lemma wp_Let [wp_simps]: "wp (let x = t in f x) Q = (let x = t in wp (f x) Q)"
  by simp

lemma wp_iff: "wp m Q \<longleftrightarrow> (\<exists>x. m = Some x \<and> Q x)"
  by (cases m) (simp_all add: wp_def)

lemma wp_mono: "wp m P \<Longrightarrow> (\<And>x. P x \<Longrightarrow> Q x) \<Longrightarrow> wp m Q"
  by (auto simp: wp_iff)

lemma wp_bindI:
  assumes "wp m P" "\<And>x. P x \<Longrightarrow> wp (f x) Q"
  shows "wp (Option.bind m f) Q"
  unfolding wp_bind by (rule wp_mono [OF assms(1)]) (rule assms(2))

lemma wp_map: "wp (map_option f m) Q = wp m (\<lambda>x. Q (f x))"
  by (cases m) (simp_all add: wp_def)

lemma wp_conj: "wp m P \<Longrightarrow> wp m Q \<Longrightarrow> wp m (\<lambda>x. P x \<and> Q x)"
  by (auto simp: wp_iff)

lemma wp_SomeD: "wp m Q \<Longrightarrow> m = Some x \<Longrightarrow> Q x"
  by (simp add: wp_def)

lemma wp_not_None: "wp m Q \<Longrightarrow> m \<noteq> None"
  by (auto simp: wp_iff)

lemma wp_prodE:
  "wp m Q \<Longrightarrow> \<exists>r s. m = Some (r, s) \<and> Q (r, s)"
  by (auto simp: wp_iff)

section \<open>Invariants of step relations\<close>

lemma reach_invariant:
  assumes "rtranclp step s0 s" "I s0" "\<And>s s'. I s \<Longrightarrow> step s s' \<Longrightarrow> I s'"
  shows "I s"
  using assms by (induction rule: rtranclp_induct) auto

section \<open>Arrays with bounds\<close>

definition array_get :: "'a list \<Rightarrow> nat \<Rightarrow> 'a option" where
  "array_get xs i = (if i < length xs then Some (xs ! i) else None)"

definition array_set :: "'a list \<Rightarrow> nat \<Rightarrow> 'a \<Rightarrow> 'a list option" where
  "array_set xs i v = (if i < length xs then Some (xs[i := v]) else None)"

lemma wp_array_get [wp_simps]: "wp (array_get xs i) Q \<longleftrightarrow> i < length xs \<and> Q (xs ! i)"
  by (simp add: array_get_def wp_def)

lemma wp_array_set [wp_simps]: "wp (array_set xs i v) Q \<longleftrightarrow> i < length xs \<and> Q (xs[i := v])"
  by (simp add: array_set_def wp_def)

lemma array_get_None [simp]: "array_get xs i = None \<longleftrightarrow> length xs \<le> i"
  by (simp add: array_get_def)

lemma array_get_in [simp]: "i < length xs \<Longrightarrow> array_get xs i = Some (xs ! i)"
  by (simp add: array_get_def)

lemma array_set_in [simp]: "i < length xs \<Longrightarrow> array_set xs i v = Some (xs[i := v])"
  by (simp add: array_set_def)

section \<open>Bit masks\<close>

definition mask_test :: "'a::len word \<Rightarrow> nat \<Rightarrow> bool" where
  "mask_test w n = (w AND push_bit n 1 \<noteq> 0)"

definition mask_set :: "'a::len word \<Rightarrow> nat \<Rightarrow> 'a word" where
  "mask_set w n = w OR push_bit n 1"

definition mask_clear :: "'a::len word \<Rightarrow> nat \<Rightarrow> 'a word" where
  "mask_clear w n = w AND NOT (push_bit n 1)"

lemma mask_test_bit: "mask_test w n = bit w n"
  by (simp add: mask_test_def bit_iff_and_push_bit_not_eq_0)

lemma bit_mask_set: "bit (mask_set w n) k \<longleftrightarrow> bit w k \<or> (k = n \<and> n < LENGTH('a))"
  for w :: "'a::len word"
  by (auto simp: mask_set_def bit_simps)

lemma bit_mask_clear: "bit (mask_clear w n) k \<longleftrightarrow> bit w k \<and> k \<noteq> n"
  for w :: "'a::len word"
  by (auto simp: mask_clear_def bit_simps dest: bit_imp_le_length)

lemmas mask_simps = mask_test_bit bit_mask_set bit_mask_clear

lemma word_eq_max_iff: "w = (-1 :: 'a::len word) \<longleftrightarrow> (\<forall>n < LENGTH('a). bit w n)"
  by (simp add: bit_eq_iff)

section \<open>Interfaces\<close>

text \<open>A loop over a list whose body may fail.\<close>

fun mfold :: "('x \<Rightarrow> 's \<Rightarrow> 's option) \<Rightarrow> 'x list \<Rightarrow> 's \<Rightarrow> 's option" where
  "mfold f [] s = Some s"
| "mfold f (x # xs) s = Option.bind (f x s) (mfold f xs)"

lemma mfold_append: "mfold f (xs @ ys) s = Option.bind (mfold f xs s) (mfold f ys)"
  by (induction f xs s rule: mfold.induct) (auto split: bind_splits)

text \<open>
  Reference-counted objects: taking a reference to a live object and dropping one are safe and
  change one count by one; a dead object (count 0) can be neither taken nor dropped.
\<close>

locale refcounted =
  fixes cnt :: "'s \<Rightarrow> 'o \<Rightarrow> nat"
    and getr :: "'o \<Rightarrow> 's \<Rightarrow> 's option"
    and putr :: "'o \<Rightarrow> 's \<Rightarrow> 's option"
    and ok :: "'s \<Rightarrow> bool"
    and frame :: "'s \<Rightarrow> 's \<Rightarrow> bool"
  assumes get_ok: "ok s \<Longrightarrow> 0 < cnt s x \<Longrightarrow>
      wp (getr x s) (\<lambda>s'. ok s' \<and> cnt s' = (cnt s)(x := cnt s x + 1) \<and> frame s s')"
    and put_ok: "ok s \<Longrightarrow> 0 < cnt s x \<Longrightarrow>
      wp (putr x s) (\<lambda>s'. ok s' \<and> cnt s' = (cnt s)(x := cnt s x - 1) \<and> frame s s')"
    and get_dead: "ok s \<Longrightarrow> cnt s x = 0 \<Longrightarrow> getr x s = None"
    and put_dead: "ok s \<Longrightarrow> cnt s x = 0 \<Longrightarrow> putr x s = None"
    and frame_refl: "frame s s"
    and frame_trans: "frame s t \<Longrightarrow> frame t u \<Longrightarrow> frame s u"
begin

lemma get_then_put:
  assumes "ok s" "0 < cnt s x"
  shows "wp (Option.bind (getr x s) (putr x)) (\<lambda>s'. ok s' \<and> cnt s' = cnt s \<and> frame s s')"
proof -
  have "wp (putr x t) (\<lambda>s'. ok s' \<and> cnt s' = cnt s \<and> frame s s')"
    if "ok t" "cnt t = (cnt s)(x := cnt s x + 1)" "frame s t" for t
    by (rule wp_mono [OF put_ok]) (use that in \<open>auto intro: frame_trans\<close>)
  then show ?thesis
    unfolding wp_simps by (intro wp_mono [OF get_ok [OF assms]]) auto
qed

lemma put_list:
  assumes "ok s" "\<And>x. count_list xs x \<le> cnt s x"
  shows "wp (mfold putr xs s)
    (\<lambda>s'. ok s' \<and> cnt s' = (\<lambda>x. cnt s x - count_list xs x) \<and> frame s s')"
  using assms
proof (induction xs arbitrary: s)
  case Nil
  then show ?case by (simp add: wp_simps frame_refl)
next
  case (Cons y ys)
  have "0 < cnt s y" using Cons.prems(2) [of y] by simp
  then have "wp (putr y s) (\<lambda>s'. ok s' \<and> cnt s' = (cnt s)(y := cnt s y - 1) \<and> frame s s')"
    using Cons.prems(1) by (rule put_ok [rotated])
  then show ?case
    unfolding mfold.simps wp_simps
  proof (rule wp_mono)
    fix t assume t: "ok t \<and> cnt t = (cnt s)(y := cnt s y - 1) \<and> frame s t"
    have "count_list ys x \<le> cnt t x" for x
      using Cons.prems(2) [of x] Cons.prems(2) [of y] t by (auto split: if_splits)
    then show "wp (mfold putr ys t)
        (\<lambda>s'. ok s' \<and> cnt s' = (\<lambda>x. cnt s x - count_list (y # ys) x) \<and> frame s s')"
      using t by (intro wp_mono [OF Cons.IH]) (auto simp: fun_eq_iff intro: frame_trans)
  qed
qed

lemma get_list:
  assumes "ok s" "\<And>x. x \<in> set xs \<Longrightarrow> 0 < cnt s x"
  shows "wp (mfold getr xs s)
    (\<lambda>s'. ok s' \<and> cnt s' = (\<lambda>x. cnt s x + count_list xs x) \<and> frame s s')"
  using assms
proof (induction xs arbitrary: s)
  case Nil
  then show ?case by (simp add: wp_simps frame_refl)
next
  case (Cons y ys)
  have "wp (getr y s) (\<lambda>s'. ok s' \<and> cnt s' = (cnt s)(y := cnt s y + 1) \<and> frame s s')"
    using Cons.prems by (intro get_ok) auto
  then show ?case
    unfolding mfold.simps wp_simps
  proof (rule wp_mono)
    fix t assume t: "ok t \<and> cnt t = (cnt s)(y := cnt s y + 1) \<and> frame s t"
    then have "0 < cnt t x" if "x \<in> set ys" for x using Cons.prems(2) [of x] that by auto
    then show "wp (mfold getr ys t)
        (\<lambda>s'. ok s' \<and> cnt s' = (\<lambda>x. cnt s x + count_list (y # ys) x) \<and> frame s s')"
      using t by (intro wp_mono [OF Cons.IH]) (auto simp: fun_eq_iff intro: frame_trans)
  qed
qed

end

text \<open>
  Bit fields: a sized sequence of flags with a checked read and a checked write. The members of
  a field are the indices whose flag is set.
\<close>

locale bit_field =
  fixes rd :: "'b \<Rightarrow> nat \<Rightarrow> bool option"
    and wr :: "'b \<Rightarrow> nat \<Rightarrow> bool \<Rightarrow> 'b option"
    and sz :: "'b \<Rightarrow> nat"
  assumes rd_in: "i < sz b \<longleftrightarrow> rd b i \<noteq> None"
    and wr_in: "i < sz b \<longleftrightarrow> wr b i v \<noteq> None"
    and wr_sz: "wr b i v = Some b' \<Longrightarrow> sz b' = sz b"
    and rd_wr: "wr b i v = Some b' \<Longrightarrow> rd b' j = (if j = i then Some v else rd b j)"
begin

lemma members_wr:
  assumes "wr b i v = Some b'"
  shows "{j. rd b' j = Some True} =
    (if v then insert i {j. rd b j = Some True} else {j. rd b j = Some True} - {i})"
  using rd_wr [OF assms] by auto

lemma wr_wr:
  assumes "wr b i v = Some b'" "wr b' j w = Some b''"
  shows "rd b'' k = (if k = j then Some w else if k = i then Some v else rd b k)"
  using rd_wr [OF assms(1)] rd_wr [OF assms(2)] by simp

lemma members_bounded: "{j. rd b j = Some True} \<subseteq> {..<sz b}"
  using rd_in by fastforce

end

end
