(* ===== verification/Vfs_Objects.thy ===== *)
theory Vfs_Objects
  imports Onyx_Prelude
begin

text \<open>
  The reference-counted objects below the file descriptor layer: open file descriptions
  (\<open>struct file\<close>), inodes and directory entries, with the get and put operations of
  \<open>kernel/kernel/fs/file.cpp\<close>, \<open>inode.cpp\<close>, \<open>vfs.cpp\<close> and \<open>dentry.cpp\<close>. Pointers are
  natural numbers, \<open>None\<close> is the null pointer, and the heap of each kind of object is a map
  from pointers to objects, so that a freed object is outside the domain of its map and a use
  of it is \<open>None\<close> (undefined behaviour). Calls into parts that are not modelled here (the
  writeback queues, the superblock's inode list, a driver's \<open>close\<close> hook, the dentry cache)
  are recorded in program order in \<open>events\<close>.

  The lemmas show that the put operations are safe and free each object exactly when its
  last reference goes, provided the counts agree with the references that exist
  (\<open>vfs_inv\<close>), and that they keep that agreement.
\<close>

section \<open>The objects\<close>

type_synonym fptr = "nat option"

record "file" =
  f_refcount :: nat
  f_seek :: u64
  f_ino :: nat
  f_flags :: u32
  f_dentry :: "nat option"

record inode =
  i_refc :: nat
  i_flags :: u32
  i_gid :: u32
  i_uid :: u32
  i_mode :: u32
  i_type :: u32
  i_size :: u64
  i_atime :: int
  i_ctime :: int
  i_mtime :: int
  i_nlink :: u64
  i_has_sb :: bool
  i_sb_nodirty :: bool
  i_sb_kill_inode :: bool
  i_fops_close :: bool
  i_fops_read :: bool
  i_fops_readpage :: bool
  i_fops_write :: bool
  i_fops_writepage :: bool
  i_fops_ioctl :: bool
  i_fops_ftruncate :: bool
  i_fops_fallocate :: bool
  i_inode :: u64
  i_dev :: u64
  i_rdev :: u64
  i_blocks :: u64
  i_sb_block_size :: u64
  i_vmo_size :: nat
  i_pages :: "nat \<rightharpoonup> u8 list"
  i_page_pins :: "nat \<Rightarrow> nat"
  i_dirty_pages :: "nat set"
  i_rwlock :: u64
  i_sb_in_memory :: bool
  i_dentry :: "nat option"
  i_link :: "u8 list"

text \<open>The fields \<open>i_sb_*\<close> stand for what the code reads through \<open>i_sb\<close> (a null pointer unless
  \<open>i_has_sb\<close>), the flags \<open>i_fops_*\<close> for whether the driver's table has that function. \<open>i_vmo_size\<close>, \<open>i_pages\<close>,
  \<open>i_page_pins\<close> and \<open>i_dirty_pages\<close> are the page cache behind the inode (\<open>i_pages->size\<close>, the tree of pages
  by their offset with their bytes, their pins and their dirty flags). \<open>i_dentry\<close> is the dentry of a directory, \<open>i_link\<close> the
  target a symbolic link of a tmpfs has (\<open>struct tmpfs_inode\<close>).\<close>

definition INODE_FLAG_DONT_CACHE :: u32 where "INODE_FLAG_DONT_CACHE = 1"
definition INODE_FLAG_DIRTY :: u32 where "INODE_FLAG_DIRTY = 2"
definition INODE_FLAG_NO_SEEK :: u32 where "INODE_FLAG_NO_SEEK = 4"
definition INODE_FLAG_DIRTYING :: u32 where "INODE_FLAG_DIRTYING = 8"

definition S_IFMT :: u32 where "S_IFMT = 0xf000"
definition S_ISDIR :: "u32 \<Rightarrow> bool" where "S_ISDIR m = (m AND S_IFMT = 0x4000)"
definition S_ISREG :: "u32 \<Rightarrow> bool" where "S_ISREG m = (m AND S_IFMT = 0x8000)"
definition S_ISLNK :: "u32 \<Rightarrow> bool" where "S_ISLNK m = (m AND S_IFMT = 0xa000)"

datatype vfs_event =
    Superblock_add_inode nat
  | Superblock_remove_inode nat
  | Flush_remove_inode nat
  | Flush_add_inode nat
  | Inode_sync nat
  | Kill_inode nat
  | Destroy_page_caches nat
  | Fops_close nat
  | Free_inode nat
  | Dentry_destroy nat
  | File_free nat
  | Driver_read nat u64 u64
  | Driver_write nat u64 u64
  | Driver_ftruncate nat u64
  | Driver_ioctl nat u32

record vfs =
  files :: "nat \<rightharpoonup> file"
  inodes :: "nat \<rightharpoonup> inode"
  drefs :: "nat \<rightharpoonup> nat"
  events :: "vfs_event list"

section \<open>Operations\<close>

definition log_event :: "vfs_event \<Rightarrow> 'a vfs_scheme \<Rightarrow> 'a vfs_scheme" where
  "log_event e s = s\<lparr>events := events s @ [e]\<rparr>"

definition log_if :: "bool \<Rightarrow> vfs_event \<Rightarrow> 'a vfs_scheme \<Rightarrow> 'a vfs_scheme" where
  "log_if b e s = (if b then log_event e s else s)"

definition fd_get :: "nat \<Rightarrow> 'a vfs_scheme \<Rightarrow> 'a vfs_scheme option" where
  "fd_get f s =
     (case files s f of
        None \<Rightarrow> None
      | Some fl \<Rightarrow> Some (s\<lparr>files := (files s)(f \<mapsto> fl\<lparr>f_refcount := f_refcount fl + 1\<rparr>)\<rparr>))"

definition inode_should_die :: "inode \<Rightarrow> bool" where
  "inode_should_die ino = (i_nlink ino = 0)"

definition inode_is_cacheable :: "inode \<Rightarrow> bool" where
  "inode_is_cacheable ino =
     (if i_flags ino AND INODE_FLAG_DONT_CACHE \<noteq> 0 then False
      else if \<not> S_ISREG (i_mode ino) \<and> \<not> S_ISDIR (i_mode ino) \<and> \<not> S_ISLNK (i_mode ino)
      then False else True)"

definition inode_release :: "nat \<Rightarrow> inode \<Rightarrow> 'a vfs_scheme \<Rightarrow> 'a vfs_scheme" where
  "inode_release i ino s =
     (let s1 = log_if (i_has_sb ino) (Superblock_remove_inode i) s;
          s2 = log_if (i_flags ino AND INODE_FLAG_DIRTY \<noteq> 0) (Flush_remove_inode i) s1;
          s3 = log_if (inode_is_cacheable ino) (Inode_sync i) s2;
          s4 = log_if (inode_should_die ino \<and> i_has_sb ino \<and> i_sb_kill_inode ino)
                 (Kill_inode i) s3;
          s5 = log_event (Destroy_page_caches i) s4;
          s6 = log_if (i_fops_close ino) (Fops_close i) s5
      in log_event (Free_inode i) (s6\<lparr>inodes := (inodes s6)(i := None)\<rparr>))"

definition inode_unref :: "nat \<Rightarrow> 'a vfs_scheme \<Rightarrow> 'a vfs_scheme option" where
  "inode_unref i s =
     (case inodes s i of
        None \<Rightarrow> None
      | Some ino \<Rightarrow>
          if i_refc ino = 0 then None
          else
            (let ino' = ino\<lparr>i_refc := i_refc ino - 1\<rparr>;
                 s' = s\<lparr>inodes := (inodes s)(i \<mapsto> ino')\<rparr>
             in if i_refc ino' = 0 \<and> inode_should_die ino'
                then Some (inode_release i ino' s') else Some s'))"

definition close_vfs :: "nat \<Rightarrow> 'a vfs_scheme \<Rightarrow> 'a vfs_scheme option" where
  "close_vfs i s = inode_unref i s"

definition dentry_get :: "nat \<Rightarrow> 'a vfs_scheme \<Rightarrow> 'a vfs_scheme option" where
  "dentry_get d s =
     (case drefs s d of
        None \<Rightarrow> None
      | Some n \<Rightarrow> Some (s\<lparr>drefs := (drefs s)(d \<mapsto> n + 1)\<rparr>))"

definition dentry_put :: "nat option \<Rightarrow> 'a vfs_scheme \<Rightarrow> 'a vfs_scheme option" where
  "dentry_put dp s =
     (case dp of
        None \<Rightarrow> None
      | Some d \<Rightarrow>
          (case drefs s d of
             None \<Rightarrow> None
           | Some n \<Rightarrow>
               if n = 0 then None
               else if n - 1 = 0
               then Some (log_event (Dentry_destroy d) (s\<lparr>drefs := (drefs s)(d := None)\<rparr>))
               else Some (s\<lparr>drefs := (drefs s)(d \<mapsto> n - 1)\<rparr>)))"

definition file_free :: "nat \<Rightarrow> 'a vfs_scheme \<Rightarrow> 'a vfs_scheme" where
  "file_free f s = log_event (File_free f) (s\<lparr>files := (files s)(f := None)\<rparr>)"

definition fd_put :: "nat \<Rightarrow> 'a vfs_scheme \<Rightarrow> 'a vfs_scheme option" where
  "fd_put f s =
     (case files s f of
        None \<Rightarrow> None
      | Some fl \<Rightarrow>
          if f_refcount fl = 0 then None
          else
            (let fl' = fl\<lparr>f_refcount := f_refcount fl - 1\<rparr>;
                 s' = s\<lparr>files := (files s)(f \<mapsto> fl')\<rparr>
             in if f_refcount fl' = 0
                then do {
                  s1 \<leftarrow> close_vfs (f_ino fl') s';
                  s2 \<leftarrow> dentry_put (f_dentry fl') s1;
                  Some (file_free f s2)
                }
                else Some s'))"

section \<open>Counts and the references that exist\<close>

definition fcount :: "'a vfs_scheme \<Rightarrow> nat \<Rightarrow> nat" where
  "fcount s f = (case files s f of None \<Rightarrow> 0 | Some fl \<Rightarrow> f_refcount fl)"

definition dcount :: "'a vfs_scheme \<Rightarrow> nat \<Rightarrow> nat" where
  "dcount s d = (case drefs s d of None \<Rightarrow> 0 | Some n \<Rightarrow> n)"

definition ino_users :: "'a vfs_scheme \<Rightarrow> nat \<Rightarrow> nat set" where
  "ino_users s i = {f. \<exists>fl. files s f = Some fl \<and> f_ino fl = i}"

definition dentry_users :: "'a vfs_scheme \<Rightarrow> nat \<Rightarrow> nat set" where
  "dentry_users s d = {f. \<exists>fl. files s f = Some fl \<and> f_dentry fl = Some d}"

definition vfs_inv :: "(nat \<Rightarrow> nat) \<Rightarrow> (nat \<Rightarrow> nat) \<Rightarrow> 'a vfs_scheme \<Rightarrow> bool" where
  "vfs_inv iext dext s \<longleftrightarrow>
     finite (dom (files s)) \<and>
     (\<forall>f fl. files s f = Some fl \<longrightarrow>
        0 < f_refcount fl \<and> inodes s (f_ino fl) \<noteq> None \<and> f_dentry fl \<noteq> None) \<and>
     (\<forall>i ino. inodes s i = Some ino \<longrightarrow> i_refc ino = iext i + card (ino_users s i)) \<and>
     (\<forall>d. dcount s d = dext d + card (dentry_users s d))"

definition same_file :: "nat \<Rightarrow> 'a vfs_scheme \<Rightarrow> 'a vfs_scheme \<Rightarrow> bool" where
  "same_file g s s' \<longleftrightarrow>
     (\<forall>fl'. files s' g = Some fl' \<longrightarrow>
        (\<exists>fl. files s g = Some fl \<and> fl' = fl\<lparr>f_refcount := f_refcount fl'\<rparr>))"

definition refs_frame :: "'a vfs_scheme \<Rightarrow> 'a vfs_scheme \<Rightarrow> bool" where
  "refs_frame s s' \<longleftrightarrow> (\<forall>g. same_file g s s') \<and> vfs.more s' = vfs.more s"

lemma refs_frame_refl [simp]: "refs_frame s s"
  by (simp add: refs_frame_def same_file_def)

lemma same_file_trans: "same_file g s t \<Longrightarrow> same_file g t u \<Longrightarrow> same_file g s u"
  unfolding same_file_def by (metis (no_types, lifting) file.surjective file.update_convs(1))

lemma refs_frame_trans: "refs_frame s t \<Longrightarrow> refs_frame t u \<Longrightarrow> refs_frame s u"
  by (auto simp: refs_frame_def intro: same_file_trans)

lemma log_simps [simp]:
  "files (log_event e s) = files s" "inodes (log_event e s) = inodes s"
  "drefs (log_event e s) = drefs s" "vfs.more (log_event e s) = vfs.more s"
  "files (log_if b e s) = files s" "inodes (log_if b e s) = inodes s"
  "drefs (log_if b e s) = drefs s" "vfs.more (log_if b e s) = vfs.more s"
  by (simp_all add: log_event_def log_if_def)

lemma inode_release_simps [simp]:
  "files (inode_release i ino s) = files s"
  "inodes (inode_release i ino s) = (inodes s)(i := None)"
  "drefs (inode_release i ino s) = drefs s"
  "vfs.more (inode_release i ino s) = vfs.more s"
  by (simp_all add: inode_release_def Let_def)

lemma ino_users_finite: "vfs_inv iext dext s \<Longrightarrow> finite (ino_users s i)"
  by (rule finite_subset [of _ "dom (files s)"]) (auto simp: ino_users_def vfs_inv_def)

lemma dentry_users_finite: "vfs_inv iext dext s \<Longrightarrow> finite (dentry_users s d)"
  by (rule finite_subset [of _ "dom (files s)"]) (auto simp: dentry_users_def vfs_inv_def)

lemma users_pos:
  assumes "vfs_inv iext dext s" "files s f = Some fl"
  shows "0 < card (ino_users s (f_ino fl))"
    and "f_dentry fl = Some d \<Longrightarrow> 0 < card (dentry_users s d)"
  using assms(2) ino_users_finite [OF assms(1)] dentry_users_finite [OF assms(1)]
  by (auto simp: card_gt_0_iff ino_users_def dentry_users_def)

text \<open>Updating the mutable fields of an open file keeps who refers to what.\<close>

lemma users_upd:
  assumes "files s f = Some fl" "f_ino fl' = f_ino fl" "f_dentry fl' = f_dentry fl"
  shows "ino_users (s\<lparr>files := (files s)(f \<mapsto> fl')\<rparr>) i = ino_users s i"
    and "dentry_users (s\<lparr>files := (files s)(f \<mapsto> fl')\<rparr>) d = dentry_users s d"
  using assms by (auto simp: ino_users_def dentry_users_def split: if_splits)

lemma vfs_inv_upd_file:
  assumes "vfs_inv iext dext s" "files s f = Some fl"
    "f_ino fl' = f_ino fl" "f_dentry fl' = f_dentry fl" "0 < f_refcount fl'"
  shows "vfs_inv iext dext (s\<lparr>files := (files s)(f \<mapsto> fl')\<rparr>)"
  using assms users_upd [OF assms(2-4)] by (auto simp: vfs_inv_def dcount_def)

lemma fd_get_wp:
  assumes "vfs_inv iext dext s" "0 < fcount s f"
  shows "wp (fd_get f s) (\<lambda>s'. vfs_inv iext dext s' \<and>
           fcount s' = (fcount s)(f := fcount s f + 1) \<and> refs_frame s s')"
proof -
  from assms(2) obtain fl where fl: "files s f = Some fl"
    by (cases "files s f") (auto simp: fcount_def)
  show ?thesis
    using vfs_inv_upd_file [OF assms(1) fl, of "fl\<lparr>f_refcount := f_refcount fl + 1\<rparr>"] fl
    by (auto simp: fd_get_def wp_simps fcount_def fun_eq_iff refs_frame_def same_file_def)
qed

text \<open>Dropping the last reference: the file leaves the heap together with the inode and
  dentry references it held.\<close>

lemma inode_unref_ok:
  assumes "inodes s i = Some ino" "0 < i_refc ino"
  obtains s' where "inode_unref i s = Some s'"
    "files s' = files s" "drefs s' = drefs s" "vfs.more s' = vfs.more s"
    "\<And>j. j \<noteq> i \<Longrightarrow> inodes s' j = inodes s j"
    "inodes s' i = None \<and> i_refc ino = 1 \<or> inodes s' i = Some (ino\<lparr>i_refc := i_refc ino - 1\<rparr>)"
  using assms that [of "the (inode_unref i s)"]
  by (auto simp: inode_unref_def Let_def)

lemma dentry_put_ok:
  assumes "0 < dcount s d"
  obtains s' where "dentry_put (Some d) s = Some s'"
    "files s' = files s" "inodes s' = inodes s" "vfs.more s' = vfs.more s"
    "dcount s' = (dcount s)(d := dcount s d - 1)"
  using assms that [of "the (dentry_put (Some d) s)"]
  by (auto simp: dentry_put_def dcount_def fun_eq_iff split: option.splits if_splits)

text \<open>The heap after the last reference to \<open>f\<close> went: \<open>f\<close> is gone and the counts of its inode
  and dentry are one less.\<close>

lemma vfs_inv_drop:
  assumes inv: "vfs_inv iext dext s" and fl: "files s f = Some fl" "f_dentry fl = Some d"
    and ino: "inodes s (f_ino fl) = Some ino"
    and t: "files t = (files s)(f := None)" "\<And>j. j \<noteq> f_ino fl \<Longrightarrow> inodes t j = inodes s j"
      "inodes t (f_ino fl) = None \<and> i_refc ino = 1 \<or>
       inodes t (f_ino fl) = Some (ino\<lparr>i_refc := i_refc ino - 1\<rparr>)"
      "dcount t = (dcount s)(d := dcount s d - 1)"
  shows "vfs_inv iext dext t"
proof -
  have iu: "ino_users t i = ino_users s i - {f}" "dentry_users t e = dentry_users s e - {f}" for i e
    using t(1) by (auto simp: ino_users_def dentry_users_def)
  have f_in: "f \<in> ino_users s (f_ino fl)" "f \<in> dentry_users s d"
    and f_out: "\<And>i. i \<noteq> f_ino fl \<Longrightarrow> f \<notin> ino_users s i" "\<And>e. e \<noteq> d \<Longrightarrow> f \<notin> dentry_users s e"
    using fl by (auto simp: ino_users_def dentry_users_def)
  note fin = ino_users_finite [OF inv] dentry_users_finite [OF inv]
  note pos = users_pos [OF inv fl(1)]
  have refc: "i_refc ino = iext (f_ino fl) + card (ino_users s (f_ino fl))"
    using inv ino by (auto simp: vfs_inv_def)
  have other: "i_refc ino \<noteq> 1" if "files s g = Some gl" "g \<noteq> f" "f_ino gl = f_ino fl" for g gl
  proof -
    have "card {f, g} \<le> card (ino_users s (f_ino fl))"
      using that fl fin by (intro card_mono) (auto simp: ino_users_def)
    then show ?thesis using that(2) refc by auto
  qed
  have "inodes t (f_ino gl) \<noteq> None" if "files s g = Some gl" "g \<noteq> f" for g gl
    using that other [OF that] t(2,3) inv by (cases "f_ino gl = f_ino fl") (auto simp: vfs_inv_def)
  moreover have "i_refc jno = iext i + card (ino_users t i)" if "inodes t i = Some jno" for i jno
    using that t(2,3) refc f_in f_out pos(1) inv
    by (cases "i = f_ino fl") (auto simp: iu vfs_inv_def card_Diff_singleton)
  moreover have "dcount t e = dext e + card (dentry_users t e)" for e
    using t(4) f_in f_out pos(2) fl(2) inv
    by (cases "e = d") (auto simp: iu vfs_inv_def card_Diff_singleton)
  ultimately show ?thesis
    using inv t(1) by (auto simp: vfs_inv_def split: if_splits)
qed

lemma fd_put_last:
  assumes inv: "vfs_inv iext dext s" and fl: "files s f = Some fl" and one: "f_refcount fl = 1"
  shows "wp (fd_put f s) (\<lambda>s'. vfs_inv iext dext s' \<and>
           files s' = (files s)(f := None) \<and> vfs.more s' = vfs.more s)"
proof -
  define s0 where "s0 = s\<lparr>files := (files s)(f \<mapsto> fl\<lparr>f_refcount := 0\<rparr>)\<rparr>"
  obtain ino d where ino: "inodes s (f_ino fl) = Some ino" and d: "f_dentry fl = Some d"
    using inv fl unfolding vfs_inv_def by blast
  have refc: "0 < i_refc ino" and dpos: "0 < dcount s0 d"
    using inv ino d users_pos [OF inv fl] by (auto simp: vfs_inv_def s0_def dcount_def)
  obtain s1 where s1: "inode_unref (f_ino fl) s0 = Some s1" "files s1 = files s0"
      "drefs s1 = drefs s0" "vfs.more s1 = vfs.more s0"
      "\<And>j. j \<noteq> f_ino fl \<Longrightarrow> inodes s1 j = inodes s0 j"
      "inodes s1 (f_ino fl) = None \<and> i_refc ino = 1 \<or>
       inodes s1 (f_ino fl) = Some (ino\<lparr>i_refc := i_refc ino - 1\<rparr>)"
    using inode_unref_ok [of s0 "f_ino fl" ino] ino refc by (auto simp: s0_def)
  then have "dcount s1 = dcount s0" by (simp add: dcount_def fun_eq_iff)
  moreover obtain s2 where s2: "dentry_put (Some d) s1 = Some s2" "files s2 = files s1"
      "inodes s2 = inodes s1" "vfs.more s2 = vfs.more s1"
      "dcount s2 = (dcount s1)(d := dcount s1 d - 1)"
    using dpos calculation by (metis dentry_put_ok)
  ultimately have "vfs_inv iext dext (file_free f s2)"
    using s1 s2 by (intro vfs_inv_drop [OF inv fl d ino])
      (auto simp: file_free_def s0_def dcount_def fun_eq_iff)
  then show ?thesis
    using fl one s1 s2 d
    by (simp add: fd_put_def close_vfs_def s0_def Let_def wp_simps file_free_def)
qed

lemma fd_put_wp:
  assumes inv: "vfs_inv iext dext s" and pos: "0 < fcount s f"
  shows "wp (fd_put f s) (\<lambda>s'. vfs_inv iext dext s' \<and>
           fcount s' = (fcount s)(f := fcount s f - 1) \<and> refs_frame s s')"
proof -
  from pos obtain fl where fl: "files s f = Some fl" "0 < f_refcount fl"
    by (cases "files s f") (auto simp: fcount_def)
  show ?thesis
  proof (cases "f_refcount fl = 1")
    case True
    show ?thesis
      by (rule wp_mono [OF fd_put_last [OF inv fl(1) True]])
        (use fl True in \<open>auto simp: fcount_def fun_eq_iff refs_frame_def same_file_def\<close>)
  next
    case False
    then show ?thesis
      using vfs_inv_upd_file [OF inv fl(1), of "fl\<lparr>f_refcount := f_refcount fl - 1\<rparr>"] fl
      by (auto simp: fd_put_def Let_def wp_simps fcount_def fun_eq_iff refs_frame_def same_file_def)
  qed
qed

section \<open>File descriptions and dentries as reference-counted objects\<close>

lemma fd_get_dead: "fcount s f = 0 \<Longrightarrow> vfs_inv iext dext s \<Longrightarrow> fd_get f s = None"
  by (fastforce simp: fcount_def fd_get_def vfs_inv_def split: option.splits)

lemma fd_put_dead: "fcount s f = 0 \<Longrightarrow> fd_put f s = None"
  by (auto simp: fcount_def fd_put_def split: option.splits)

interpretation file_refs: refcounted fcount fd_get fd_put "vfs_inv iext dext" refs_frame
  for iext dext
  by unfold_locales
    (auto intro: refs_frame_trans wp_mono [OF fd_get_wp] wp_mono [OF fd_put_wp]
      simp: fd_get_dead fd_put_dead)

definition drefs_pos :: "'a vfs_scheme \<Rightarrow> bool" where
  "drefs_pos s \<longleftrightarrow> (\<forall>d n. drefs s d = Some n \<longrightarrow> 0 < n)"

definition dentry_frame :: "'a vfs_scheme \<Rightarrow> 'a vfs_scheme \<Rightarrow> bool" where
  "dentry_frame s s' \<longleftrightarrow>
     files s' = files s \<and> inodes s' = inodes s \<and> vfs.more s' = vfs.more s"

interpretation dentry_refs: refcounted dcount dentry_get "\<lambda>d. dentry_put (Some d)"
    drefs_pos dentry_frame
  by unfold_locales
    (auto simp: dcount_def dentry_get_def dentry_put_def drefs_pos_def dentry_frame_def wp_simps
      fun_eq_iff split: option.splits)

end
