(* ===== verification/Rwlock.thy ===== *)
theory Rwlock
  imports Onyx_Prelude
begin

text \<open>
  The reader/writer locks of \<open>kernel/kernel/sched/rwlock.cpp\<close> and \<open>kernel/include/onyx/rwlock.h\<close>:
  the spinning \<open>rwslock\<close> and the sleeping \<open>rwlock\<close>. Both keep one word: 0 when free, the number of
  readers when read-locked, \<open>LONG_MAX\<close> when write-locked.

  The locks are modelled twice. The sequential functions give what an operation does to the word
  when no other thread interferes (\<open>None\<close>: it would spin or sleep for ever); the credentials and the inodes use them.
  The step relations \<open>rws_step\<close> and \<open>rw_step\<close> interleave any number of threads at the
  granularity of the atomic accesses of the code. Both relations are instances of the
  locale \<open>rw_protocol\<close>, in which mutual exclusion is proved once. For the sleeping lock it is shown
  in addition that no wake-up is lost.
\<close>

definition RDWR_LOCK_WRITE :: u64 where "RDWR_LOCK_WRITE = 0x7fffffffffffffff"

section \<open>The spinning lock without interference\<close>

definition rwslock_try_read :: "u64 \<Rightarrow> int \<times> u64" where
  "rwslock_try_read l =
     (if l = RDWR_LOCK_WRITE \<or> l = RDWR_LOCK_WRITE - 1 then (- EAGAIN, l) else (0, l + 1))"

definition rwslock_try_write :: "u64 \<Rightarrow> int \<times> u64" where
  "rwslock_try_write l = (if l = 0 then (0, RDWR_LOCK_WRITE) else (- EAGAIN, l))"

definition rwslock_lock_read :: "u64 \<Rightarrow> u64 option" where
  "rwslock_lock_read l =
     (if l = RDWR_LOCK_WRITE \<or> l = RDWR_LOCK_WRITE - 1 then None else Some (l + 1))"

definition rwslock_lock_write :: "u64 \<Rightarrow> u64 option" where
  "rwslock_lock_write l = (if l = 0 then Some RDWR_LOCK_WRITE else None)"

definition rwslock_unlock_read :: "u64 \<Rightarrow> u64" where
  "rwslock_unlock_read l = l - 1"

definition rwslock_unlock_write :: "u64 \<Rightarrow> u64" where
  "rwslock_unlock_write l = 0"

section \<open>The sleeping lock without interference\<close>

text \<open>A thread that fails to get the lock goes to sleep; with nobody there to unlock it, it sleeps for ever.\<close>

definition rw_lock_tryread :: "u64 \<Rightarrow> int + u64" where
  "rw_lock_tryread l =
     (if l = RDWR_LOCK_WRITE - 1 then Inl EAGAIN
      else if l = RDWR_LOCK_WRITE then Inl EBUSY
      else Inr (l + 1))"

definition rw_lock_trywrite :: "u64 \<Rightarrow> u64 option" where
  "rw_lock_trywrite l = (if l = 0 then Some RDWR_LOCK_WRITE else None)"

definition rw_lock_read :: "u64 \<Rightarrow> u64 option" where
  "rw_lock_read l = (case rw_lock_tryread l of Inl e \<Rightarrow> None | Inr l' \<Rightarrow> Some l')"

definition rw_lock_write :: "u64 \<Rightarrow> u64 option" where
  "rw_lock_write l = rw_lock_trywrite l"

definition rw_unlock_read :: "u64 \<Rightarrow> u64" where
  "rw_unlock_read l = l - 1"

definition rw_unlock_write :: "u64 \<Rightarrow> u64" where
  "rw_unlock_write l = 0"

lemma rw_lock_write_free [simp]: "rw_lock_write 0 = Some RDWR_LOCK_WRITE"
  by (simp add: rw_lock_write_def rw_lock_trywrite_def)

section \<open>The spinning lock with interleaving\<close>

text \<open>Where a thread is in the code of \<open>rwslock\<close>: about to load the word, about to
  compare-and-exchange with the value it loaded, waiting for 0, or holding the lock.\<close>

datatype rws_pc =
    Rs_Idle
  | Rs_Read_Load bool
  | Rs_Read_Cas bool u64
  | Rs_Reading
  | Rs_Write_Cas bool
  | Rs_Write_Spin
  | Rs_Writing

text \<open>The flag of the first, second and fourth state tells \<open>try_read\<close> and \<open>try_write\<close> (\<^const>\<open>True\<close>) from
  \<open>lock_read\<close> and \<open>lock_write\<close>.\<close>

record rws =
  rs_lock :: u64
  rs_pc :: "nat \<Rightarrow> rws_pc"
  rs_preempt :: "nat \<Rightarrow> nat"

definition rs_goto :: "nat \<Rightarrow> rws_pc \<Rightarrow> rws \<Rightarrow> rws" where
  "rs_goto t p s = s\<lparr>rs_pc := (rs_pc s)(t := p)\<rparr>"

definition sched_disable_preempt :: "nat \<Rightarrow> rws \<Rightarrow> rws" where
  "sched_disable_preempt t s = s\<lparr>rs_preempt := (rs_preempt s)(t := rs_preempt s t + 1)\<rparr>"

definition sched_enable_preempt :: "nat \<Rightarrow> rws \<Rightarrow> rws" where
  "sched_enable_preempt t s = s\<lparr>rs_preempt := (rs_preempt s)(t := rs_preempt s t - 1)\<rparr>"

definition rs_saturated :: "rws \<Rightarrow> bool" where
  "rs_saturated s = (rs_lock s = RDWR_LOCK_WRITE \<or> rs_lock s = RDWR_LOCK_WRITE - 1)"

inductive rws_step :: "rws \<Rightarrow> rws \<Rightarrow> bool" where
  read_enter: "rs_pc s t = Rs_Idle \<Longrightarrow>
     rws_step s (rs_goto t (Rs_Read_Load tr) (sched_disable_preempt t s))"
| read_load: "rs_pc s t = Rs_Read_Load tr \<Longrightarrow> \<not> rs_saturated s \<Longrightarrow>
     rws_step s (rs_goto t (Rs_Read_Cas tr (rs_lock s)) s)"
| read_spin: "rs_pc s t = Rs_Read_Load False \<Longrightarrow> rs_saturated s \<Longrightarrow> rws_step s s"
| read_again: "rs_pc s t = Rs_Read_Load True \<Longrightarrow> rs_saturated s \<Longrightarrow>
     rws_step s (rs_goto t Rs_Idle (sched_enable_preempt t s))"
| read_cas: "rs_pc s t = Rs_Read_Cas tr l \<Longrightarrow> rs_lock s = l \<Longrightarrow>
     rws_step s (rs_goto t Rs_Reading (s\<lparr>rs_lock := l + 1\<rparr>))"
| read_cas_fail: "rs_pc s t = Rs_Read_Cas tr l \<Longrightarrow> rs_lock s \<noteq> l \<Longrightarrow>
     rws_step s (rs_goto t (Rs_Read_Load tr) s)"
| write_enter: "rs_pc s t = Rs_Idle \<Longrightarrow>
     rws_step s (rs_goto t (Rs_Write_Cas tr) (sched_disable_preempt t s))"
| write_cas: "rs_pc s t = Rs_Write_Cas tr \<Longrightarrow> rs_lock s = 0 \<Longrightarrow>
     rws_step s (rs_goto t Rs_Writing (s\<lparr>rs_lock := RDWR_LOCK_WRITE\<rparr>))"
| write_cas_fail: "rs_pc s t = Rs_Write_Cas False \<Longrightarrow> rs_lock s \<noteq> 0 \<Longrightarrow>
     rws_step s (rs_goto t Rs_Write_Spin s)"
| write_again: "rs_pc s t = Rs_Write_Cas True \<Longrightarrow> rs_lock s \<noteq> 0 \<Longrightarrow>
     rws_step s (rs_goto t Rs_Idle (sched_enable_preempt t s))"
| write_spin: "rs_pc s t = Rs_Write_Spin \<Longrightarrow> rs_lock s \<noteq> 0 \<Longrightarrow> rws_step s s"
| write_free: "rs_pc s t = Rs_Write_Spin \<Longrightarrow> rs_lock s = 0 \<Longrightarrow>
     rws_step s (rs_goto t (Rs_Write_Cas False) s)"
| read_unlock: "rs_pc s t = Rs_Reading \<Longrightarrow>
     rws_step s (rs_goto t Rs_Idle (sched_enable_preempt t (s\<lparr>rs_lock := rs_lock s - 1\<rparr>)))"
| write_unlock: "rs_pc s t = Rs_Writing \<Longrightarrow>
     rws_step s (rs_goto t Rs_Idle (sched_enable_preempt t (s\<lparr>rs_lock := 0\<rparr>)))"

definition rws_init :: rws where
  "rws_init = \<lparr>rs_lock = 0, rs_pc = (\<lambda>t. Rs_Idle), rs_preempt = (\<lambda>t. 0)\<rparr>"

definition rs_readers :: "rws \<Rightarrow> nat set" where "rs_readers s = {t. rs_pc s t = Rs_Reading}"
definition rs_writers :: "rws \<Rightarrow> nat set" where "rs_writers s = {t. rs_pc s t = Rs_Writing}"

section \<open>The sleeping lock with interleaving\<close>

datatype thread_state = THREAD_RUNNABLE | THREAD_INTERRUPTIBLE | THREAD_UNINTERRUPTIBLE

datatype rw_kind = Rd | Wr

text \<open>
  Where a thread is in the code of \<open>rwlock\<close>. \<open>k\<close> tells \<open>__rw_lock_read\<close> from \<open>__rw_lock_write\<close>,
  \<open>st\<close> is the state passed to it, \<open>slow\<close> is \<^const>\<open>False\<close> for the attempt made before the sleeping loop.
\<close>

datatype rw_pc =
    Rw_Idle
  | Rw_Try rw_kind thread_state bool
  | Rw_Cas thread_state bool u64
  | Rw_Lock rw_kind thread_state
  | Rw_Prepare rw_kind thread_state
  | Rw_Signal rw_kind thread_state
  | Rw_Unlock rw_kind thread_state
  | Rw_Yield rw_kind thread_state
  | Rw_Relock rw_kind thread_state
  | Rw_Set_State rw_kind thread_state
  | Rw_Dequeue rw_kind int
  | Rw_Runnable rw_kind int
  | Rw_Leave rw_kind int
  | Rw_Held rw_kind
  | Rw_Wake_Lock rw_kind
  | Rw_Wake rw_kind
  | Rw_Wake_Unlock

record rwl =
  rw_word :: u64
  waiting_list :: "nat list"
  llock :: "nat option"
  rw_pc :: "nat \<Rightarrow> rw_pc"
  tstate :: "nat \<Rightarrow> thread_state"
  sigpending :: "nat \<Rightarrow> bool"

definition rw_goto :: "nat \<Rightarrow> rw_pc \<Rightarrow> rwl \<Rightarrow> rwl" where
  "rw_goto t p s = s\<lparr>rw_pc := (rw_pc s)(t := p)\<rparr>"

definition set_state :: "nat \<Rightarrow> thread_state \<Rightarrow> rwl \<Rightarrow> rwl" where
  "set_state t st s = s\<lparr>tstate := (tstate s)(t := st)\<rparr>"

definition rwlock_prepare_sleep :: "nat \<Rightarrow> thread_state \<Rightarrow> rwl \<Rightarrow> rwl" where
  "rwlock_prepare_sleep t st s = (set_state t st s)\<lparr>waiting_list := waiting_list s @ [t]\<rparr>"

definition dequeue_thread_rwlock :: "nat \<Rightarrow> rwl \<Rightarrow> rwl" where
  "dequeue_thread_rwlock t s = s\<lparr>waiting_list := remove1 t (waiting_list s)\<rparr>"

definition thread_wake_up :: "nat \<Rightarrow> rwl \<Rightarrow> rwl" where
  "thread_wake_up t s = set_state t THREAD_RUNNABLE s"

definition rw_lock_wake_up_threads :: "rwl \<Rightarrow> rwl" where
  "rw_lock_wake_up_threads s = fold thread_wake_up (waiting_list s) s"

definition rw_lock_wake_up_thread :: "rwl \<Rightarrow> rwl" where
  "rw_lock_wake_up_thread s = (if waiting_list s \<noteq> [] then thread_wake_up (hd (waiting_list s)) s else s)"

text \<open>What an attempt is followed by, in the fast path and in the loop.\<close>

definition rw_success :: "rw_kind \<Rightarrow> bool \<Rightarrow> rw_pc" where
  "rw_success k slow = (if slow then Rw_Dequeue k 0 else Rw_Held k)"

definition rw_failure :: "rw_kind \<Rightarrow> thread_state \<Rightarrow> bool \<Rightarrow> rw_pc" where
  "rw_failure k st slow = (if slow then Rw_Signal k st else Rw_Lock k st)"

inductive rw_step :: "rwl \<Rightarrow> rwl \<Rightarrow> bool" where
  enter: "rw_pc s t = Rw_Idle \<Longrightarrow> st \<noteq> THREAD_RUNNABLE \<Longrightarrow> rw_step s (rw_goto t (Rw_Try k st False) s)"
| tryread_load: "rw_pc s t = Rw_Try Rd st slow \<Longrightarrow>
     rw_word s \<noteq> RDWR_LOCK_WRITE - 1 \<Longrightarrow> rw_word s \<noteq> RDWR_LOCK_WRITE \<Longrightarrow>
     rw_step s (rw_goto t (Rw_Cas st slow (rw_word s)) s)"
| tryread_fail: "rw_pc s t = Rw_Try Rd st slow \<Longrightarrow>
     rw_word s = RDWR_LOCK_WRITE - 1 \<or> rw_word s = RDWR_LOCK_WRITE \<Longrightarrow>
     rw_step s (rw_goto t (rw_failure Rd st slow) s)"
| tryread_cas: "rw_pc s t = Rw_Cas st slow l \<Longrightarrow> rw_word s = l \<Longrightarrow>
     rw_step s (rw_goto t (rw_success Rd slow) (s\<lparr>rw_word := l + 1\<rparr>))"
| tryread_cas_fail: "rw_pc s t = Rw_Cas st slow l \<Longrightarrow> rw_word s \<noteq> l \<Longrightarrow>
     rw_step s (rw_goto t (Rw_Try Rd st slow) s)"
| trywrite: "rw_pc s t = Rw_Try Wr st slow \<Longrightarrow> rw_word s = 0 \<Longrightarrow>
     rw_step s (rw_goto t (rw_success Wr slow) (s\<lparr>rw_word := RDWR_LOCK_WRITE\<rparr>))"
| trywrite_fail: "rw_pc s t = Rw_Try Wr st slow \<Longrightarrow> rw_word s \<noteq> 0 \<Longrightarrow>
     rw_step s (rw_goto t (rw_failure Wr st slow) s)"
| lock_list: "rw_pc s t = Rw_Lock k st \<Longrightarrow> llock s = None \<Longrightarrow>
     rw_step s (rw_goto t (Rw_Prepare k st) (s\<lparr>llock := Some t\<rparr>))"
| prepare: "rw_pc s t = Rw_Prepare k st \<Longrightarrow>
     rw_step s (rw_goto t (Rw_Try k st True) (rwlock_prepare_sleep t st s))"
| interrupted: "rw_pc s t = Rw_Signal k st \<Longrightarrow> st = THREAD_INTERRUPTIBLE \<Longrightarrow> sigpending s t \<Longrightarrow>
     rw_step s (rw_goto t (Rw_Dequeue k (- EINTR)) s)"
| not_interrupted: "rw_pc s t = Rw_Signal k st \<Longrightarrow> \<not> (st = THREAD_INTERRUPTIBLE \<and> sigpending s t) \<Longrightarrow>
     rw_step s (rw_goto t (Rw_Unlock k st) s)"
| unlock_list: "rw_pc s t = Rw_Unlock k st \<Longrightarrow>
     rw_step s (rw_goto t (Rw_Yield k st) (s\<lparr>llock := None\<rparr>))"
| yield: "rw_pc s t = Rw_Yield k st \<Longrightarrow> tstate s t = THREAD_RUNNABLE \<Longrightarrow>
     rw_step s (rw_goto t (Rw_Relock k st) s)"
| relock_list: "rw_pc s t = Rw_Relock k st \<Longrightarrow> llock s = None \<Longrightarrow>
     rw_step s (rw_goto t (Rw_Set_State k st) (s\<lparr>llock := Some t\<rparr>))"
| set_sleeping: "rw_pc s t = Rw_Set_State k st \<Longrightarrow>
     rw_step s (rw_goto t (Rw_Try k st True) (set_state t st s))"
| dequeue: "rw_pc s t = Rw_Dequeue k ret \<Longrightarrow>
     rw_step s (rw_goto t (Rw_Runnable k ret) (dequeue_thread_rwlock t s))"
| set_runnable: "rw_pc s t = Rw_Runnable k ret \<Longrightarrow>
     rw_step s (rw_goto t (Rw_Leave k ret) (set_state t THREAD_RUNNABLE s))"
| leave: "rw_pc s t = Rw_Leave k ret \<Longrightarrow>
     rw_step s (rw_goto t (if ret = 0 then Rw_Held k else Rw_Idle) (s\<lparr>llock := None\<rparr>))"
| unlock_read: "rw_pc s t = Rw_Held Rd \<Longrightarrow>
     rw_step s (rw_goto t (if rw_word s - 1 = 0 then Rw_Wake_Lock Rd else Rw_Idle)
       (s\<lparr>rw_word := rw_word s - 1\<rparr>))"
| unlock_write: "rw_pc s t = Rw_Held Wr \<Longrightarrow>
     rw_step s (rw_goto t (Rw_Wake_Lock Wr) (s\<lparr>rw_word := 0\<rparr>))"
| wake_lock: "rw_pc s t = Rw_Wake_Lock k \<Longrightarrow> llock s = None \<Longrightarrow>
     rw_step s (rw_goto t (Rw_Wake k) (s\<lparr>llock := Some t\<rparr>))"
| wake_one: "rw_pc s t = Rw_Wake Rd \<Longrightarrow>
     rw_step s (rw_goto t Rw_Wake_Unlock (rw_lock_wake_up_thread s))"
| wake_all: "rw_pc s t = Rw_Wake Wr \<Longrightarrow>
     rw_step s (rw_goto t Rw_Wake_Unlock (rw_lock_wake_up_threads s))"
| wake_unlock: "rw_pc s t = Rw_Wake_Unlock \<Longrightarrow>
     rw_step s (rw_goto t Rw_Idle (s\<lparr>llock := None\<rparr>))"
| signal: "rw_step s ((if tstate s t = THREAD_INTERRUPTIBLE then thread_wake_up t s else s)
     \<lparr>sigpending := (sigpending s)(t := True)\<rparr>)"

definition rw_init :: rwl where
  "rw_init = \<lparr>rw_word = 0, waiting_list = [], llock = None, rw_pc = (\<lambda>t. Rw_Idle),
     tstate = (\<lambda>t. THREAD_RUNNABLE), sigpending = (\<lambda>t. False)\<rparr>"

fun holds :: "rw_kind \<Rightarrow> rw_pc \<Rightarrow> bool" where
  "holds k (Rw_Held k') = (k = k')"
| "holds k (Rw_Dequeue k' r) = (k = k' \<and> r = 0)"
| "holds k (Rw_Runnable k' r) = (k = k' \<and> r = 0)"
| "holds k (Rw_Leave k' r) = (k = k' \<and> r = 0)"
| "holds k _ = False"

definition rw_holders :: "rw_kind \<Rightarrow> rwl \<Rightarrow> nat set" where
  "rw_holders k s = {t. holds k (rw_pc s t)}"

section \<open>Mutual exclusion\<close>

text \<open>What a step may do to the word and to the sets of readers and writers.\<close>

datatype rw_effect = No_effect | Get_read nat | Get_write nat | Put_read nat | Put_write nat

fun rw_allowed :: "u64 \<Rightarrow> nat set \<Rightarrow> nat set \<Rightarrow> rw_effect \<Rightarrow> bool" where
  "rw_allowed w R W No_effect = True"
| "rw_allowed w R W (Get_read t) = (t \<notin> R \<and> w \<noteq> RDWR_LOCK_WRITE \<and> w \<noteq> RDWR_LOCK_WRITE - 1)"
| "rw_allowed w R W (Get_write t) = (w = 0)"
| "rw_allowed w R W (Put_read t) = (t \<in> R)"
| "rw_allowed w R W (Put_write t) = (t \<in> W)"

fun rw_apply :: "u64 \<times> nat set \<times> nat set \<Rightarrow> rw_effect \<Rightarrow> u64 \<times> nat set \<times> nat set" where
  "rw_apply (w, R, W) No_effect = (w, R, W)"
| "rw_apply (w, R, W) (Get_read t) = (w + 1, insert t R, W)"
| "rw_apply (w, R, W) (Get_write t) = (RDWR_LOCK_WRITE, R, insert t W)"
| "rw_apply (w, R, W) (Put_read t) = (w - 1, R - {t}, W)"
| "rw_apply (w, R, W) (Put_write t) = (0, R, W - {t})"

definition rw_ok :: "u64 \<Rightarrow> nat set \<Rightarrow> nat set \<Rightarrow> bool" where
  "rw_ok w R W \<longleftrightarrow> finite R \<and>
     (W = {} \<and> unat w = card R \<and> card R < unat RDWR_LOCK_WRITE \<or>
      R = {} \<and> w = RDWR_LOCK_WRITE \<and> (\<exists>t. W = {t}))"

lemma RDWR_LOCK_WRITE_simps:
  "unat RDWR_LOCK_WRITE = 9223372036854775807" "unat (RDWR_LOCK_WRITE - 1) = 9223372036854775806"
  "RDWR_LOCK_WRITE \<noteq> 0" "RDWR_LOCK_WRITE \<noteq> 1" "RDWR_LOCK_WRITE - 1 \<noteq> RDWR_LOCK_WRITE"
  by (simp_all add: RDWR_LOCK_WRITE_def)

lemma unat_plus_one: "unat (w::u64) < 9223372036854775807 \<Longrightarrow> unat (w + 1) = unat w + 1"
  by (simp add: unat_word_ariths)

lemma unat_minus_one: "0 < unat (w::u64) \<Longrightarrow> unat (w - 1) = unat w - 1"
  by (subst unat_minus_one) (auto simp: unat_eq_0)

lemma rw_ok_apply:
  assumes "rw_ok w R W" "rw_allowed w R W e" "rw_apply (w, R, W) e = (w', R', W')"
  shows "rw_ok w' R' W'"
proof (cases e)
  case (Get_read t)
  then have w: "unat w \<noteq> 9223372036854775806" "w \<noteq> RDWR_LOCK_WRITE" "t \<notin> R"
    using assms(2) RDWR_LOCK_WRITE_simps(2) by (auto simp: word_unat_eq_iff)
  then have "unat w = card R" "card R < 9223372036854775806" "finite R" "W = {}"
    using assms(1) by (auto simp: rw_ok_def RDWR_LOCK_WRITE_simps)
  then show ?thesis
    using assms(3) Get_read w by (auto simp: rw_ok_def unat_plus_one RDWR_LOCK_WRITE_simps)
next
  case (Get_write t)
  then show ?thesis using assms by (auto simp: rw_ok_def RDWR_LOCK_WRITE_simps)
next
  case (Put_read t)
  then have t: "t \<in> R" using assms(2) by simp
  then have "unat w = card R" "finite R" "W = {}" "card R < unat RDWR_LOCK_WRITE" "0 < card R"
    using assms(1) by (auto simp: rw_ok_def card_gt_0_iff)
  then show ?thesis
    using assms(3) Put_read t by (auto simp: rw_ok_def unat_minus_one)
next
  case (Put_write t)
  then show ?thesis using assms by (auto simp: rw_ok_def RDWR_LOCK_WRITE_simps)
qed (use assms in auto)

locale rw_protocol =
  fixes step :: "'s \<Rightarrow> 's \<Rightarrow> bool"
    and word :: "'s \<Rightarrow> u64"
    and readers writers :: "'s \<Rightarrow> nat set"
    and wf :: "'s \<Rightarrow> bool"
    and init :: 's
  assumes wf_step: "wf s \<Longrightarrow> step s s' \<Longrightarrow> wf s'"
    and effect: "wf s \<Longrightarrow> step s s' \<Longrightarrow> \<exists>e. rw_allowed (word s) (readers s) (writers s) e \<and>
        rw_apply (word s, readers s, writers s) e = (word s', readers s', writers s')"
    and init: "wf init" "word init = 0" "readers init = {}" "writers init = {}"
begin

lemma reach_ok:
  assumes "rtranclp step init s"
  shows "wf s \<and> rw_ok (word s) (readers s) (writers s)"
  using assms
proof (rule reach_invariant)
  show "wf init \<and> rw_ok (word init) (readers init) (writers init)"
    using init by (simp add: rw_ok_def RDWR_LOCK_WRITE_simps)
qed (use wf_step effect rw_ok_apply in meson)

lemma exclusion:
  assumes "rtranclp step init s" "t \<in> writers s"
  shows "writers s = {t}" "readers s = {}" "word s = RDWR_LOCK_WRITE"
  using reach_ok [OF assms(1)] assms(2) by (auto simp: rw_ok_def)

lemma free_iff:
  assumes "rtranclp step init s"
  shows "word s = 0 \<longleftrightarrow> readers s = {} \<and> writers s = {}"
  using reach_ok [OF assms] by (auto simp: rw_ok_def RDWR_LOCK_WRITE_simps unat_eq_0)

lemma word_counts:
  assumes "rtranclp step init s" "writers s = {}"
  shows "unat (word s) = card (readers s)"
  using reach_ok [OF assms(1)] assms(2) by (auto simp: rw_ok_def)

end

section \<open>The spinning lock is an instance\<close>

definition rws_wf :: "rws \<Rightarrow> bool" where
  "rws_wf s \<longleftrightarrow> (\<forall>t tr l. rs_pc s t = Rs_Read_Cas tr l \<longrightarrow> l \<noteq> RDWR_LOCK_WRITE \<and> l \<noteq> RDWR_LOCK_WRITE - 1)"

lemmas rs_defs = rs_goto_def sched_disable_preempt_def sched_enable_preempt_def rs_saturated_def
  rs_readers_def rs_writers_def

lemma rws_wf_step: "rws_wf s \<Longrightarrow> rws_step s s' \<Longrightarrow> rws_wf s'"
  by (erule rws_step.cases) (auto simp: rws_wf_def rs_defs)

lemma rws_effect:
  assumes "rws_wf s" "rws_step s s'"
  shows "\<exists>e. rw_allowed (rs_lock s) (rs_readers s) (rs_writers s) e \<and>
    rw_apply (rs_lock s, rs_readers s, rs_writers s) e = (rs_lock s', rs_readers s', rs_writers s')"
  using assms(2)
proof cases
  case (read_cas t tr l)
  then show ?thesis using assms(1) by (intro exI [of _ "Get_read t"]) (auto simp: rs_defs rws_wf_def)
next
  case (write_cas t tr)
  then show ?thesis by (intro exI [of _ "Get_write t"]) (auto simp: rs_defs)
next
  case (read_unlock t)
  then show ?thesis by (intro exI [of _ "Put_read t"]) (auto simp: rs_defs)
next
  case (write_unlock t)
  then show ?thesis by (intro exI [of _ "Put_write t"]) (auto simp: rs_defs)
qed (rule exI [of _ No_effect]; auto simp: rs_defs)+

interpretation rwslock: rw_protocol rws_step rs_lock rs_readers rs_writers rws_wf rws_init
proof
  show "rws_wf rws_init" "rs_lock rws_init = 0" "rs_readers rws_init = {}" "rs_writers rws_init = {}"
    by (simp_all add: rws_init_def rws_wf_def rs_readers_def rs_writers_def)
qed (fact rws_wf_step rws_effect)+

text \<open>Preemption is disabled exactly while a thread is inside the lock's code or holds the lock.\<close>

definition rws_preempt_ok :: "rws \<Rightarrow> bool" where
  "rws_preempt_ok s \<longleftrightarrow> (\<forall>t. rs_preempt s t = (if rs_pc s t = Rs_Idle then 0 else 1))"

lemma rws_preempt_step: "rws_preempt_ok s \<Longrightarrow> rws_step s s' \<Longrightarrow> rws_preempt_ok s'"
  by (erule rws_step.cases) (auto simp: rws_preempt_ok_def rs_defs)

lemma rws_preempt_reach: "rtranclp rws_step rws_init s \<Longrightarrow> rws_preempt_ok s"
  by (erule reach_invariant) (auto simp: rws_preempt_step, simp add: rws_preempt_ok_def rws_init_def)

section \<open>The sleeping lock is an instance\<close>

text \<open>The places where a thread owns the lock of the waiting list, and those where it is on it.\<close>

fun rw_owner :: "rw_pc \<Rightarrow> bool" where
  "rw_owner (Rw_Try k st slow) = slow"
| "rw_owner (Rw_Cas st slow l) = slow"
| "rw_owner (Rw_Prepare k st) = True"
| "rw_owner (Rw_Signal k st) = True"
| "rw_owner (Rw_Unlock k st) = True"
| "rw_owner (Rw_Set_State k st) = True"
| "rw_owner (Rw_Dequeue k r) = True"
| "rw_owner (Rw_Runnable k r) = True"
| "rw_owner (Rw_Leave k r) = True"
| "rw_owner (Rw_Wake k) = True"
| "rw_owner Rw_Wake_Unlock = True"
| "rw_owner _ = False"

fun rw_waiter :: "rw_pc \<Rightarrow> bool" where
  "rw_waiter (Rw_Try k st slow) = slow"
| "rw_waiter (Rw_Cas st slow l) = slow"
| "rw_waiter (Rw_Signal k st) = True"
| "rw_waiter (Rw_Unlock k st) = True"
| "rw_waiter (Rw_Yield k st) = True"
| "rw_waiter (Rw_Relock k st) = True"
| "rw_waiter (Rw_Set_State k st) = True"
| "rw_waiter (Rw_Dequeue k r) = True"
| "rw_waiter _ = False"

definition rw_wf :: "rwl \<Rightarrow> bool" where
  "rw_wf s \<longleftrightarrow>
     (\<forall>t st slow l. rw_pc s t = Rw_Cas st slow l \<longrightarrow> l \<noteq> RDWR_LOCK_WRITE \<and> l \<noteq> RDWR_LOCK_WRITE - 1) \<and>
     (\<forall>t. rw_owner (rw_pc s t) \<longleftrightarrow> llock s = Some t) \<and>
     distinct (waiting_list s) \<and> (\<forall>t. rw_waiter (rw_pc s t) \<longleftrightarrow> t \<in> set (waiting_list s))"

lemmas rw_defs = rw_goto_def set_state_def rwlock_prepare_sleep_def dequeue_thread_rwlock_def
  thread_wake_up_def rw_success_def rw_failure_def rw_holders_def

lemma wake_up_threads_eq: "rw_lock_wake_up_threads s =
    s\<lparr>tstate := (\<lambda>t. if t \<in> set (waiting_list s) then THREAD_RUNNABLE else tstate s t)\<rparr>"
proof -
  have "fold thread_wake_up ts s = s\<lparr>tstate := (\<lambda>t. if t \<in> set ts then THREAD_RUNNABLE else tstate s t)\<rparr>" for ts
  proof (induction ts arbitrary: s)
    case (Cons u ts)
    have "(\<lambda>t. if t \<in> set ts then THREAD_RUNNABLE else tstate (thread_wake_up u s) t) =
        (\<lambda>t. if t \<in> set (u # ts) then THREAD_RUNNABLE else tstate s t)" by (auto simp: rw_defs)
    then show ?case unfolding fold_Cons o_apply Cons.IH by (simp add: thread_wake_up_def set_state_def)
  qed simp
  then show ?thesis by (simp add: rw_lock_wake_up_threads_def)
qed

lemma wake_up_thread_eq: "rw_lock_wake_up_thread s =
    s\<lparr>tstate := (\<lambda>t. if waiting_list s \<noteq> [] \<and> t = hd (waiting_list s) then THREAD_RUNNABLE else tstate s t)\<rparr>"
  by (simp add: rw_lock_wake_up_thread_def rw_defs fun_upd_def)

lemma rw_wf_goto:
  assumes "rw_wf s" "rw_pc s t = q" "rw_pc s1 = rw_pc s"
    and "\<And>st slow l. p = Rw_Cas st slow l \<Longrightarrow> l \<noteq> RDWR_LOCK_WRITE \<and> l \<noteq> RDWR_LOCK_WRITE - 1"
    and "rw_owner p \<Longrightarrow> \<not> rw_owner q \<Longrightarrow> llock s = None"
    and "llock s1 = (if rw_owner p = rw_owner q then llock s else if rw_owner p then Some t else None)"
    and "waiting_list s1 = (if rw_waiter p = rw_waiter q then waiting_list s
        else if rw_waiter p then waiting_list s @ [t] else remove1 t (waiting_list s))"
  shows "rw_wf (rw_goto t p s1)"
proof -
  have own: "rw_owner q \<longleftrightarrow> llock s = Some t" and wait: "rw_waiter q \<longleftrightarrow> t \<in> set (waiting_list s)"
    and old: "\<And>u. rw_owner (rw_pc s u) \<longleftrightarrow> llock s = Some u"
      "\<And>u. rw_waiter (rw_pc s u) \<longleftrightarrow> u \<in> set (waiting_list s)" "distinct (waiting_list s)"
    using assms(1,2) by (auto simp: rw_wf_def)
  have "rw_owner (((rw_pc s)(t := p)) u) \<longleftrightarrow> llock s1 = Some u" for u
    using own old(1) [of u] assms(5,6) by auto
  moreover have "rw_waiter (((rw_pc s)(t := p)) u) \<longleftrightarrow> u \<in> set (waiting_list s1)" for u
    using wait old(2) [of u] old(3) assms(7) by auto
  moreover have "distinct (waiting_list s1)" using wait old(3) assms(7) by auto
  ultimately show ?thesis
    using assms(1,3,4) by (auto simp: rw_wf_def rw_goto_def)
qed

lemma rw_wf_step:
  assumes "rw_wf s" "rw_step s s'"
  shows "rw_wf s'"
  using assms(2)
proof cases
  case (signal t)
  then show ?thesis using assms(1) by (auto simp: rw_wf_def rw_defs)
qed ((simp only:, rule rw_wf_goto [OF assms(1)], assumption);
  auto simp: rw_defs wake_up_threads_eq wake_up_thread_eq split: if_splits)+

lemma rw_effect:
  assumes "rw_wf s" "rw_step s s'"
  shows "\<exists>e. rw_allowed (rw_word s) (rw_holders Rd s) (rw_holders Wr s) e \<and>
    rw_apply (rw_word s, rw_holders Rd s, rw_holders Wr s) e = (rw_word s', rw_holders Rd s', rw_holders Wr s')"
  using assms(2)
proof cases
  case (tryread_cas t st slow l)
  then show ?thesis using assms(1) by (intro exI [of _ "Get_read t"]) (auto simp: rw_defs rw_wf_def)
next
  case (trywrite t st slow)
  then show ?thesis by (intro exI [of _ "Get_write t"]) (auto simp: rw_defs)
next
  case (unlock_read t)
  then show ?thesis by (intro exI [of _ "Put_read t"]) (auto simp: rw_defs)
next
  case (unlock_write t)
  then show ?thesis by (intro exI [of _ "Put_write t"]) (auto simp: rw_defs)
qed (rule exI [of _ No_effect]; auto simp: rw_defs wake_up_threads_eq wake_up_thread_eq)+

interpretation rwlock: rw_protocol rw_step rw_word "rw_holders Rd" "rw_holders Wr" rw_wf rw_init
proof
  show "rw_wf rw_init" "rw_word rw_init = 0" "rw_holders Rd rw_init = {}" "rw_holders Wr rw_init = {}"
    by (simp_all add: rw_init_def rw_wf_def rw_holders_def)
qed (fact rw_wf_step rw_effect)+

section \<open>No wake-up of the sleeping lock is lost\<close>

text \<open>A thread that is on its way to wake waiters; a waiter that will try again without being
  woken; a waiter that will not.\<close>

fun rw_waker :: "rw_pc \<Rightarrow> bool" where
  "rw_waker (Rw_Wake_Lock k) = True"
| "rw_waker (Rw_Wake k) = True"
| "rw_waker _ = False"

fun rw_keen :: "rw_pc \<Rightarrow> thread_state \<Rightarrow> bool" where
  "rw_keen (Rw_Try k st slow) ts = slow"
| "rw_keen (Rw_Cas st slow l) ts = slow"
| "rw_keen (Rw_Yield k st) ts = (ts = THREAD_RUNNABLE)"
| "rw_keen (Rw_Relock k st) ts = True"
| "rw_keen (Rw_Set_State k st) ts = True"
| "rw_keen _ ts = False"

fun rw_asleep :: "rw_pc \<Rightarrow> thread_state \<Rightarrow> bool" where
  "rw_asleep (Rw_Signal k st) ts = True"
| "rw_asleep (Rw_Unlock k st) ts = True"
| "rw_asleep (Rw_Yield k st) ts = (ts \<noteq> THREAD_RUNNABLE)"
| "rw_asleep _ ts = False"

definition rw_awake :: "rwl \<Rightarrow> bool" where
  "rw_awake s \<longleftrightarrow> (\<exists>t. rw_waker (rw_pc s t) \<or> rw_keen (rw_pc s t) (tstate s t))"

definition rw_no_lost_wakeup :: "rwl \<Rightarrow> bool" where
  "rw_no_lost_wakeup s \<longleftrightarrow>
     rw_word s = 0 \<longrightarrow> (\<exists>t. rw_asleep (rw_pc s t) (tstate s t)) \<longrightarrow> rw_awake s"

lemma rw_keen_imp: "rw_keen p ts \<Longrightarrow> rw_waiter p"
  by (cases p) auto

lemma rw_asleep_imp: "rw_asleep p ts \<Longrightarrow> rw_waiter p"
  by (cases p) auto

text \<open>A step of one thread that touches no other thread's state keeps the property if it
  leaves the thread keen, waking, or the word non-zero, or if the thread was neither before and is not
  asleep after.\<close>

lemma rw_nlw_goto:
  assumes "rw_no_lost_wakeup s" "rw_pc s t = q" "rw_pc s1 = rw_pc s" "\<And>u. u \<noteq> t \<Longrightarrow> tstate s1 u = tstate s u"
    and "rw_word s1 \<noteq> 0 \<or> rw_waker p \<or> rw_keen p (tstate s1 t) \<or>
      rw_word s = rw_word s1 \<and> \<not> rw_waker q \<and> \<not> rw_keen q (tstate s t) \<and>
        (rw_asleep p (tstate s1 t) \<longrightarrow> rw_asleep q (tstate s t))"
  shows "rw_no_lost_wakeup (rw_goto t p s1)"
  unfolding rw_no_lost_wakeup_def
proof (intro impI)
  assume zero: "rw_word (rw_goto t p s1) = 0"
    and asleep: "\<exists>u. rw_asleep (rw_pc (rw_goto t p s1) u) (tstate (rw_goto t p s1) u)"
  have pc: "rw_pc (rw_goto t p s1) u = (if u = t then p else rw_pc s u)"
      "tstate (rw_goto t p s1) = tstate s1" "rw_word (rw_goto t p s1) = rw_word s1" for u
    using assms(3) by (auto simp: rw_goto_def)
  show "rw_awake (rw_goto t p s1)"
  proof (cases "rw_waker p \<or> rw_keen p (tstate s1 t)")
    case True
    then show ?thesis unfolding rw_awake_def pc by (intro exI [of _ t]) auto
  next
    case False
    then have *: "rw_word s = 0" "\<not> rw_waker q" "\<not> rw_keen q (tstate s t)"
        "rw_asleep p (tstate s1 t) \<longrightarrow> rw_asleep q (tstate s t)"
      using assms(5) zero pc by auto
    then have "\<exists>u. rw_asleep (rw_pc s u) (tstate s u)"
      using asleep assms(2,4) unfolding pc by (metis (full_types))
    then obtain u where "rw_waker (rw_pc s u) \<or> rw_keen (rw_pc s u) (tstate s u)"
      using assms(1) * by (auto simp: rw_no_lost_wakeup_def rw_awake_def)
    then show ?thesis
      using * assms(2,4) unfolding rw_awake_def pc by (intro exI [of _ u]) auto
  qed
qed

text \<open>Waking the first waiter, or all of them, makes one keen if there is any.\<close>

lemma rw_wake_awake:
  assumes "rw_wf s" "rw_pc s t = Rw_Wake k" "rw_asleep (rw_pc s u) (tstate s u)"
    and "\<And>v. tstate s1 v = (if v \<in> V then THREAD_RUNNABLE else tstate s v)" "rw_pc s1 = rw_pc s"
    and "waiting_list s \<noteq> [] \<Longrightarrow> hd (waiting_list s) \<in> V"
  shows "rw_awake (rw_goto t Rw_Wake_Unlock s1)"
proof -
  let ?h = "hd (waiting_list s)"
  have own: "\<And>v. rw_owner (rw_pc s v) \<longleftrightarrow> v = t" and wait: "\<And>v. rw_waiter (rw_pc s v) \<longleftrightarrow> v \<in> set (waiting_list s)"
    using assms(1,2) by (auto simp: rw_wf_def)
  have "waiting_list s \<noteq> []" using assms(3) wait [of u] rw_asleep_imp by fastforce
  then have h: "rw_waiter (rw_pc s ?h)" "?h \<in> V" using wait [of ?h] assms(6) by auto
  then have "?h \<noteq> t" "\<not> rw_owner (rw_pc s ?h)" using assms(2) own [of ?h] by auto
  moreover from this h(1) have "rw_keen (rw_pc s ?h) THREAD_RUNNABLE" by (cases "rw_pc s ?h") auto
  ultimately show ?thesis
    using h(2) assms(4,5) unfolding rw_awake_def by (intro exI [of _ ?h]) (simp add: rw_goto_def)
qed

lemma rw_wake_nlw:
  assumes "rw_wf s" "rw_pc s t = Rw_Wake k" "rw_pc s1 = rw_pc s"
    and "\<And>v. tstate s1 v = (if v \<in> V then THREAD_RUNNABLE else tstate s v)"
    and "waiting_list s \<noteq> [] \<Longrightarrow> hd (waiting_list s) \<in> V"
  shows "rw_no_lost_wakeup (rw_goto t Rw_Wake_Unlock s1)"
  unfolding rw_no_lost_wakeup_def
proof (intro impI, elim exE)
  fix u assume u: "rw_asleep (rw_pc (rw_goto t Rw_Wake_Unlock s1) u) (tstate (rw_goto t Rw_Wake_Unlock s1) u)"
  have "rw_asleep p ts \<Longrightarrow> rw_asleep p THREAD_RUNNABLE \<Longrightarrow> rw_asleep p ts'" for p ts ts' by (cases p) auto
  moreover have "rw_asleep p THREAD_RUNNABLE \<Longrightarrow> rw_asleep p ts" for p ts by (cases p) auto
  ultimately have "rw_asleep (rw_pc s u) (tstate s u)"
    using u assms(3,4) by (auto simp: rw_goto_def split: if_splits)
  then show "rw_awake (rw_goto t Rw_Wake_Unlock s1)"
    by (rule rw_wake_awake [OF assms(1,2) _ assms(4,3,5)])
qed

lemma rw_nlw_step:
  assumes "rw_wf s" "rw_no_lost_wakeup s" "rw_step s s'"
    and "rw_ok (rw_word s) (rw_holders Rd s) (rw_holders Wr s)"
  shows "rw_no_lost_wakeup s'"
  using assms(3)
proof cases
  case (wake_one t)
  then show ?thesis
    using rw_wake_nlw [OF assms(1) wake_one(2), of "rw_lock_wake_up_thread s" "set (take 1 (waiting_list s))"]
    by (cases "waiting_list s") (auto simp: wake_up_thread_eq)
next
  case (wake_all t)
  then show ?thesis
    using rw_wake_nlw [OF assms(1) wake_all(2), of "rw_lock_wake_up_threads s" "set (waiting_list s)"]
    by (auto simp: wake_up_threads_eq)
next
  case (signal t)
  have "rw_asleep p THREAD_RUNNABLE \<Longrightarrow> rw_asleep p ts" "rw_keen p ts \<Longrightarrow> rw_keen p THREAD_RUNNABLE" for p ts
    by (cases p; simp)+
  then show ?thesis
    using assms(2) signal by (fastforce simp: rw_no_lost_wakeup_def rw_awake_def rw_defs)
next
  case (tryread_cas t st slow l)
  have "unat l \<le> 9223372036854775807"
    using assms(4) tryread_cas by (auto simp: rw_ok_def RDWR_LOCK_WRITE_simps)
  then have "l + 1 \<noteq> 0" by (auto simp: unat_eq_0 [symmetric] unat_word_ariths)
  then show ?thesis using tryread_cas by (simp only:) (rule rw_nlw_goto [OF assms(2)], auto)
qed ((simp only:, rule rw_nlw_goto [OF assms(2)], assumption); auto simp: rw_defs RDWR_LOCK_WRITE_simps split: if_splits)+

lemma rw_nlw_reach:
  assumes "rtranclp rw_step rw_init s"
  shows "rw_no_lost_wakeup s"
  using assms
proof (induction rule: rtranclp_induct)
  case base
  show ?case by (simp add: rw_no_lost_wakeup_def rw_init_def)
next
  case (step s s')
  then show ?case using rw_nlw_step rwlock.reach_ok by blast
qed

section \<open>Properties\<close>

text \<open>
  C1. Mutual exclusion of the sleeping lock. In every state that any number of threads can reach
  through \<open>rw_lock_read\<close>, \<open>rw_lock_write\<close> and their interruptible and unlocking counterparts, either
  one thread holds the lock for writing, nobody reads and the word is \<open>RDWR_LOCK_WRITE\<close>, or
  nobody writes and the word is the number of readers.
\<close>

theorem rwlock_mutual_exclusion:
  assumes "rtranclp rw_step rw_init s"
  shows "(\<exists>t. rw_holders Wr s = {t} \<and> rw_holders Rd s = {} \<and> rw_word s = RDWR_LOCK_WRITE) \<or>
    (rw_holders Wr s = {} \<and> finite (rw_holders Rd s) \<and> unat (rw_word s) = card (rw_holders Rd s))"
  using rwlock.reach_ok [OF assms] by (auto simp: rw_ok_def)

text \<open>A run in which thread 0 takes the lock for writing, thread 1 goes to sleep waiting for it, and
  thread 0 has released the word but not woken anybody yet.\<close>

definition sleeper_run :: "rwl list" where
  "sleeper_run =
     (let u = THREAD_UNINTERRUPTIBLE;
          s1 = rw_goto 0 (Rw_Try Wr u False) rw_init;
          s2 = rw_goto 0 (rw_success Wr False) (s1\<lparr>rw_word := RDWR_LOCK_WRITE\<rparr>);
          s3 = rw_goto 1 (Rw_Try Wr u False) s2;
          s4 = rw_goto 1 (rw_failure Wr u False) s3;
          s5 = rw_goto 1 (Rw_Prepare Wr u) (s4\<lparr>llock := Some 1\<rparr>);
          s6 = rw_goto 1 (Rw_Try Wr u True) (rwlock_prepare_sleep 1 u s5);
          s7 = rw_goto 1 (rw_failure Wr u True) s6;
          s8 = rw_goto 1 (Rw_Unlock Wr u) s7;
          s9 = rw_goto 1 (Rw_Yield Wr u) (s8\<lparr>llock := None\<rparr>);
          s10 = rw_goto 0 (Rw_Wake_Lock Wr) (s9\<lparr>rw_word := 0\<rparr>)
      in [rw_init, s1, s2, s3, s4, s5, s6, s7, s8, s9, s10])"

lemma sleeper_run_steps:
  assumes "i < 10"
  shows "rw_step (sleeper_run ! i) (sleeper_run ! Suc i)"
proof -
  have "i \<in> {0, 1, 2, 3, 4, 5, 6, 7, 8, 9}" using assms by auto
  then show ?thesis
    unfolding sleeper_run_def Let_def
    by (elim insertE; simp; intro rw_step.enter rw_step.trywrite rw_step.trywrite_fail rw_step.lock_list
        rw_step.prepare rw_step.not_interrupted rw_step.unlock_list rw_step.unlock_write;
        simp add: rw_defs rw_init_def RDWR_LOCK_WRITE_simps)
qed

lemma sleeper_run_reach: "i \<le> 10 \<Longrightarrow> rtranclp rw_step rw_init (sleeper_run ! i)"
proof (induction i)
  case 0
  then show ?case by (simp add: sleeper_run_def Let_def)
next
  case (Suc i)
  then show ?case using sleeper_run_steps [of i] by simp
qed

theorem rwlock_mutual_exclusion_witness:
  "rw_holders Wr (sleeper_run ! 2) = {0} \<and> rw_holders Rd (sleeper_run ! 2) = {}"
  using rwlock_mutual_exclusion [OF sleeper_run_reach [of 2]]
  by (auto simp: sleeper_run_def Let_def rw_defs rw_init_def)



text \<open>
  C3. Mutual exclusion of the spinning lock, and its balance of preemption: in every reachable
  state either one thread writes and nobody reads, or nobody writes and the word counts the readers; and
  preemption is disabled once for every thread that is inside the lock's code or holds it, and for no
  other.
\<close>

theorem rwslock_mutual_exclusion:
  assumes "rtranclp rws_step rws_init s"
  shows "((\<exists>t. rs_writers s = {t} \<and> rs_readers s = {} \<and> rs_lock s = RDWR_LOCK_WRITE) \<or>
    (rs_writers s = {} \<and> finite (rs_readers s) \<and> unat (rs_lock s) = card (rs_readers s))) \<and>
    (\<forall>t. rs_preempt s t = (if rs_pc s t = Rs_Idle then 0 else 1))"
  using rwslock.reach_ok [OF assms] rws_preempt_reach [OF assms]
  by (auto simp: rw_ok_def rws_preempt_ok_def)

lemma rws_reader_reach:
  "rtranclp rws_step rws_init (rs_goto 5 (Rs_Read_Load False) (sched_disable_preempt 5 rws_init))"
  by (rule r_into_rtranclp, rule rws_step.read_enter) (simp add: rws_init_def)

theorem rwslock_mutual_exclusion_witness:
  "rs_preempt (rs_goto 5 (Rs_Read_Load False) (sched_disable_preempt 5 rws_init)) 5 = 1"
  using rwslock_mutual_exclusion [OF rws_reader_reach, THEN conjunct2, THEN spec, of 5] by (simp add: rs_defs)

end
