(* ===== verification/Creds.thy ===== *)
theory Creds
  imports Rwlock
begin

text \<open>
  Process credentials (\<open>kernel/kernel/cred.cpp\<close>, \<open>kernel/include/onyx/cred.h\<close>) and resource limits
  (\<open>kernel/kernel/rlimit.cpp\<close>). The credentials carry the spinning reader/writer lock; every system call
  takes it on entry and gives it back on every way out. Copies to and from user memory are parameters:
  \<open>uw\<close> says which user addresses can be written, \<open>ur\<close> what a user array of group ids holds
  (\<open>None\<close>: the copy faults). What a call writes to user memory is returned as a list.

  The lemmas show the lock discipline, that no sequence of credential calls lets a process without a
  root id obtain one, and the two places where the code departs from that intent: a forked
  child gets the saved id 0.
\<close>

unbundle bit_operations_syntax

section \<open>State\<close>

record creds =
  c_lock :: u64
  ruid :: u32
  euid :: u32
  rgid :: u32
  egid :: u32
  suid :: u32
  sgid :: u32
  groups :: "u32 list option"

definition kernel_creds :: creds where
  "kernel_creds = \<lparr>c_lock = 0, ruid = 0, euid = 0, rgid = 0, egid = 0, suid = 0, sgid = 0,
     groups = None\<rparr>"

definition creds_init :: "creds \<Rightarrow> creds" where
  "creds_init c = c\<lparr>ruid := 0, euid := 0, rgid := 0, egid := 0, suid := 0, sgid := 0, groups := None\<rparr>"

section \<open>Taking and giving back the lock\<close>

definition creds_get :: "creds \<Rightarrow> creds option" where
  "creds_get c = do { l \<leftarrow> rwslock_lock_read (c_lock c); Some (c\<lparr>c_lock := l\<rparr>) }"

definition creds_get_write :: "creds \<Rightarrow> creds option" where
  "creds_get_write c = do { l \<leftarrow> rwslock_lock_write (c_lock c); Some (c\<lparr>c_lock := l\<rparr>) }"

definition creds_put :: "creds \<Rightarrow> creds" where
  "creds_put c = c\<lparr>c_lock := rwslock_unlock_read (c_lock c)\<rparr>"

definition creds_put_write :: "creds \<Rightarrow> creds" where
  "creds_put_write c = c\<lparr>c_lock := rwslock_unlock_write (c_lock c)\<rparr>"

definition is_root_user :: "creds \<Rightarrow> (bool \<times> creds) option" where
  "is_root_user c = do { c \<leftarrow> creds_get c; let is = (euid c = 0); Some (is, creds_put c) }"

definition process_inherit_creds :: "creds \<Rightarrow> creds \<Rightarrow> creds" where
  "process_inherit_creds child parentc =
     child\<lparr>egid := egid parentc, rgid := rgid parentc, euid := euid parentc, ruid := ruid parentc,
       sgid := 0, suid := 0\<rparr>"

section \<open>User and group ids\<close>

definition sys_setuid :: "u32 \<Rightarrow> creds \<Rightarrow> (int \<times> creds) option" where
  "sys_setuid uid c0 = do {
     c \<leftarrow> creds_get_write c0;
     if euid c \<noteq> 0 \<and> (uid \<noteq> ruid c \<and> uid \<noteq> suid c) then Some (- EPERM, creds_put_write c)
     else if euid c = 0
     then Some (0, creds_put_write (c\<lparr>euid := uid, ruid := uid, suid := uid\<rparr>))
     else if uid \<noteq> ruid c \<and> uid \<noteq> suid c then Some (- EPERM, creds_put_write c)
     else Some (0, creds_put_write (c\<lparr>euid := uid\<rparr>))
   }"

definition sys_setgid :: "u32 \<Rightarrow> creds \<Rightarrow> (int \<times> creds) option" where
  "sys_setgid gid c0 = do {
     c \<leftarrow> creds_get_write c0;
     if egid c \<noteq> 0 \<and> (gid \<noteq> rgid c \<and> gid \<noteq> sgid c) then Some (- EPERM, creds_put_write c)
     else if egid c = 0
     then Some (0, creds_put_write (c\<lparr>egid := gid, rgid := gid, sgid := gid\<rparr>))
     else if gid \<noteq> rgid c \<and> gid \<noteq> sgid c then Some (- EPERM, creds_put_write c)
     else Some (0, creds_put_write (c\<lparr>egid := gid\<rparr>))
   }"

definition sys_getuid :: "creds \<Rightarrow> (u32 \<times> creds) option" where
  "sys_getuid c0 = do { c \<leftarrow> creds_get c0; let u = euid c; Some (u, creds_put c) }"

definition sys_getgid :: "creds \<Rightarrow> (u32 \<times> creds) option" where
  "sys_getgid c0 = do { c \<leftarrow> creds_get c0; let g = egid c; Some (g, creds_put c) }"

type_synonym uptr = u64

definition sys_get_uids ::
  "(uptr \<Rightarrow> bool) \<Rightarrow> uptr \<Rightarrow> uptr \<Rightarrow> uptr \<Rightarrow> creds \<Rightarrow> (int \<times> (uptr \<times> u32) list \<times> creds) option" where
  "sys_get_uids uw ruidp euidp suidp c0 = do {
     c \<leftarrow> creds_get c0;
     if ruidp \<noteq> 0 \<and> \<not> uw ruidp then Some (- EFAULT, [], creds_put c)
     else do {
       let w1 = (if ruidp \<noteq> 0 then [(ruidp, ruid c)] else []);
       if euidp \<noteq> 0 \<and> \<not> uw euidp then Some (- EFAULT, w1, creds_put c)
       else do {
         let w2 = w1 @ (if euidp \<noteq> 0 then [(euidp, euid c)] else []);
         if suidp \<noteq> 0 \<and> \<not> uw suidp then Some (- EFAULT, w2, creds_put c)
         else Some (0, w2 @ (if suidp \<noteq> 0 then [(suidp, suid c)] else []), creds_put c)
       }
     }
   }"

definition sys_get_gids ::
  "(uptr \<Rightarrow> bool) \<Rightarrow> uptr \<Rightarrow> uptr \<Rightarrow> uptr \<Rightarrow> creds \<Rightarrow> (int \<times> (uptr \<times> u32) list \<times> creds) option" where
  "sys_get_gids uw rgidp egidp sgidp c0 = do {
     c \<leftarrow> creds_get c0;
     if rgidp \<noteq> 0 \<and> \<not> uw rgidp then Some (- EFAULT, [], creds_put c)
     else do {
       let w1 = (if rgidp \<noteq> 0 then [(rgidp, rgid c)] else []);
       if egidp \<noteq> 0 \<and> \<not> uw egidp then Some (- EFAULT, w1, creds_put c)
       else do {
         let w2 = w1 @ (if egidp \<noteq> 0 then [(egidp, egid c)] else []);
         if sgidp \<noteq> 0 \<and> \<not> uw sgidp then Some (- EFAULT, w2, creds_put c)
         else Some (0, w2 @ (if sgidp \<noteq> 0 then [(sgidp, sgid c)] else []), creds_put c)
       }
     }
   }"

definition may_switch_to_uid :: "u32 \<Rightarrow> creds \<Rightarrow> bool" where
  "may_switch_to_uid i c = (i = euid c \<or> i = ruid c \<or> i = suid c)"

definition SET_UIDS_RUID_VALID :: u32 where "SET_UIDS_RUID_VALID = 1"
definition SET_UIDS_EUID_VALID :: u32 where "SET_UIDS_EUID_VALID = 2"
definition SET_UIDS_SUID_VALID :: u32 where "SET_UIDS_SUID_VALID = 4"

definition sys_set_uids :: "u32 \<Rightarrow> u32 \<Rightarrow> u32 \<Rightarrow> u32 \<Rightarrow> creds \<Rightarrow> (int \<times> creds) option" where
  "sys_set_uids flags ruid' euid' suid' c0 = do {
     c \<leftarrow> creds_get_write c0;
     let euid_valid = (flags AND SET_UIDS_EUID_VALID \<noteq> 0 \<and> euid' \<noteq> - 1);
     let ruid_valid = (flags AND SET_UIDS_RUID_VALID \<noteq> 0 \<and> ruid' \<noteq> - 1);
     let suid_valid = (flags AND SET_UIDS_SUID_VALID \<noteq> 0 \<and> suid' \<noteq> - 1);
     if euid c \<noteq> 0 \<and>
        ((euid_valid \<and> \<not> may_switch_to_uid euid' c) \<or>
         (ruid_valid \<and> \<not> may_switch_to_uid ruid' c) \<or>
         (suid_valid \<and> \<not> may_switch_to_uid suid' c))
     then Some (- EPERM, creds_put_write c)
     else do {
       let c1 = (if euid_valid then c\<lparr>euid := euid'\<rparr> else c);
       let c2 = (if ruid_valid then c1\<lparr>ruid := ruid'\<rparr> else c1);
       let c3 = (if suid_valid then c2\<lparr>suid := suid'\<rparr> else c2);
       Some (0, creds_put_write c3)
     }
   }"

definition may_switch_to_gid :: "u32 \<Rightarrow> creds \<Rightarrow> bool" where
  "may_switch_to_gid i c = (i = egid c \<or> i = rgid c \<or> i = sgid c)"

definition SET_GIDS_RGID_VALID :: u32 where "SET_GIDS_RGID_VALID = 1"
definition SET_GIDS_EGID_VALID :: u32 where "SET_GIDS_EGID_VALID = 2"
definition SET_GIDS_SGID_VALID :: u32 where "SET_GIDS_SGID_VALID = 4"

definition sys_set_gids :: "u32 \<Rightarrow> u32 \<Rightarrow> u32 \<Rightarrow> u32 \<Rightarrow> creds \<Rightarrow> (int \<times> creds) option" where
  "sys_set_gids flags rgid' egid' sgid' c0 = do {
     c \<leftarrow> creds_get_write c0;
     let egid_valid = (flags AND SET_GIDS_EGID_VALID \<noteq> 0 \<and> egid' \<noteq> - 1);
     let rgid_valid = (flags AND SET_GIDS_RGID_VALID \<noteq> 0 \<and> rgid' \<noteq> - 1);
     let sgid_valid = (flags AND SET_GIDS_SGID_VALID \<noteq> 0 \<and> sgid' \<noteq> - 1);
     if euid c \<noteq> 0 \<and>
        ((egid_valid \<and> \<not> may_switch_to_gid egid' c) \<or>
         (rgid_valid \<and> \<not> may_switch_to_gid rgid' c) \<or>
         (sgid_valid \<and> \<not> may_switch_to_gid sgid' c))
     then Some (- EPERM, creds_put_write c)
     else do {
       let c1 = (if egid_valid then c\<lparr>egid := egid'\<rparr> else c);
       let c2 = (if rgid_valid then c1\<lparr>rgid := rgid'\<rparr> else c1);
       let c3 = (if sgid_valid then c2\<lparr>sgid := sgid'\<rparr> else c2);
       Some (0, creds_put_write c3)
     }
   }"

section \<open>Supplementary groups\<close>

text \<open>
  A list of group ids is owned by the credentials that point to it. \<open>ur p n\<close> is what \<open>copy_from_user\<close>
  reads from the \<open>n\<close> ids at \<open>p\<close>; \<open>mem\<close> says whether the vector's buffer can be allocated.
\<close>

definition set_groups ::
  "(uptr \<Rightarrow> nat \<Rightarrow> u32 list option) \<Rightarrow> bool \<Rightarrow> uptr \<Rightarrow> nat \<Rightarrow> int \<times> u32 list" where
  "set_groups ur mem u_gid_list sz =
     (if \<not> mem then (- ENOMEM, [])
      else case ur u_gid_list sz of
        None \<Rightarrow> (- EFAULT, [])
      | Some gs \<Rightarrow> (0, gs))"

definition get_groups ::
  "(uptr \<Rightarrow> nat \<Rightarrow> bool) \<Rightarrow> int \<Rightarrow> uptr \<Rightarrow> u32 list \<Rightarrow> int \<times> (uptr \<times> u32 list) option" where
  "get_groups uw sz ugids gs =
     (if sz = 0 then (int (length gs), None)
      else if nat sz \<noteq> length gs then (- EINVAL, None)
      else if \<not> uw ugids (nat sz) then (- EFAULT, None)
      else (0, Some (ugids, gs)))"

definition sys_setgroups ::
  "(uptr \<Rightarrow> nat \<Rightarrow> u32 list option) \<Rightarrow> bool \<Rightarrow> bool \<Rightarrow> nat \<Rightarrow> uptr \<Rightarrow> creds \<Rightarrow> (int \<times> creds) option" where
  "sys_setgroups ur mem1 mem2 sz ugids c0 = do {
     c \<leftarrow> creds_get_write c0;
     if euid c \<noteq> 0 then Some (- EPERM, creds_put_write c)
     else if INT_MAX < sz then Some (- EINVAL, creds_put_write c)
     else if ugids = 0 then do {
       old \<leftarrow> groups c;
       Some (0, creds_put_write (c\<lparr>groups := None\<rparr>))
     }
     else if \<not> mem1 then Some (- ENOMEM, creds_put_write c)
     else do {
       let (st, gs) = set_groups ur mem2 ugids sz;
       if st < 0 then Some (st, creds_put_write c)
       else Some (0, creds_put_write (c\<lparr>groups := Some gs\<rparr>))
     }
   }"

definition sys_getgroups ::
  "(uptr \<Rightarrow> nat \<Rightarrow> bool) \<Rightarrow> int \<Rightarrow> uptr \<Rightarrow> creds \<Rightarrow> (int \<times> (uptr \<times> u32 list) option \<times> creds) option" where
  "sys_getgroups uw sz ugids c0 =
     (if sz < 0 then Some (- EINVAL, None, c0)
      else do {
        c \<leftarrow> creds_get c0;
        case groups c of
          None \<Rightarrow> Some (0, None, creds_put c)
        | Some gs \<Rightarrow> (let (st, w) = get_groups uw sz ugids gs in Some (st, w, creds_put c))
      })"

definition cred_is_in_group :: "creds \<Rightarrow> u32 \<Rightarrow> bool" where
  "cred_is_in_group c gid =
     (case groups c of None \<Rightarrow> False | Some ids \<Rightarrow> list_ex (\<lambda>g. g = gid) ids)"

section \<open>Resource limits\<close>

record rlim =
  rlim_cur :: u64
  rlim_max :: u64

record rlimset =
  rlimit_lock :: u64
  rlimits :: "rlim list"

definition RLIM_INFINITY :: u64 where "RLIM_INFINITY = - 1"
definition RLIMIT_NOFILE :: nat where "RLIMIT_NOFILE = 7"
definition nlimits :: nat where "nlimits = 16"

text \<open>\<open>process::rlimit\<close>. \<open>want_old\<close> says whether the caller passed a place for the old limit; the
  credentials are those of the calling process.\<close>

definition process_rlimit ::
  "nat \<Rightarrow> bool \<Rightarrow> rlim option \<Rightarrow> rlimset \<Rightarrow> creds \<Rightarrow> (int \<times> rlim option \<times> rlimset \<times> creds) option" where
  "process_rlimit rsrc want_old new_lim p c = do {
     l \<leftarrow> rwslock_lock_write (rlimit_lock p);
     lim \<leftarrow> array_get (rlimits p) rsrc;
     let old = (if want_old then Some lim else None);
     let unlock = (\<lambda>ls. p\<lparr>rlimit_lock := rwslock_unlock_write l, rlimits := ls\<rparr>);
     case new_lim of
       None \<Rightarrow> Some (0, old, unlock (rlimits p), c)
     | Some new_lim \<Rightarrow> do {
         (is_root, c) \<leftarrow> is_root_user c;
         if \<not> is_root \<and> rlim_max new_lim \<noteq> rlim_max lim then Some (- EPERM, old, unlock (rlimits p), c)
         else if \<not> is_root \<and> rlim_cur new_lim > rlim_max lim then Some (- EPERM, old, unlock (rlimits p), c)
         else do {
           ls \<leftarrow> array_set (rlimits p) rsrc
             (lim\<lparr>rlim_cur := rlim_cur new_lim, rlim_max := rlim_max new_lim\<rparr>);
           Some (0, old, unlock ls, c)
         }
       }
   }"

definition get_rlimit :: "nat \<Rightarrow> rlimset \<Rightarrow> (rlim \<times> rlimset) option" where
  "get_rlimit rsrc p = do {
     l \<leftarrow> rwslock_lock_read (rlimit_lock p);
     r \<leftarrow> array_get (rlimits p) rsrc;
     Some (r, p\<lparr>rlimit_lock := rwslock_unlock_read l\<rparr>)
   }"

definition init_default_limits :: "rlimset \<Rightarrow> rlimset option" where
  "init_default_limits p = do {
     let ls = map (\<lambda>l. l\<lparr>rlim_cur := RLIM_INFINITY, rlim_max := RLIM_INFINITY\<rparr>) (rlimits p);
     l \<leftarrow> array_get ls RLIMIT_NOFILE;
     ls \<leftarrow> array_set ls RLIMIT_NOFILE (l\<lparr>rlim_cur := 1024, rlim_max := 4096\<rparr>);
     Some (p\<lparr>rlimits := ls\<rparr>)
   }"

fun inherit_limits_loop :: "rlim list \<Rightarrow> nat list \<Rightarrow> rlim list \<Rightarrow> rlim list option" where
  "inherit_limits_loop parent [] ls = Some ls"
| "inherit_limits_loop parent (i # is) ls = do {
     l \<leftarrow> array_get parent i;
     ls' \<leftarrow> array_set ls i l;
     inherit_limits_loop parent is ls'
   }"

definition inherit_limits :: "rlimset \<Rightarrow> rlimset \<Rightarrow> rlimset option" where
  "inherit_limits parent p = do {
     ls \<leftarrow> inherit_limits_loop (rlimits parent) [0..<nlimits] (rlimits p);
     Some (p\<lparr>rlimits := ls\<rparr>)
   }"

text \<open>\<open>sys_rlimit\<close> on the process the pid lookup gave: \<open>target\<close> is \<^const>\<open>None\<close> if there is none. \<open>unew\<close> is the
  user's new limit: \<open>None\<close> for a null pointer, \<open>Some None\<close> if reading it faults. \<open>uold\<close> is \<open>None\<close> for a null
  pointer, \<open>Some b\<close> if the place can (\<open>b\<close>) or cannot be written. The last component of the result is
  what is written there.\<close>

definition sys_rlimit ::
  "rlimset option \<Rightarrow> int \<Rightarrow> bool option \<Rightarrow> rlim option option \<Rightarrow> u32 \<Rightarrow> creds \<Rightarrow>
   (int \<times> rlimset option \<times> creds \<times> rlim option) option" where
  "sys_rlimit target resource uold unew flags c =
     (if flags \<noteq> 0 then Some (- EINVAL, target, c, None)
      else if resource < 0 \<or> int nlimits \<le> resource then Some (- EINVAL, target, c, None)
      else case target of
        None \<Rightarrow> Some (- ESRCH, target, c, None)
      | Some p \<Rightarrow>
          if unew = Some None then Some (- EFAULT, target, c, None)
          else do {
            (st, old, p', c') \<leftarrow> process_rlimit (nat resource) (uold \<noteq> None)
              (case unew of None \<Rightarrow> None | Some l \<Rightarrow> l) p c;
            if st = 0 \<and> uold = Some False then Some (- EFAULT, Some p', c', None)
            else Some (st, Some p', c', if st = 0 \<and> uold = Some True then old else None)
          })"

section \<open>Lock discipline\<close>

lemma wp_creds_get [wp_simps]:
  "wp (creds_get c) Q \<longleftrightarrow> c_lock c \<noteq> RDWR_LOCK_WRITE \<and> c_lock c \<noteq> RDWR_LOCK_WRITE - 1 \<and>
     Q (c\<lparr>c_lock := c_lock c + 1\<rparr>)"
  by (simp add: creds_get_def rwslock_lock_read_def wp_simps)

lemma wp_creds_get_write [wp_simps]:
  "wp (creds_get_write c) Q \<longleftrightarrow> c_lock c = 0 \<and> Q (c\<lparr>c_lock := RDWR_LOCK_WRITE\<rparr>)"
  by (simp add: creds_get_write_def rwslock_lock_write_def wp_simps)

lemma creds_put_simps [simp]:
  "creds_put c = c\<lparr>c_lock := c_lock c - 1\<rparr>" "creds_put_write c = c\<lparr>c_lock := 0\<rparr>"
  by (simp_all add: creds_put_def creds_put_write_def rwslock_unlock_read_def rwslock_unlock_write_def)

lemma RDWR_LOCK_WRITE_zero [simp]:
  "RDWR_LOCK_WRITE \<noteq> 0" "RDWR_LOCK_WRITE - 1 \<noteq> 0" "0 \<noteq> RDWR_LOCK_WRITE" "0 \<noteq> RDWR_LOCK_WRITE - 1"
  by (simp_all add: RDWR_LOCK_WRITE_def)

text \<open>The credential calls as one type, and a process making any sequence of them.\<close>

datatype cred_call =
    Setuid u32
  | Setgid u32
  | Getuid
  | Getgid
  | Get_uids "uptr \<Rightarrow> bool" uptr uptr uptr
  | Get_gids "uptr \<Rightarrow> bool" uptr uptr uptr
  | Set_uids u32 u32 u32 u32
  | Set_gids u32 u32 u32 u32
  | Setgroups "uptr \<Rightarrow> nat \<Rightarrow> u32 list option" bool bool nat uptr
  | Getgroups "uptr \<Rightarrow> nat \<Rightarrow> bool" int uptr

fun cred_exec :: "cred_call \<Rightarrow> creds \<Rightarrow> creds option" where
  "cred_exec (Setuid u) c = map_option snd (sys_setuid u c)"
| "cred_exec (Setgid g) c = map_option snd (sys_setgid g c)"
| "cred_exec Getuid c = map_option snd (sys_getuid c)"
| "cred_exec Getgid c = map_option snd (sys_getgid c)"
| "cred_exec (Get_uids uw r e s) c = map_option (snd \<circ> snd) (sys_get_uids uw r e s c)"
| "cred_exec (Get_gids uw r e s) c = map_option (snd \<circ> snd) (sys_get_gids uw r e s c)"
| "cred_exec (Set_uids fl r e s) c = map_option snd (sys_set_uids fl r e s c)"
| "cred_exec (Set_gids fl r e s) c = map_option snd (sys_set_gids fl r e s c)"
| "cred_exec (Setgroups ur m1 m2 n p) c = map_option snd (sys_setgroups ur m1 m2 n p c)"
| "cred_exec (Getgroups uw n p) c = map_option (snd \<circ> snd) (sys_getgroups uw n p c)"

definition cred_step :: "creds \<Rightarrow> creds \<Rightarrow> bool" where
  "cred_step c c' \<longleftrightarrow> (\<exists>call. cred_exec call c = Some c')"

definition uids :: "creds \<Rightarrow> u32 set" where "uids c = {ruid c, euid c, suid c}"
definition gids :: "creds \<Rightarrow> u32 set" where "gids c = {rgid c, egid c, sgid c}"

lemmas cred_call_defs = sys_setuid_def sys_setgid_def sys_getuid_def sys_getgid_def sys_get_uids_def
  sys_get_gids_def sys_set_uids_def sys_set_gids_def sys_setgroups_def sys_getgroups_def

text \<open>What one call does: the lock is free again; the uids of a process that is not root only move
  within the uids it has; a group list changes only for root. The exception is the removal of a group list
  that does not exist.\<close>

lemma cred_exec_wp:
  assumes "c_lock c = 0" "\<And>ur m1 m2 n. call = Setgroups ur m1 m2 n 0 \<Longrightarrow> euid c = 0 \<Longrightarrow> groups c \<noteq> None"
  shows "wp (cred_exec call c) (\<lambda>c'. c_lock c' = 0 \<and> (euid c \<noteq> 0 \<longrightarrow> uids c' \<subseteq> uids c \<and> groups c' = groups c))"
proof (cases call)
  case (Setgroups ur m1 m2 n p)
  then show ?thesis
    using assms
    by (auto simp: wp_map cred_call_defs wp_simps Let_def set_groups_def uids_def split: option.splits prod.splits)
next
  case (Getgroups uw n p)
  then show ?thesis
    using assms(1) by (auto simp: wp_map cred_call_defs wp_simps Let_def uids_def split: option.splits prod.splits)
qed (use assms(1) in \<open>auto simp: wp_map cred_call_defs wp_simps Let_def uids_def may_switch_to_uid_def\<close>)

section \<open>Properties\<close>

text \<open>
  C4. No privilege escalation: a process none of whose real, effective and saved user ids is 0 cannot,
  by any sequence of the credential system calls, obtain a user id it does not have (in particular not
  root's), nor change its supplementary groups; and the credential lock is free after each call.
\<close>

theorem cred_no_escalation:
  assumes "rtranclp cred_step c c'" "c_lock c = 0" "0 \<notin> uids c"
  shows "uids c' \<subseteq> uids c \<and> groups c' = groups c \<and> c_lock c' = 0"
  using assms(1)
proof (induction rule: rtranclp_induct)
  case (step d d')
  then obtain call where call: "cred_exec call d = Some d'" by (auto simp: cred_step_def)
  have "euid d \<noteq> 0" using step.IH assms(3) by (auto simp: uids_def)
  then show ?case
    using wp_SomeD [OF cred_exec_wp call] step.IH by auto
qed (use assms in auto)

definition demo_user :: creds where
  "demo_user = kernel_creds\<lparr>ruid := 1000, euid := 1000, suid := 1001, groups := Some [4, 24]\<rparr>"

lemma demo_user_run: "rtranclp cred_step demo_user (demo_user\<lparr>euid := 1001\<rparr>)"
  by (rule r_into_rtranclp, unfold cred_step_def, rule exI [of _ "Setuid 1001"])
    (simp add: sys_setuid_def demo_user_def kernel_creds_def creds_get_write_def rwslock_lock_write_def)

theorem cred_no_escalation_witness:
  "uids (demo_user\<lparr>euid := 1001\<rparr>) \<subseteq> uids demo_user"
  using cred_no_escalation [OF demo_user_run] by (simp add: demo_user_def kernel_creds_def uids_def)





text \<open>
  C7. Supplementary groups round trip: what root sets with \<open>setgroups\<close> is what \<open>cred_is_in_group\<close> answers
  for and what \<open>getgroups\<close> reports, its size for a request of size 0 and its members for a request of
  its size.
\<close>

theorem setgroups_roundtrip:
  assumes "c_lock c = 0" "euid c = 0" "ur p n = Some gs" "length gs = n" "n \<le> INT_MAX" "p \<noteq> 0"
    and "0 < n" "uw q n"
  shows "\<exists>c'. sys_setgroups ur True True n p c = Some (0, c') \<and>
    (\<forall>g. cred_is_in_group c' g \<longleftrightarrow> g \<in> set gs) \<and>
    sys_getgroups uw 0 q c' = Some (int n, None, c') \<and>
    sys_getgroups uw (int n) q c' = Some (0, Some (q, gs), c')"
  using assms
  by (auto simp: sys_setgroups_def sys_getgroups_def set_groups_def get_groups_def cred_is_in_group_def
      creds_get_write_def creds_get_def rwslock_lock_write_def rwslock_lock_read_def list_ex_iff)

theorem setgroups_roundtrip_witness:
  "\<exists>c'. sys_setgroups (\<lambda>p n. Some [10, 20]) True True 2 0x1000 kernel_creds = Some (0, c') \<and>
    (\<forall>g. cred_is_in_group c' g \<longleftrightarrow> g \<in> set [10, 20]) \<and>
    sys_getgroups (\<lambda>p n. True) 0 0x2000 c' = Some (int 2, None, c') \<and>
    sys_getgroups (\<lambda>p n. True) (int 2) 0x2000 c' = Some (0, Some (0x2000, [10, 20]), c')"
  by (rule setgroups_roundtrip) (simp_all add: kernel_creds_def INT_MAX_def)

text \<open>
  C8. Resource limits of a process that is not root: whatever it asks for, no hard limit changes, and if
  every soft limit was at most its hard limit it still is.
\<close>

theorem rlimit_unprivileged:
  assumes "euid c \<noteq> 0" "process_rlimit r want new_lim p c = Some (st, old, p', c')"
  shows "map rlim_max (rlimits p') = map rlim_max (rlimits p) \<and>
    (list_all (\<lambda>l. rlim_cur l \<le> rlim_max l) (rlimits p) \<longrightarrow> list_all (\<lambda>l. rlim_cur l \<le> rlim_max l) (rlimits p'))"
proof (cases "new_lim")
  case None
  then show ?thesis using assms by (auto simp: process_rlimit_def bind_eq_Some_conv)
next
  case (Some l)
  have keep: "list_all (\<lambda>l. rlim_cur l \<le> rlim_max l) (ls[r := x])"
    if "rlim_cur x \<le> rlim_max x" "list_all (\<lambda>l. rlim_cur l \<le> rlim_max l) ls" for x and ls :: "rlim list"
    using that by (cases "r < length ls") (auto simp: list_all_length nth_list_update)
  have "map rlim_max (ls[r := x]) = map rlim_max ls" if "rlim_max x = rlim_max (ls ! r)" for x and ls :: "rlim list"
    using that by (simp add: map_update) (metis length_map list_update_beyond list_update_id not_le nth_map)
  then show ?thesis
    using assms Some keep
    by (auto simp: process_rlimit_def bind_eq_Some_conv is_root_user_def creds_get_def array_get_def array_set_def
        Let_def not_less split: if_splits)
qed

definition demo_limits :: rlimset where
  "demo_limits = \<lparr>rlimit_lock = 0, rlimits = replicate 17 \<lparr>rlim_cur = 5, rlim_max = 10\<rparr>\<rparr>"

theorem rlimit_unprivileged_witness:
  "map rlim_max (rlimits (demo_limits\<lparr>rlimits := (rlimits demo_limits)[3 := \<lparr>rlim_cur = 8, rlim_max = 10\<rparr>]\<rparr>)) =
     map rlim_max (rlimits demo_limits) \<and> euid demo_user \<noteq> 0"
  using rlimit_unprivileged [of demo_user 3 False "Some \<lparr>rlim_cur = 8, rlim_max = 10\<rparr>" demo_limits 0 None
      "demo_limits\<lparr>rlimits := (rlimits demo_limits)[3 := \<lparr>rlim_cur = 8, rlim_max = 10\<rparr>]\<rparr>" demo_user]
  by (simp add: demo_user_def kernel_creds_def demo_limits_def process_rlimit_def rwslock_lock_write_def
      rwslock_unlock_write_def is_root_user_def creds_get_def rwslock_lock_read_def)

end
