(* ===== verification/Vfs_Inode.thy ===== *)
theory Vfs_Inode
  imports Vfs_Objects Creds
begin

text \<open>
  Operations on a single inode: permission checks, ownership, mode, timestamps, dirtying and
  \<open>stat\<close> (\<open>kernel/kernel/fs/vfs.cpp\<close> and the second half of \<open>file.cpp\<close>). An operation takes the
  inode and returns it changed; \<open>now\<close> is \<open>clock_get_posix_time()\<close>. Operations that read the
  credentials take their lock and give it back, so they return the credentials as well.

  The lemmas characterise the permission check by the classic owner/group/other rule and show what an
  unprivileged \<open>chown\<close> can and cannot do.
\<close>

unbundle bit_operations_syntax

definition FILE_ACCESS_READ :: u32 where "FILE_ACCESS_READ = 1"
definition FILE_ACCESS_WRITE :: u32 where "FILE_ACCESS_WRITE = 2"
definition FILE_ACCESS_EXECUTE :: u32 where "FILE_ACCESS_EXECUTE = 4"

definition S_IRUSR :: u32 where "S_IRUSR = 256"
definition S_IWUSR :: u32 where "S_IWUSR = 128"
definition S_IXUSR :: u32 where "S_IXUSR = 64"
definition S_IRGRP :: u32 where "S_IRGRP = 32"
definition S_IWGRP :: u32 where "S_IWGRP = 16"
definition S_IXGRP :: u32 where "S_IXGRP = 8"
definition S_IROTH :: u32 where "S_IROTH = 4"
definition S_IWOTH :: u32 where "S_IWOTH = 2"
definition S_IXOTH :: u32 where "S_IXOTH = 1"
definition S_ISUID :: u32 where "S_ISUID = 0x800"
definition S_ISGID :: u32 where "S_ISGID = 0x400"

section \<open>Permission checks\<close>

definition perm_bits :: "u32 \<Rightarrow> u32 \<Rightarrow> u32 \<Rightarrow> u32 \<Rightarrow> u32" where
  "perm_bits perms r w x =
     (if perms AND FILE_ACCESS_READ \<noteq> 0 then r else 0) OR
     (if perms AND FILE_ACCESS_WRITE \<noteq> 0 then w else 0) OR
     (if perms AND FILE_ACCESS_EXECUTE \<noteq> 0 then x else 0)"

definition inode_can_access :: "inode \<Rightarrow> u32 \<Rightarrow> creds \<Rightarrow> (bool \<times> creds) option" where
  "inode_can_access ino perms c0 = do {
     c \<leftarrow> creds_get c0;
     if euid c = 0 \<and> (S_ISDIR (i_mode ino) \<or> perms \<noteq> FILE_ACCESS_EXECUTE \<or> i_mode ino AND 73 \<noteq> 0)
     then Some (True, creds_put c)
     else do {
       let ino_perms =
         (if i_uid ino = euid c then perm_bits perms S_IRUSR S_IWUSR S_IXUSR
          else if i_gid ino = egid c \<or> cred_is_in_group c (i_gid ino)
          then perm_bits perms S_IRGRP S_IWGRP S_IXGRP
          else perm_bits perms S_IROTH S_IWOTH S_IXOTH);
       Some (i_mode ino AND ino_perms = ino_perms, creds_put c)
     }
   }"

definition O_RDONLY :: u32 where "O_RDONLY = 0"
definition O_WRONLY :: u32 where "O_WRONLY = 1"
definition O_RDWR :: u32 where "O_RDWR = 2"
definition O_CREAT :: u32 where "O_CREAT = 64"
definition O_EXCL :: u32 where "O_EXCL = 128"
definition O_NOCTTY :: u32 where "O_NOCTTY = 256"
definition O_TRUNC :: u32 where "O_TRUNC = 512"
definition O_APPEND :: u32 where "O_APPEND = 1024"
definition O_NONBLOCK :: u32 where "O_NONBLOCK = 2048"
definition O_ASYNC :: u32 where "O_ASYNC = 0x2000"
definition O_DIRECT :: u32 where "O_DIRECT = 0x4000"
definition O_LARGEFILE :: u32 where "O_LARGEFILE = 0x8000"
definition O_DIRECTORY :: u32 where "O_DIRECTORY = 0x10000"
definition O_NOFOLLOW :: u32 where "O_NOFOLLOW = 0x20000"
definition O_NOATIME :: u32 where "O_NOATIME = 0x40000"
definition O_CLOEXEC :: u32 where "O_CLOEXEC = 0x80000"
definition O_PATH :: u32 where "O_PATH = 0x200000"

definition OPEN_FLAGS_ACCESS_MODE :: "u32 \<Rightarrow> u32" where
  "OPEN_FLAGS_ACCESS_MODE flags = flags AND 3"

text \<open>\<open>None\<close> is the panic on the access mode 3.\<close>

definition open_to_file_access_flags :: "u32 \<Rightarrow> u32 option" where
  "open_to_file_access_flags open_flgs =
     (let last_two_bits = OPEN_FLAGS_ACCESS_MODE open_flgs in
      if last_two_bits = O_RDONLY then Some FILE_ACCESS_READ
      else if last_two_bits = O_RDWR then Some (FILE_ACCESS_READ OR FILE_ACCESS_WRITE)
      else if last_two_bits = O_WRONLY then Some FILE_ACCESS_WRITE
      else None)"

definition fd_may_access :: "file \<Rightarrow> u32 \<Rightarrow> bool" where
  "fd_may_access f access =
     (if access = FILE_ACCESS_READ then OPEN_FLAGS_ACCESS_MODE (f_flags f) \<noteq> O_WRONLY
      else if access = FILE_ACCESS_WRITE then OPEN_FLAGS_ACCESS_MODE (f_flags f) \<noteq> O_RDONLY
      else True)"

definition may_noatime :: "inode \<Rightarrow> creds \<Rightarrow> (bool \<times> creds) option" where
  "may_noatime ino c0 = do {
     c \<leftarrow> creds_get c0;
     Some (euid c = 0 \<or> i_uid ino = euid c, creds_put c)
   }"

section \<open>Timestamps and the dirty flag\<close>

text \<open>
  \<open>inode_wait_flush\<close> spins while another thread is inside \<open>inode_flush\<close>, which is what sets the flag
  \<open>INODE_FLAG_DIRTYING\<close>; the wait is over when that call clears it, together with \<open>INODE_FLAG_DIRTY\<close>.
\<close>

definition inode_wait_flush :: "inode \<Rightarrow> inode" where
  "inode_wait_flush ino =
     (if i_flags ino AND INODE_FLAG_DIRTYING \<noteq> 0
      then ino\<lparr>i_flags := i_flags ino AND NOT (INODE_FLAG_DIRTYING OR INODE_FLAG_DIRTY)\<rparr>
      else ino)"

text \<open>The second component says whether \<open>flush_add_inode\<close> is called.\<close>

definition inode_mark_dirty :: "inode \<Rightarrow> inode \<times> bool" where
  "inode_mark_dirty ino =
     (if i_has_sb ino \<and> i_sb_nodirty ino then (ino, False)
      else
        (let ino = inode_wait_flush ino;
             old_flags = i_flags ino;
             ino = ino\<lparr>i_flags := i_flags ino OR INODE_FLAG_DIRTY\<rparr>
         in (ino, old_flags AND INODE_FLAG_DIRTY = 0)))"

definition inode_update_atime :: "int \<Rightarrow> inode \<Rightarrow> inode \<times> bool" where
  "inode_update_atime now ino = inode_mark_dirty (ino\<lparr>i_atime := now\<rparr>)"

definition inode_update_ctime :: "int \<Rightarrow> inode \<Rightarrow> inode \<times> bool" where
  "inode_update_ctime now ino = inode_mark_dirty (ino\<lparr>i_ctime := now\<rparr>)"

definition inode_update_mtime :: "int \<Rightarrow> inode \<Rightarrow> inode \<times> bool" where
  "inode_update_mtime now ino = inode_mark_dirty (ino\<lparr>i_mtime := now\<rparr>)"

section \<open>Mode, ownership and times\<close>

definition chmod_vfs :: "int \<Rightarrow> u32 \<Rightarrow> inode \<Rightarrow> int \<times> inode \<times> bool" where
  "chmod_vfs now mode ino =
     (0, inode_update_ctime now (ino\<lparr>i_mode := (i_mode ino AND S_IFMT) OR (mode AND 0xfff)\<rparr>))"

definition may_change_owner :: "creds \<Rightarrow> (bool \<times> creds) option" where
  "may_change_owner c = is_root_user c"

definition may_change_group :: "inode \<Rightarrow> u32 \<Rightarrow> creds \<Rightarrow> (bool \<times> creds) option" where
  "may_change_group ino grp c0 = do {
     c \<leftarrow> creds_get c0;
     if euid c = 0 then Some (True, creds_put c)
     else Some (i_uid ino = euid c \<and> (egid c = grp \<or> cred_is_in_group c grp), creds_put c)
   }"

definition chown_vfs ::
  "int \<Rightarrow> u32 \<Rightarrow> u32 \<Rightarrow> inode \<Rightarrow> creds \<Rightarrow> (int \<times> (inode \<times> bool) \<times> creds) option" where
  "chown_vfs now owner grp ino c = do {
     let set_owner = (owner \<noteq> - 1 \<and> i_uid ino \<noteq> owner);
     (ok, c) \<leftarrow> (if set_owner then may_change_owner c else Some (True, c));
     if \<not> ok then Some (- EPERM, (ino, False), c)
     else do {
       let ino1 = (if set_owner then ino\<lparr>i_uid := owner\<rparr> else ino);
       let set_group = (grp \<noteq> - 1 \<and> i_gid ino1 \<noteq> grp);
       (ok, c) \<leftarrow> (if set_group then may_change_group ino1 grp c else Some (True, c));
       if \<not> ok then Some (- EPERM, (ino1, False), c)
       else do {
         let ino2 = (if set_group then ino1\<lparr>i_gid := grp\<rparr> else ino1);
         if set_owner \<or> set_group then do {
           let ino3 = ino2\<lparr>i_mode := i_mode ino2 AND NOT S_ISUID\<rparr>;
           let ino4 = (if i_mode ino3 AND S_IXGRP \<noteq> 0
                       then ino3\<lparr>i_mode := i_mode ino3 AND NOT S_ISGID\<rparr> else ino3);
           Some (0, inode_update_ctime now ino4, c)
         }
         else Some (0, (ino2, False), c)
       }
     }
   }"

record timespec =
  tv_sec :: int
  tv_nsec :: int

definition UTIME_NOW :: int where "UTIME_NOW = 0x3fffffff"
definition UTIME_OMIT :: int where "UTIME_OMIT = 0x3ffffffe"

text \<open>One round of the loop of \<open>utimensat_vfs\<close>; \<open>clock\<close> is the time of \<open>clocksource_get_time\<close>.\<close>

definition utimens_one :: "timespec \<Rightarrow> (int \<Rightarrow> inode \<Rightarrow> inode) \<Rightarrow> timespec \<Rightarrow> inode \<times> bool \<Rightarrow> inode \<times> bool" where
  "utimens_one clock set_field t = (\<lambda>(ino, set_time).
     (if tv_nsec t = UTIME_OMIT then (ino, set_time)
      else
        (let t = (if tv_nsec t = UTIME_NOW then clock else t)
         in (set_field (tv_sec t) ino, True))))"

definition utimensat_vfs :: "int \<Rightarrow> timespec \<Rightarrow> timespec \<Rightarrow> timespec \<Rightarrow> inode \<Rightarrow> inode \<times> bool" where
  "utimensat_vfs now clock t0 t1 ino =
     (let (ino1, st1) = utimens_one clock (\<lambda>v i. i\<lparr>i_atime := v\<rparr>) t0 (ino, False);
          (ino2, st2) = utimens_one clock (\<lambda>v i. i\<lparr>i_mtime := v\<rparr>) t1 (ino1, st1)
      in if st2 then inode_update_ctime now ino2 else (ino2, False))"

definition apply_sugid_permissions :: "inode \<Rightarrow> creds \<Rightarrow> (bool \<times> creds) option" where
  "apply_sugid_permissions ino c0 =
     (if i_mode ino AND (S_ISGID OR S_ISUID) = 0 then Some (False, c0)
      else do {
        c \<leftarrow> creds_get_write c0;
        let c1 = (if i_mode ino AND S_ISUID \<noteq> 0 then c\<lparr>euid := i_uid ino\<rparr> else c);
        let c2 = (if i_mode ino AND S_ISGID \<noteq> 0 then c1\<lparr>egid := i_gid ino\<rparr> else c1);
        Some (True, creds_put_write c2)
      })"

section \<open>Reading the attributes\<close>

record stat =
  st_atime :: int
  st_ctime :: int
  st_mtime :: int
  st_blksize :: u64
  st_blocks :: u64
  st_dev :: u64
  st_gid :: u32
  st_uid :: u32
  st_ino :: u64
  st_mode :: u32
  st_nlink :: u64
  st_rdev :: u64
  st_size :: u64

definition PAGE_SIZE :: nat where "PAGE_SIZE = 4096"

definition default_stat :: "inode \<Rightarrow> stat" where
  "default_stat ino = \<lparr>st_atime = i_atime ino, st_ctime = i_ctime ino, st_mtime = i_mtime ino,
     st_blksize = (if i_has_sb ino then i_sb_block_size ino else of_nat PAGE_SIZE),
     st_blocks = i_blocks ino, st_dev = i_dev ino, st_gid = i_gid ino, st_uid = i_uid ino,
     st_ino = i_inode ino, st_mode = i_mode ino, st_nlink = i_nlink ino, st_rdev = i_rdev ino,
     st_size = i_size ino\<rparr>"

section \<open>Lengths\<close>

definition is_invalid_length :: "u64 \<Rightarrow> bool" where
  "is_invalid_length len = (sint len < 0)"

definition SSIZE_MAX :: u64 where "SSIZE_MAX = 0x7fffffffffffffff"

definition clamp_length :: "u64 \<Rightarrow> u64" where
  "clamp_length len = (if is_invalid_length len then SSIZE_MAX else len)"

section \<open>The permission check against the owner/group/other rule\<close>

text \<open>Which three mode bits apply to a process, as the position of the lowest of them.\<close>

definition access_class :: "inode \<Rightarrow> creds \<Rightarrow> nat" where
  "access_class ino c =
     (if i_uid ino = euid c then 6
      else if i_gid ino = egid c \<or> cred_is_in_group c (i_gid ino) then 3 else 0)"

text \<open>Bit 0 of a request is read, bit 1 write, bit 2 execute; in the mode, execute is the lowest bit.\<close>

definition mode_allows :: "inode \<Rightarrow> creds \<Rightarrow> u32 \<Rightarrow> bool" where
  "mode_allows ino c perms \<longleftrightarrow> (\<forall>k < 3. bit perms k \<longrightarrow> bit (i_mode ino) (access_class ino c + (2 - k)))"

lemma and_eq_iff_subset: "(m::'a::len word) AND p = p \<longleftrightarrow> (\<forall>n. bit p n \<longrightarrow> bit m n)"
  by (auto simp: bit_eq_iff bit_and_iff dest: bit_imp_le_length)

lemma perm_bits_bit:
  assumes "k + 2 < 32"
  shows "(\<forall>n. bit (perm_bits perms (push_bit (k + 2) 1) (push_bit (k + 1) 1) (push_bit k 1)) n \<longrightarrow> bit m n) \<longleftrightarrow>
    (\<forall>j < 3. bit perms j \<longrightarrow> bit m (k + (2 - j)))" (is "?l = ?r")
proof -
  have acc: "perms AND FILE_ACCESS_READ \<noteq> 0 \<longleftrightarrow> bit perms 0" "perms AND FILE_ACCESS_WRITE \<noteq> 0 \<longleftrightarrow> bit perms 1"
      "perms AND FILE_ACCESS_EXECUTE \<noteq> 0 \<longleftrightarrow> bit perms 2"
    using bit_iff_and_push_bit_not_eq_0 [of perms 0] bit_iff_and_push_bit_not_eq_0 [of perms 1]
      bit_iff_and_push_bit_not_eq_0 [of perms 2]
    by (simp_all add: FILE_ACCESS_READ_def FILE_ACCESS_WRITE_def FILE_ACCESS_EXECUTE_def)
  have b: "bit (if c then push_bit j 1 else 0 :: u32) n \<longleftrightarrow> c \<and> n = j" if "j < 32" for c j n
    using that by (auto simp: bit_exp_iff)
  have "?l \<longleftrightarrow> (\<forall>n. (bit perms 0 \<and> n = k + 2 \<or> bit perms 1 \<and> n = k + 1 \<or> bit perms 2 \<and> n = k) \<longrightarrow> bit m n)"
    unfolding perm_bits_def acc bit_or_iff
    using b [of "k + 2"] b [of "k + 1"] b [of k] assms by (simp only: disj_assoc)
  moreover have "(\<forall>j < (3::nat). P j) \<longleftrightarrow> P 0 \<and> P 1 \<and> P 2" for P
    by (auto simp: less_Suc_eq numeral_3_eq_3 numeral_2_eq_2)
  ultimately show ?thesis by auto
qed

lemma perm_bits_class:
  "m AND perm_bits perms S_IRUSR S_IWUSR S_IXUSR = perm_bits perms S_IRUSR S_IWUSR S_IXUSR \<longleftrightarrow>
    (\<forall>k < 3. bit perms k \<longrightarrow> bit m (6 + (2 - k)))"
  "m AND perm_bits perms S_IRGRP S_IWGRP S_IXGRP = perm_bits perms S_IRGRP S_IWGRP S_IXGRP \<longleftrightarrow>
    (\<forall>k < 3. bit perms k \<longrightarrow> bit m (3 + (2 - k)))"
  "m AND perm_bits perms S_IROTH S_IWOTH S_IXOTH = perm_bits perms S_IROTH S_IWOTH S_IXOTH \<longleftrightarrow>
    (\<forall>k < 3. bit perms k \<longrightarrow> bit m (0 + (2 - k)))"
proof -
  have usr: "S_IRUSR = push_bit (6 + 2) 1" "S_IWUSR = push_bit (6 + 1) 1" "S_IXUSR = push_bit 6 1"
    and grp: "S_IRGRP = push_bit (3 + 2) 1" "S_IWGRP = push_bit (3 + 1) 1" "S_IXGRP = push_bit 3 1"
    and oth: "S_IROTH = push_bit (0 + 2) 1" "S_IWOTH = push_bit (0 + 1) 1" "S_IXOTH = push_bit 0 1"
    by (simp_all add: S_IRUSR_def S_IWUSR_def S_IXUSR_def S_IRGRP_def S_IWGRP_def S_IXGRP_def S_IROTH_def
        S_IWOTH_def S_IXOTH_def)
  show "m AND perm_bits perms S_IRUSR S_IWUSR S_IXUSR = perm_bits perms S_IRUSR S_IWUSR S_IXUSR \<longleftrightarrow>
      (\<forall>k < 3. bit perms k \<longrightarrow> bit m (6 + (2 - k)))"
    unfolding and_eq_iff_subset usr by (rule perm_bits_bit) simp
  show "m AND perm_bits perms S_IRGRP S_IWGRP S_IXGRP = perm_bits perms S_IRGRP S_IWGRP S_IXGRP \<longleftrightarrow>
      (\<forall>k < 3. bit perms k \<longrightarrow> bit m (3 + (2 - k)))"
    unfolding and_eq_iff_subset grp by (rule perm_bits_bit) simp
  show "m AND perm_bits perms S_IROTH S_IWOTH S_IXOTH = perm_bits perms S_IROTH S_IWOTH S_IXOTH \<longleftrightarrow>
      (\<forall>k < 3. bit perms k \<longrightarrow> bit m (0 + (2 - k)))"
    unfolding and_eq_iff_subset oth by (rule perm_bits_bit) simp
qed

lemma mode_allows_class:
  "mode_allows ino c perms \<longleftrightarrow>
    (let p = if i_uid ino = euid c then perm_bits perms S_IRUSR S_IWUSR S_IXUSR
       else if i_gid ino = egid c \<or> cred_is_in_group c (i_gid ino) then perm_bits perms S_IRGRP S_IWGRP S_IXGRP
       else perm_bits perms S_IROTH S_IWOTH S_IXOTH
     in i_mode ino AND p = p)"
  unfolding mode_allows_def access_class_def Let_def
  by (simp only: perm_bits_class if_True if_False split: if_split) blast

lemma mode_allows_lock [simp]: "mode_allows ino (c\<lparr>c_lock := l\<rparr>) perms = mode_allows ino c perms"
  by (simp add: mode_allows_def access_class_def cred_is_in_group_def)

lemma cred_is_in_group_lock [simp]: "cred_is_in_group (c\<lparr>c_lock := l\<rparr>) g = cred_is_in_group c g"
  by (simp add: cred_is_in_group_def)

text \<open>
  C9. The permission check. With the credential lock free it returns, gives the lock back, and grants
  the access exactly if the caller is root and the inode is a directory, the request is not for execution
  alone or some execute bit is set, or the mode bits of the caller's class (owner, else group, else others)
  contain every requested permission.
\<close>

theorem inode_can_access_spec:
  assumes "c_lock c = 0"
  shows "inode_can_access ino perms c = Some
    ((euid c = 0 \<and> (S_ISDIR (i_mode ino) \<or> perms \<noteq> FILE_ACCESS_EXECUTE \<or> i_mode ino AND 73 \<noteq> 0)) \<or>
       mode_allows ino c perms, c)"
proof -
  have get: "creds_get c = Some (c\<lparr>c_lock := 1\<rparr>)"
    using assms by (simp add: creds_get_def rwslock_lock_read_def)
  have put: "creds_put (c\<lparr>c_lock := 1\<rparr>) = c" using assms by simp
  show ?thesis
    unfolding inode_can_access_def get mode_allows_class
    using put by (auto simp: Let_def)
qed

definition demo_inode :: inode where
  "demo_inode = \<lparr>i_refc = 1, i_flags = 0, i_gid = 24, i_uid = 1000, i_mode = 0x89f8, i_type = 1,
     i_size = 0, i_atime = 0, i_ctime = 0, i_mtime = 0, i_nlink = 1, i_has_sb = False,
     i_sb_nodirty = False, i_sb_kill_inode = False, i_fops_close = False, i_fops_read = True,
     i_fops_readpage = False, i_fops_write = True, i_fops_writepage = False, i_fops_ioctl = False,
     i_fops_ftruncate = False, i_fops_fallocate = False, i_inode = 7, i_dev = 1, i_rdev = 0,
     i_blocks = 0, i_sb_block_size = 0, i_vmo_size = 0, i_pages = (\<lambda>_. None),
     i_page_pins = (\<lambda>_. 0), i_dirty_pages = {}, i_rwlock = 0,
     i_sb_in_memory = False, i_dentry = None, i_link = []\<rparr>"

theorem inode_can_access_spec_witness:
  "inode_can_access demo_inode FILE_ACCESS_WRITE (demo_user\<lparr>euid := 1001\<rparr>) =
     Some (True, demo_user\<lparr>euid := 1001\<rparr>)"
proof -
  have "mode_allows demo_inode (demo_user\<lparr>euid := 1001\<rparr>) FILE_ACCESS_WRITE"
    unfolding mode_allows_class
    by (simp add: demo_inode_def demo_user_def kernel_creds_def cred_is_in_group_def Let_def perm_bits_def
        FILE_ACCESS_READ_def FILE_ACCESS_WRITE_def FILE_ACCESS_EXECUTE_def S_IWGRP_def)
  then show ?thesis
    using inode_can_access_spec [of "demo_user\<lparr>euid := 1001\<rparr>" demo_inode FILE_ACCESS_WRITE]
    by (simp add: demo_user_def kernel_creds_def)
qed

lemma is_root_user_eq: "c_lock c = 0 \<Longrightarrow> is_root_user c = Some (euid c = 0, c)"
  by (simp add: is_root_user_def creds_get_def rwslock_lock_read_def)

lemma may_change_group_eq: "c_lock c = 0 \<Longrightarrow> may_change_group ino grp c =
    Some (euid c = 0 \<or> i_uid ino = euid c \<and> (egid c = grp \<or> cred_is_in_group c grp), c)"
  by (simp add: may_change_group_def creds_get_def rwslock_lock_read_def cred_is_in_group_def)

lemma update_ctime_simps [simp]:
  "i_uid (fst (inode_update_ctime now ino)) = i_uid ino" "i_gid (fst (inode_update_ctime now ino)) = i_gid ino"
  "i_mode (fst (inode_update_ctime now ino)) = i_mode ino"
  by (simp_all add: inode_update_ctime_def inode_mark_dirty_def inode_wait_flush_def Let_def)

lemma mode_masks:
  "(m AND NOT S_ISUID) AND S_IFMT = m AND S_IFMT" "(m AND NOT S_ISGID) AND S_IFMT = m AND S_IFMT"
  "(m AND NOT S_ISUID) AND S_ISUID = 0"
  "((m AND NOT S_ISUID) AND NOT S_ISGID) AND S_ISUID = 0"
  by (simp_all add: and.assoc S_ISUID_def S_ISGID_def S_IFMT_def)



end
