(* ===== verification/Page_Cache.thy ===== *)
theory Page_Cache
  imports Vfs_Inode
begin

text \<open>
  Reads and writes through the page cache: \<open>inode_get_cache_block\<close>, \<open>file_read_cache\<close> and
  \<open>file_write_cache\<close> of \<open>kernel/kernel/fs/inode.cpp\<close>, \<open>vmo_inode_commit\<close> of \<open>vfs.cpp\<close>, and what they use of
  \<open>mm/vm_object.cpp\<close>. Offsets are natural numbers: a range whose end does not fit \<open>size_t\<close> is outside the
  model, and the one subtraction the code lets wrap is written out. The file system behind the cache (\<open>readpage\<close>, \<open>prepare_write\<close>) and the success of
  allocations are the parameter \<open>penv\<close>. User memory is a map from addresses
  to bytes; a copy stops at the first byte that is not mapped.

  The lemmas show that a file read and written through the cache behaves like an array of bytes.
\<close>

unbundle bit_operations_syntax

section \<open>User memory\<close>

type_synonym umem = "nat \<rightharpoonup> u8"

fun copy_to_user :: "nat \<Rightarrow> u8 list \<Rightarrow> umem \<Rightarrow> int \<times> umem" where
  "copy_to_user a [] m = (0, m)"
| "copy_to_user a (b # bs) m =
     (if m a = None then (- EFAULT, m) else copy_to_user (Suc a) bs (m(a \<mapsto> b)))"

text \<open>The bytes that were copied come back together with the result.\<close>

fun copy_from_user :: "nat \<Rightarrow> nat \<Rightarrow> umem \<Rightarrow> int \<times> u8 list" where
  "copy_from_user a 0 m = (0, [])"
| "copy_from_user a (Suc n) m =
     (case m a of
        None \<Rightarrow> (- EFAULT, [])
      | Some b \<Rightarrow> (let (st, bs) = copy_from_user (Suc a) n m in (st, b # bs)))"

section \<open>Pages\<close>

record penv =
  pe_page_ok :: "inode \<Rightarrow> nat \<Rightarrow> bool"
  pe_block_ok :: "inode \<Rightarrow> nat \<Rightarrow> bool"
  pe_tree_ok :: "inode \<Rightarrow> nat \<Rightarrow> bool"
  pe_readpage :: "nat \<Rightarrow> inode \<Rightarrow> int \<times> u8 list"
  pe_prepare_write :: "inode \<Rightarrow> nat \<Rightarrow> nat \<Rightarrow> nat \<Rightarrow> int"
  pe_errno :: int

datatype vmo_status = VMO_STATUS_OK | VMO_STATUS_BUS_ERROR | VMO_STATUS_OUT_OF_MEM | VMO_STATUS_NON_EXISTENT

definition vmo_status_to_errno :: "vmo_status \<Rightarrow> int" where
  "vmo_status_to_errno st =
     (case st of VMO_STATUS_OK \<Rightarrow> 0 | VMO_STATUS_BUS_ERROR \<Rightarrow> EIO
      | VMO_STATUS_OUT_OF_MEM \<Rightarrow> ENOMEM | _ \<Rightarrow> EIO)"

definition i_len :: "inode \<Rightarrow> nat" where "i_len ino = unat (i_size ino)"

definition align_up2 :: "nat \<Rightarrow> nat" where
  "align_up2 n = (n + (PAGE_SIZE - 1)) div PAGE_SIZE * PAGE_SIZE"

definition page_pin :: "nat \<Rightarrow> inode \<Rightarrow> inode" where
  "page_pin off ino = ino\<lparr>i_page_pins := (i_page_pins ino)(off := i_page_pins ino off + 1)\<rparr>"

definition page_unpin :: "nat \<Rightarrow> inode \<Rightarrow> inode" where
  "page_unpin off ino = ino\<lparr>i_page_pins := (i_page_pins ino)(off := i_page_pins ino off - 1)\<rparr>"

definition zero_rest_of_page :: "nat \<Rightarrow> u8 list \<Rightarrow> u8 list" where
  "zero_rest_of_page to_read page = take to_read page @ replicate (PAGE_SIZE - to_read) 0"

text \<open>\<open>vmo_inode_commit\<close>: the page's bytes, or why there are none; \<open>None\<close> if \<open>readpage\<close> is missing.\<close>

definition vmo_inode_commit :: "penv \<Rightarrow> nat \<Rightarrow> inode \<Rightarrow> (vmo_status + u8 list) option" where
  "vmo_inode_commit E off i =
     (if \<not> pe_page_ok E i off then Some (Inl VMO_STATUS_OUT_OF_MEM)
      else if \<not> i_fops_readpage i then None
      else
        (let rest = (i_len i + 2 ^ 64 - off) mod 2 ^ 64;
             to_read = (if rest < PAGE_SIZE then rest else PAGE_SIZE);
             (n, page) = pe_readpage E off i
         in if n < int to_read then Some (Inl VMO_STATUS_BUS_ERROR)
            else if \<not> pe_block_ok E i off then Some (Inl VMO_STATUS_OUT_OF_MEM)
            else Some (Inr (zero_rest_of_page to_read page))))"

definition vmo_populate :: "penv \<Rightarrow> nat \<Rightarrow> inode \<Rightarrow> (vmo_status \<times> inode) option" where
  "vmo_populate E off i = do {
     r \<leftarrow> vmo_inode_commit E off i;
     case r of
       Inl st \<Rightarrow> Some (st, i)
     | Inr page \<Rightarrow>
         if \<not> pe_tree_ok E i off then Some (VMO_STATUS_OUT_OF_MEM, i)
         else Some (VMO_STATUS_OK, i\<lparr>i_pages := (i_pages i)(off \<mapsto> page)\<rparr>)
   }"

text \<open>\<open>vmo_get\<close> with \<open>VMO_GET_MAY_POPULATE\<close>, on an object that is not a copy-on-write clone.\<close>

definition vmo_get :: "penv \<Rightarrow> nat \<Rightarrow> inode \<Rightarrow> (vmo_status \<times> inode) option" where
  "vmo_get E off i =
     (if i_vmo_size i \<le> off then Some (VMO_STATUS_BUS_ERROR, i)
      else do {
        (st, i') \<leftarrow> (if i_pages i off \<noteq> None then Some (VMO_STATUS_OK, i) else vmo_populate E off i);
        if st = VMO_STATUS_OK then Some (st, page_pin off i') else Some (st, i')
      })"

definition splice :: "nat \<Rightarrow> u8 list \<Rightarrow> u8 list \<Rightarrow> u8 list" where
  "splice off bs page = take off page @ bs @ drop (off + length bs) page"

definition is_included :: "nat \<Rightarrow> nat \<Rightarrow> nat \<Rightarrow> bool" where
  "is_included lower upper x = (lower \<le> x \<and> x < upper)"

definition is_excluded :: "nat \<Rightarrow> nat \<Rightarrow> nat \<Rightarrow> bool" where
  "is_excluded lower upper x = (x < lower \<or> upper < x)"

text \<open>
  \<open>vmo_purge_pages\<close> with \<open>PURGE_SHOULD_FREE\<close> on the object behind an inode: the loop visits every page of the tree
  and removes those the comparison selects; a page that goes is written back first if it is dirty
  (\<open>inode_free_page\<close>), so it is dirty no more.
\<close>

definition vmo_purge_pages :: "nat \<Rightarrow> nat \<Rightarrow> bool \<Rightarrow> inode \<Rightarrow> inode" where
  "vmo_purge_pages lower upper exclusive ino =
     (let cmp = (if exclusive then is_excluded else is_included)
      in ino\<lparr>i_pages := (\<lambda>off. if cmp lower upper off then None else i_pages ino off),
           i_dirty_pages := {off \<in> i_dirty_pages ino. \<not> cmp lower upper off}\<rparr>)"

definition vmo_truncate :: "nat \<Rightarrow> bool \<Rightarrow> inode \<Rightarrow> int \<times> inode" where
  "vmo_truncate original_size dont_punch ino =
     (let sz = align_up2 original_size;
          ino1 = (if \<not> dont_punch \<and> sz < i_vmo_size ino
                  then vmo_purge_pages sz (sz + (i_vmo_size ino - sz)) False ino else ino);
          last_page_off = original_size - original_size mod PAGE_SIZE;
          ino2 = (case i_pages ino1 last_page_off of
                    None \<Rightarrow> ino1
                  | Some page \<Rightarrow> ino1\<lparr>i_pages := (i_pages ino1)(last_page_off \<mapsto>
                      splice (original_size mod PAGE_SIZE) (replicate (sz - original_size) 0) page)\<rparr>)
      in (0, ino2\<lparr>i_vmo_size := sz\<rparr>))"

text \<open>Adding a page to the tree fails if there already is one at that offset.\<close>

definition vmo_add_page :: "penv \<Rightarrow> nat \<Rightarrow> u8 list \<Rightarrow> inode \<Rightarrow> int \<times> inode" where
  "vmo_add_page E off page i =
     (if i_pages i off \<noteq> None \<or> \<not> pe_tree_ok E i off then (- 1, i)
      else (0, i\<lparr>i_pages := (i_pages i)(off \<mapsto> page)\<rparr>))"

text \<open>\<open>Inl\<close> carries what \<open>errno\<close> holds when a null pointer is returned; some of those paths do not set it.\<close>

definition inode_get_cache_block :: "penv \<Rightarrow> nat \<Rightarrow> bool \<Rightarrow> inode \<Rightarrow> ((int + unit) \<times> inode) option" where
  "inode_get_cache_block E off write ino =
     (if write \<and> i_vmo_size ino \<le> off then
        (if off mod PAGE_SIZE \<noteq> 0 then None
         else
           (let ino1 = snd (vmo_truncate (align_up2 (off + 1)) False ino)
            in if i_vmo_size ino1 \<le> off then None
               else if \<not> pe_page_ok E ino1 off then Some (Inl (pe_errno E), ino1)
               else if \<not> pe_block_ok E ino1 off then Some (Inl (pe_errno E), ino1)
               else
                 (let (st, ino2) = vmo_add_page E off (replicate PAGE_SIZE 0) ino1
                  in if st < 0 then Some (Inl (pe_errno E), ino2)
                     else Some (Inr (), page_pin off ino2))))
      else do {
        (st, ino1) \<leftarrow> vmo_get E off ino;
        if st \<noteq> VMO_STATUS_OK then Some (Inl (vmo_status_to_errno st), ino1)
        else Some (Inr (), ino1)
      })"

definition inode_get_page :: "penv \<Rightarrow> nat \<Rightarrow> bool \<Rightarrow> inode \<Rightarrow> ((int + unit) \<times> inode) option" where
  "inode_get_page E offset write ino = inode_get_cache_block E (offset - offset mod PAGE_SIZE) write ino"

definition pagecache_dirty_block :: "nat \<Rightarrow> inode \<Rightarrow> inode" where
  "pagecache_dirty_block off ino =
     (if i_has_sb ino \<and> i_sb_nodirty ino then ino
      else ino\<lparr>i_dirty_pages := insert off (i_dirty_pages ino)\<rparr>)"

definition inode_set_size :: "nat \<Rightarrow> inode \<Rightarrow> inode" where
  "inode_set_size sz ino =
     fst (inode_mark_dirty (ino\<lparr>i_size := of_nat sz, i_vmo_size := align_up2 sz\<rparr>))"

section \<open>Reading and writing\<close>

text \<open>The loop of \<open>file_write_cache_unlocked\<close>; \<open>pos\<close> and \<open>offset\<close> of the code are always equal. The result is the
  return value, what \<open>errno\<close> holds then, and the inode.\<close>

partial_function (option) write_cache_loop ::
  "penv \<Rightarrow> umem \<Rightarrow> nat \<Rightarrow> nat \<Rightarrow> nat \<Rightarrow> nat \<Rightarrow> inode \<Rightarrow> (int \<times> int \<times> inode) option" where
  "write_cache_loop E m buffer len wrote offset ino =
     (if wrote = len then Some (int wrote, pe_errno E, ino)
      else Option.bind (inode_get_page E offset True ino) (\<lambda>(r, ino1).
        case r of
          Inl err \<Rightarrow> Some (if wrote \<noteq> 0 then int wrote else - err, err, ino1)
        | Inr u \<Rightarrow>
            (let cache_off = offset mod PAGE_SIZE;
                 rest = PAGE_SIZE - cache_off;
                 amount = (if len - wrote < rest then len - wrote else rest);
                 aligned_off = offset - offset mod PAGE_SIZE;
                 st = pe_prepare_write E ino1 aligned_off cache_off amount
             in if st < 0 then Some (st, pe_errno E, page_unpin aligned_off ino1)
                else Option.bind (i_pages ino1 aligned_off) (\<lambda>page.
                  let (st, bs) = copy_from_user (buffer + wrote) amount m;
                      ino2 = ino1\<lparr>i_pages := (i_pages ino1)(aligned_off \<mapsto> splice cache_off bs page)\<rparr>
                  in if st < 0 then Some (- EFAULT, pe_errno E, page_unpin aligned_off ino2)
                     else
                       (let ino3 = page_unpin aligned_off (pagecache_dirty_block aligned_off ino2);
                            offset' = offset + amount;
                            ino4 = (if i_len ino3 < offset' then inode_set_size offset' ino3 else ino3)
                        in write_cache_loop E m buffer len (wrote + amount) offset' ino4)))))"

definition file_write_cache_unlocked ::
  "penv \<Rightarrow> umem \<Rightarrow> nat \<Rightarrow> nat \<Rightarrow> nat \<Rightarrow> inode \<Rightarrow> (int \<times> int \<times> inode) option" where
  "file_write_cache_unlocked E m buffer len offset ino = write_cache_loop E m buffer len 0 offset ino"

text \<open>\<open>file_write_cache\<close> holds the inode's reader/writer lock; \<open>None\<close> if the caller already holds it.\<close>

definition file_write_cache ::
  "penv \<Rightarrow> umem \<Rightarrow> nat \<Rightarrow> nat \<Rightarrow> nat \<Rightarrow> inode \<Rightarrow> (int \<times> int \<times> inode) option" where
  "file_write_cache E m buffer len offset ino = do {
     l \<leftarrow> rw_lock_write (i_rwlock ino);
     (n, err, ino') \<leftarrow> file_write_cache_unlocked E m buffer len offset (ino\<lparr>i_rwlock := l\<rparr>);
     Some (n, err, ino'\<lparr>i_rwlock := rw_unlock_write (i_rwlock ino')\<rparr>)
   }"

text \<open>The loop of \<open>file_read_cache\<close>. The result is the return value, what \<open>errno\<close> holds then, the
  user's memory and the inode.\<close>

partial_function (option) read_cache_loop ::
  "penv \<Rightarrow> nat \<Rightarrow> nat \<Rightarrow> nat \<Rightarrow> nat \<Rightarrow> umem \<Rightarrow> inode \<Rightarrow> (int \<times> int \<times> umem \<times> inode) option" where
  "read_cache_loop E buffer len rd offset m ino =
     (if rd = len then Some (int rd, pe_errno E, m, ino)
      else Option.bind (inode_get_page E offset False ino) (\<lambda>(r, ino1).
        case r of
          Inl err \<Rightarrow> Some (if rd \<noteq> 0 then int rd else - 1, err, m, ino1)
        | Inr u \<Rightarrow>
            (let cache_off = offset mod PAGE_SIZE;
                 rest = PAGE_SIZE - cache_off;
                 amount = (if len - rd < rest then len - rd else rest);
                 aligned_off = offset - offset mod PAGE_SIZE
             in Option.bind (i_pages ino1 aligned_off) (\<lambda>page.
                  if i_len ino1 < offset + amount then
                    (let amount' = (i_len ino1 + 2 ^ 64 - offset) mod 2 ^ 64;
                         (st, m') = copy_to_user (buffer + rd) (take amount' (drop cache_off page)) m
                     in if st < 0 then Some (- 1, EFAULT, m', page_unpin aligned_off ino1)
                        else Some (int (rd + amount'), pe_errno E, m', page_unpin aligned_off ino1))
                  else
                    (let (st, m') = copy_to_user (buffer + rd) (take amount (drop cache_off page)) m
                     in if st < 0 then Some (- 1, EFAULT, m', page_unpin aligned_off ino1)
                        else read_cache_loop E buffer len (rd + amount) (offset + amount) m'
                               (page_unpin aligned_off ino1))))))"

definition file_read_cache ::
  "penv \<Rightarrow> nat \<Rightarrow> nat \<Rightarrow> nat \<Rightarrow> umem \<Rightarrow> inode \<Rightarrow> (int \<times> int \<times> umem \<times> inode) option" where
  "file_read_cache E buffer len offset m ino =
     (if i_len ino \<le> offset then Some (0, pe_errno E, m, ino)
      else read_cache_loop E buffer len 0 offset m ino)"

section \<open>A cached file as an array of bytes\<close>

abbreviation page_of :: "nat \<Rightarrow> nat" where "page_of p \<equiv> p - p mod 4096"

lemma PAGE_SIZE_4096: "PAGE_SIZE = 4096"
  by (simp add: PAGE_SIZE_def)

lemma align_up2_props:
  "n \<le> align_up2 n" "align_up2 n < n + 4096" "align_up2 n mod 4096 = 0"
proof -
  have "n + 4095 = (n + 4095) div 4096 * 4096 + (n + 4095) mod 4096" by simp
  moreover have "(n + 4095) mod 4096 < 4096" by simp
  ultimately show "n \<le> align_up2 n" "align_up2 n < n + 4096"
    unfolding align_up2_def PAGE_SIZE_4096 by linarith+
qed (simp add: align_up2_def PAGE_SIZE_4096)

lemma aligned_less:
  assumes "a mod 4096 = (0::nat)" "b mod 4096 = 0" "a < b"
  shows "a + 4096 \<le> b"
proof -
  obtain k l where "a = 4096 * k" "b = 4096 * l" using assms(1,2) by (auto simp: mod_eq_0_iff_dvd elim!: dvdE)
  then show ?thesis using assms(3) by simp
qed

lemma align_up2_le:
  assumes "a mod 4096 = 0" "a < n"
  shows "a + 4096 \<le> align_up2 n"
  using aligned_less [OF assms(1) align_up2_props(3)] assms(2) align_up2_props(1) [of n] by simp

lemma align_up2_mono: "m \<le> n \<Longrightarrow> align_up2 m \<le> align_up2 n"
  by (simp add: align_up2_def PAGE_SIZE_4096 div_le_mono)

lemma page_of_mod [simp]: "page_of p mod 4096 = 0"
  by (simp add: minus_mod_eq_mult_div)

lemma page_of_le: "page_of p \<le> p" "p < page_of p + 4096"
proof -
  have "p mod 4096 < 4096" "p mod 4096 \<le> p" by simp_all
  then show "page_of p \<le> p" "p < page_of p + 4096" by linarith+
qed

lemma page_of_eq:
  assumes "a mod 4096 = 0" "a \<le> p" "p < a + 4096"
  shows "page_of p = a" "p mod 4096 = p - a"
proof -
  obtain k where k: "a = 4096 * k" using assms(1) by (auto simp: mod_eq_0_iff_dvd)
  then have "p = 4096 * k + (p - a)" "p - a < 4096" using assms by auto
  then show "p mod 4096 = p - a" by (metis mod_less mod_mult_self4 mult.commute)
  then show "page_of p = a" using assms by simp
qed

lemma align_up2_page: "align_up2 len = (if len mod 4096 = 0 then len else page_of len + 4096)"
proof -
  obtain q r where qr: "len = 4096 * q + r" "r < 4096" "len mod 4096 = r"
    by (metis mult_div_mod_eq mod_less_divisor zero_less_numeral)
  have "(len + 4095) div 4096 = (if r = 0 then q else q + 1)"
    using qr by (cases "r = 0") (auto simp: div_nat_eqI)
  then show ?thesis using qr by (auto simp: align_up2_def PAGE_SIZE_4096)
qed

definition byte_at :: "(nat \<Rightarrow> u8 list) \<Rightarrow> inode \<Rightarrow> nat \<Rightarrow> u8" where
  "byte_at disk ino p =
     (case i_pages ino (page_of p) of Some page \<Rightarrow> page ! (p mod 4096) | None \<Rightarrow> disk (page_of p) ! (p mod 4096))"

text \<open>The invariant of a cached file: pages are whole, aligned and within the object, the object has exactly
  the pages of the file, and there are only zeros beyond the end of the file.\<close>

definition pages_wf :: "inode \<Rightarrow> bool" where
  "pages_wf ino \<longleftrightarrow> (\<forall>off page. i_pages ino off = Some page \<longrightarrow>
     off mod 4096 = 0 \<and> length page = 4096 \<and> off < i_vmo_size ino)"

definition cache_wf :: "(nat \<Rightarrow> u8 list) \<Rightarrow> inode \<Rightarrow> bool" where
  "cache_wf disk ino \<longleftrightarrow> pages_wf ino \<and> i_vmo_size ino = align_up2 (i_len ino) \<and>
     i_len ino < 2 ^ 63 \<and> (\<forall>p \<ge> i_len ino. byte_at disk ino p = 0)"

text \<open>Getting a page into the cache changes no byte of the file.\<close>

definition got :: "(nat \<Rightarrow> u8 list) \<Rightarrow> inode \<Rightarrow> nat \<Rightarrow> inode \<Rightarrow> bool" where
  "got disk ino A ino1 \<longleftrightarrow> byte_at disk ino1 = byte_at disk ino \<and>
     (\<exists>page. length page = 4096 \<and> ino1 = ino\<lparr>i_pages := (i_pages ino)(A \<mapsto> page),
        i_vmo_size := max (i_vmo_size ino) (A + 4096),
        i_page_pins := (i_page_pins ino)(A := i_page_pins ino A + 1)\<rparr>)"

text \<open>What a write and a read need of the file system and the allocator behind the cache.\<close>

locale cache_backend =
  fixes E :: penv and disk :: "nat \<Rightarrow> u8 list"
  assumes memory: "pe_page_ok E ino off" "pe_block_ok E ino off" "pe_tree_ok E ino off"
    and readpage: "pe_readpage E off ino = (4096, disk off)" "length (disk off) = 4096"
    and prepare: "0 \<le> pe_prepare_write E ino off po n"
begin

lemma commit_eq:
  assumes "i_fops_readpage ino" "off mod 4096 = 0" "off < 2 ^ 63" "i_len ino < 2 ^ 63"
  shows "\<exists>page. vmo_inode_commit E off ino = Some (Inr page) \<and> length page = 4096 \<and>
    (\<forall>k < 4096. off + k < i_len ino \<longrightarrow> page ! k = disk off ! k) \<and>
    (off < i_len ino \<longrightarrow> (\<forall>k < 4096. i_len ino \<le> off + k \<longrightarrow> page ! k = 0))"
proof -
  define rest where "rest = (i_len ino + 2 ^ 64 - off) mod 2 ^ 64"
  define n where "n = (if rest < 4096 then rest else 4096)"
  have rest: "rest = i_len ino - off" if "off \<le> i_len ino"
    using that assms(3,4) by (simp add: rest_def mod_if)
  have "vmo_inode_commit E off ino = Some (Inr (zero_rest_of_page n (disk off)))"
    using assms(1) by (simp add: vmo_inode_commit_def memory readpage PAGE_SIZE_4096 rest_def n_def)
  moreover have "n \<le> 4096" by (simp add: n_def)
  moreover have "zero_rest_of_page n (disk off) ! k = (if k < n then disk off ! k else 0)" if "k < 4096" for k
    using that \<open>n \<le> 4096\<close> by (auto simp: zero_rest_of_page_def nth_append readpage PAGE_SIZE_4096)
  moreover have "length (zero_rest_of_page n (disk off)) = 4096"
    using \<open>n \<le> 4096\<close> by (simp add: zero_rest_of_page_def readpage PAGE_SIZE_4096)
  ultimately show ?thesis using rest by (auto simp: n_def)
qed

lemma byte_at_insert:
  assumes "A mod 4096 = 0" "\<And>k. k < 4096 \<Longrightarrow> page ! k = byte_at disk ino (A + k)" "i_pages ino1 = (i_pages ino)(A \<mapsto> page)"
  shows "byte_at disk ino1 = byte_at disk ino"
proof
  fix p
  show "byte_at disk ino1 p = byte_at disk ino p"
  proof (cases "page_of p = A")
    case True
    have "byte_at disk ino1 p = page ! (p mod 4096)" using True assms(3) by (simp add: byte_at_def)
    also have "\<dots> = byte_at disk ino (A + p mod 4096)" using assms(2) by simp
    also have "A + p mod 4096 = p" using True by (metis le_add_diff_inverse2 mod_less_eq_dividend)
    finally show ?thesis .
  next
    case False
    then show ?thesis using assms(3) by (simp add: byte_at_def)
  qed
qed

lemma byte_at_page:
  assumes "A mod 4096 = 0" "k < 4096"
  shows "byte_at disk ino (A + k) = (case i_pages ino A of Some page \<Rightarrow> page ! k | None \<Rightarrow> disk A ! k)"
  using page_of_eq [OF assms(1), of "A + k"] assms(2) by (simp add: byte_at_def split: option.split)

lemma vmo_get_wp:
  assumes wf: "cache_wf disk ino" and A: "A mod 4096 = 0" "A < i_vmo_size ino" and rp: "i_fops_readpage ino"
  shows "wp (vmo_get E A ino) (\<lambda>(st, ino1). st = VMO_STATUS_OK \<and> got disk ino A ino1)"
proof -
  have vs: "i_vmo_size ino = align_up2 (i_len ino)" "i_len ino < 2 ^ 63"
    and zero: "\<And>p. i_len ino \<le> p \<Longrightarrow> byte_at disk ino p = 0"
    using wf by (auto simp: cache_wf_def)
  have len: "A < i_len ino" "A + 4096 \<le> i_vmo_size ino" "A < 2 ^ 63"
    using aligned_less [OF A(1) align_up2_props(3), of "i_len ino"] A(2) align_up2_props(2) [of "i_len ino"] vs
    by auto
  show ?thesis
  proof (cases "i_pages ino A")
    case None
    obtain page where page: "vmo_inode_commit E A ino = Some (Inr page)" "length page = 4096"
        "\<And>k. k < 4096 \<Longrightarrow> A + k < i_len ino \<Longrightarrow> page ! k = disk A ! k"
        "\<And>k. k < 4096 \<Longrightarrow> i_len ino \<le> A + k \<Longrightarrow> page ! k = 0"
      using commit_eq [OF rp A(1) len(3) vs(2)] len(1) by auto
    have "page ! k = byte_at disk ino (A + k)" if "k < 4096" for k
      using page(3,4) [OF that] zero [of "A + k"] byte_at_page [OF A(1) that, of ino] None
      by (cases "A + k < i_len ino") auto
    then have "byte_at disk (page_pin A (ino\<lparr>i_pages := (i_pages ino)(A \<mapsto> page)\<rparr>)) = byte_at disk ino"
      by (rule byte_at_insert [OF A(1)]) (simp_all add: page_pin_def)
    then have "got disk ino A (page_pin A (ino\<lparr>i_pages := (i_pages ino)(A \<mapsto> page)\<rparr>))"
      using page(2) len(2) unfolding got_def by (intro conjI exI [of _ page]) (simp_all add: page_pin_def max_absorb1)
    moreover have "vmo_get E A ino = Some (VMO_STATUS_OK, page_pin A (ino\<lparr>i_pages := (i_pages ino)(A \<mapsto> page)\<rparr>))"
      using None A(2) page(1) by (simp add: vmo_get_def vmo_populate_def memory)
    ultimately show ?thesis by (simp add: wp_simps)
  next
    case (Some page)
    have "length page = 4096" using wf Some unfolding cache_wf_def pages_wf_def by blast
    moreover have "(i_pages ino)(A \<mapsto> page) = i_pages ino" using Some by auto
    ultimately have "got disk ino A (page_pin A ino)"
      using len(2) unfolding got_def
      by (intro conjI exI [of _ page]) (simp_all add: page_pin_def max_absorb1 byte_at_def fun_eq_iff)
    moreover have "vmo_get E A ino = Some (VMO_STATUS_OK, page_pin A ino)"
      using Some A(2) by (simp add: vmo_get_def)
    ultimately show ?thesis by (simp add: wp_simps)
  qed
qed

lemma pages_wf_None:
  assumes "pages_wf ino" "i_vmo_size ino \<le> A"
  shows "i_pages ino A = None"
  using assms unfolding pages_wf_def by (metis not_le option.exhaust)

lemma vmo_truncate_grow:
  assumes "pages_wf ino" "B mod 4096 = 0" "i_vmo_size ino \<le> B"
  shows "vmo_truncate B False ino = (0, ino\<lparr>i_vmo_size := B\<rparr>)"
  using assms pages_wf_None [OF assms(1,3)] align_up2_page [of B]
  by (simp add: vmo_truncate_def PAGE_SIZE_4096 Let_def)

lemma cache_block_new:
  assumes wf: "cache_wf disk ino" and A: "A mod 4096 = 0" "i_vmo_size ino \<le> A"
  shows "wp (inode_get_cache_block E A True ino) (\<lambda>(r, ino1). r = Inr () \<and> got disk ino A ino1)"
proof -
  have new: "i_pages ino A = None" using wf A by (simp add: cache_wf_def pages_wf_None)
  have len: "i_len ino \<le> A" and vs: "i_vmo_size ino \<le> A + 4096"
    using wf A align_up2_props(1) [of "i_len ino"] by (auto simp: cache_wf_def)
  have up: "align_up2 (A + 1) = A + 4096"
    using page_of_eq [OF A(1), of "A + 1"] by (simp add: align_up2_page)
  have tr: "vmo_truncate (A + 4096) False ino = (0, ino\<lparr>i_vmo_size := A + 4096\<rparr>)"
    using wf A(1) vs by (intro vmo_truncate_grow) (simp_all add: cache_wf_def)
  have "byte_at disk ino (A + k) = 0" for k
    using wf len by (auto simp: cache_wf_def)
  then have "byte_at disk (page_pin A (ino\<lparr>i_vmo_size := A + 4096, i_pages := (i_pages ino)(A \<mapsto> replicate 4096 0)\<rparr>)) =
      byte_at disk ino"
    by (intro byte_at_insert [OF A(1), of "replicate 4096 0"]) (simp_all add: page_pin_def)
  then have "got disk ino A (page_pin A (ino\<lparr>i_vmo_size := A + 4096, i_pages := (i_pages ino)(A \<mapsto> replicate 4096 0)\<rparr>))"
    using vs unfolding got_def
    by (intro conjI exI [of _ "replicate 4096 0"]) (simp_all add: page_pin_def max_absorb2)
  moreover have "inode_get_cache_block E A True ino = Some (Inr (),
      page_pin A (ino\<lparr>i_vmo_size := A + 4096, i_pages := (i_pages ino)(A \<mapsto> replicate 4096 0)\<rparr>))"
    using A new up tr by (simp add: inode_get_cache_block_def PAGE_SIZE_4096 memory vmo_add_page_def)
  ultimately show ?thesis by (simp add: wp_simps)
qed

lemma get_page_wp:
  assumes wf: "cache_wf disk ino" and rp: "i_fops_readpage ino" and off: "w \<or> page_of offset < i_vmo_size ino"
  shows "wp (inode_get_page E offset w ino) (\<lambda>(r, ino1). r = Inr () \<and> got disk ino (page_of offset) ino1)"
proof (cases "w \<and> i_vmo_size ino \<le> page_of offset")
  case True
  then show ?thesis
    using cache_block_new [OF wf page_of_mod, of offset] by (simp add: inode_get_page_def PAGE_SIZE_4096)
next
  case False
  have "page_of offset < i_vmo_size ino" using False off by auto
  from vmo_get_wp [OF wf page_of_mod this rp] show ?thesis
    using False by (auto simp: inode_get_page_def inode_get_cache_block_def PAGE_SIZE_4096 wp_simps elim!: wp_mono)
qed


end

text \<open>What a write of \<open>bs\<close> at \<open>offset\<close> does to the file.\<close>

definition written :: "(nat \<Rightarrow> u8 list) \<Rightarrow> inode \<Rightarrow> nat \<Rightarrow> u8 list \<Rightarrow> inode \<Rightarrow> bool" where
  "written disk ino offset bs ino' \<longleftrightarrow> cache_wf disk ino' \<and> inode_is_cacheable ino' = inode_is_cacheable ino \<and>
     i_len ino' = (if bs = [] then i_len ino else max (i_len ino) (offset + length bs)) \<and>
     (\<forall>p. byte_at disk ino' p =
        (if offset \<le> p \<and> p < offset + length bs then bs ! (p - offset) else byte_at disk ino p)) \<and>
     (\<exists>pages sz vs fl dp. ino' = ino\<lparr>i_pages := pages, i_size := sz, i_vmo_size := vs, i_flags := fl,
        i_dirty_pages := dp\<rparr>)"

definition user_bytes :: "umem \<Rightarrow> nat \<Rightarrow> u8 list \<Rightarrow> bool" where
  "user_bytes m a bs \<longleftrightarrow> (\<forall>i < length bs. m (a + i) = Some (bs ! i))"

lemma copy_from_user_ok: "user_bytes m a bs \<Longrightarrow> copy_from_user a (length bs) m = (0, bs)"
proof (induction bs arbitrary: a)
  case (Cons b bs)
  have "m a = Some b" "user_bytes m (Suc a) bs"
    using Cons.prems unfolding user_bytes_def by (force, metis Suc_less_eq add_Suc_shift length_Cons nth_Cons_Suc)
  then show ?case using Cons.IH by simp
qed simp

lemma user_bytes_sub: "user_bytes m a bs \<Longrightarrow> user_bytes m (a + k) (take n (drop k bs))"
  by (auto simp: user_bytes_def add.assoc)

lemma splice_props:
  assumes "co + length bs \<le> length page"
  shows "length (splice co bs page) = length page"
    "k < length page \<Longrightarrow> splice co bs page ! k = (if co \<le> k \<and> k < co + length bs then bs ! (k - co) else page ! k)"
  using assms by (auto simp: splice_def nth_append)

lemma written_trans:
  assumes "written disk ino offset bs ino1" "written disk ino1 (offset + length bs) cs ino2"
  shows "written disk ino offset (bs @ cs) ino2"
proof -
  obtain pa sz vs fl dp where 1: "ino1 = ino\<lparr>i_pages := pa, i_size := sz, i_vmo_size := vs, i_flags := fl, i_dirty_pages := dp\<rparr>"
    using assms(1) by (auto simp: written_def)
  obtain pa2 sz2 vs2 fl2 dp2 where "ino2 = ino1\<lparr>i_pages := pa2, i_size := sz2, i_vmo_size := vs2, i_flags := fl2, i_dirty_pages := dp2\<rparr>"
    using assms(2) by (auto simp: written_def)
  then have "ino2 = ino\<lparr>i_pages := pa2, i_size := sz2, i_vmo_size := vs2, i_flags := fl2, i_dirty_pages := dp2\<rparr>"
    using 1 by simp
  moreover have "byte_at disk ino2 p = (if offset \<le> p \<and> p < offset + length (bs @ cs)
      then (bs @ cs) ! (p - offset) else byte_at disk ino p)" for p
    using assms by (auto simp: written_def nth_append)
  moreover have "i_len ino2 = (if bs @ cs = [] then i_len ino else max (i_len ino) (offset + length (bs @ cs)))"
    using assms by (auto simp: written_def)
  ultimately show ?thesis using assms unfolding written_def by blast
qed

lemma written_Nil: "cache_wf disk ino \<Longrightarrow> written disk ino offset [] ino"
proof -
  have "ino = ino\<lparr>i_pages := i_pages ino, i_size := i_size ino, i_vmo_size := i_vmo_size ino, i_flags := i_flags ino,
      i_dirty_pages := i_dirty_pages ino\<rparr>" by (cases ino) simp
  then have "\<exists>pages sz vs fl dp. ino = ino\<lparr>i_pages := pages, i_size := sz, i_vmo_size := vs, i_flags := fl,
      i_dirty_pages := dp\<rparr>" by (intro exI)
  then show "cache_wf disk ino \<Longrightarrow> written disk ino offset [] ino"
    unfolding written_def by (auto simp del: ex_simps)
qed


text \<open>Storing \<open>bs\<close> into the page at \<open>A\<close> that \<open>got\<close> brought in, marking it dirty and unpinning it.\<close>

lemma byte_at_store:
  assumes A: "A mod 4096 = 0" and p: "i_pages ino1 A = Some page" "length page = 4096" "co + length bs \<le> 4096"
    and ino2: "i_pages ino2 = (i_pages ino1)(A \<mapsto> splice co bs page)"
  shows "byte_at disk ino2 p =
    (if A + co \<le> p \<and> p < A + co + length bs then bs ! (p - (A + co)) else byte_at disk ino1 p)"
proof (cases "page_of p = A")
  case True
  obtain k where k: "p = A + k" "k < 4096" "p mod 4096 = k"
    using True page_of_le(1) [of p] by (metis le_add_diff_inverse2 add.commute mod_less_divisor mod_le_divisor zero_less_numeral mod_less_eq_dividend)
  have "byte_at disk ino2 p = splice co bs page ! k" "byte_at disk ino1 p = page ! k"
    using True p(1) ino2 k(3) by (simp_all add: byte_at_def)
  then show ?thesis using splice_props(2) [of co bs page k] p k by auto
next
  case False
  have "\<not> (A + co \<le> p \<and> p < A + co + length bs)"
    using False page_of_eq(1) [OF A, of p] p(3) by linarith
  then show ?thesis using False ino2 by (auto simp: byte_at_def)
qed


lemma mark_dirty_frame: "\<exists>fl. fst (inode_mark_dirty ino) = ino\<lparr>i_flags := fl\<rparr>"
  by (rule exI [of _ "i_flags (fst (inode_mark_dirty ino))"])
    (cases ino, simp add: inode_mark_dirty_def Let_def inode_wait_flush_def)

lemma mark_dirty_cacheable [simp]: "inode_is_cacheable (fst (inode_mark_dirty ino)) = inode_is_cacheable ino"
proof -
  have "i_flags (fst (inode_mark_dirty ino)) AND INODE_FLAG_DONT_CACHE = i_flags ino AND INODE_FLAG_DONT_CACHE"
    by (rule bit_word_eqI)
      (auto simp: inode_mark_dirty_def Let_def inode_wait_flush_def INODE_FLAG_DONT_CACHE_def INODE_FLAG_DIRTY_def
        INODE_FLAG_DIRTYING_def bit_simps)
  then show ?thesis using mark_dirty_frame [of ino] by (auto simp: inode_is_cacheable_def)
qed

lemma cacheable_frame:
  "inode_is_cacheable (ino\<lparr>i_size := sz, i_vmo_size := vs\<rparr>) = inode_is_cacheable ino"
  "inode_is_cacheable (ino\<lparr>i_pages := pa\<rparr>) = inode_is_cacheable ino"
  "inode_is_cacheable (page_unpin A ino) = inode_is_cacheable ino"
  "inode_is_cacheable (pagecache_dirty_block A ino) = inode_is_cacheable ino"
  "inode_is_cacheable (inode_set_size sz' ino) = inode_is_cacheable ino"
  by (simp_all add: inode_set_size_def) (simp_all add: inode_is_cacheable_def page_unpin_def pagecache_dirty_block_def)

lemma dirty_block_frame: "\<exists>dp. pagecache_dirty_block A ino = ino\<lparr>i_dirty_pages := dp\<rparr>"
  by (rule exI [of _ "i_dirty_pages (pagecache_dirty_block A ino)"])
    (cases ino, simp add: pagecache_dirty_block_def)

lemma store_frame:
  assumes got: "got disk ino A ino1"
    and ino2: "ino2 = ino1\<lparr>i_pages := (i_pages ino1)(A \<mapsto> np)\<rparr>"
    and ino3: "ino3 = page_unpin A (pagecache_dirty_block A ino2)"
    and ino4: "ino4 = (if i_len ino3 < q then inode_set_size q ino3 else ino3)"
  obtains fl dp where "ino4 = ino\<lparr>i_pages := (i_pages ino)(A \<mapsto> np),
    i_size := (if i_len ino < q then of_nat q else i_size ino),
    i_vmo_size := (if i_len ino < q then align_up2 q else max (i_vmo_size ino) (A + 4096)),
    i_flags := fl, i_dirty_pages := dp\<rparr>"
proof -
  obtain pa where 1: "ino1 = ino\<lparr>i_pages := (i_pages ino)(A \<mapsto> pa), i_vmo_size := max (i_vmo_size ino) (A + 4096),
      i_page_pins := (i_page_pins ino)(A := i_page_pins ino A + 1)\<rparr>"
    using got by (auto simp: got_def)
  obtain dp where "pagecache_dirty_block A ino2 = ino2\<lparr>i_dirty_pages := dp\<rparr>"
    using dirty_block_frame by blast
  then have 3: "ino3 = ino\<lparr>i_pages := (i_pages ino)(A \<mapsto> np), i_size := i_size ino,
      i_vmo_size := max (i_vmo_size ino) (A + 4096), i_flags := i_flags ino, i_dirty_pages := dp\<rparr>"
    unfolding ino3 ino2 1 page_unpin_def by (cases ino) simp
  then have len: "i_len ino3 = i_len ino" by (simp add: i_len_def)
  show thesis
  proof (cases "i_len ino < q")
    case True
    then obtain fl where "ino4 = ino3\<lparr>i_size := of_nat q, i_vmo_size := align_up2 q\<rparr>\<lparr>i_flags := fl\<rparr>"
      using mark_dirty_frame unfolding ino4 len inode_set_size_def by (metis (full_types))
    then show thesis using True 3 by (intro that [of dp fl]) simp
  next
    case False
    then show thesis using 3 ino4 len by (intro that [of dp "i_flags ino"]) simp
  qed
qed


lemma unat_word_of_nat: "q < 2 ^ 63 \<Longrightarrow> unat (word_of_nat q :: u64) = q"
  by (simp add: unsigned_of_nat take_bit_nat_def)

lemma write_step:
  assumes wf: "cache_wf disk ino" and got: "got disk ino A ino1" and A: "A = page_of offset"
    and bs: "bs \<noteq> []" "offset mod 4096 + length bs \<le> 4096" "offset + length bs < 2 ^ 63"
    and page: "i_pages ino1 A = Some page"
    and ino2: "ino2 = ino1\<lparr>i_pages := (i_pages ino1)(A \<mapsto> splice (offset mod 4096) bs page)\<rparr>"
    and ino3: "ino3 = page_unpin A (pagecache_dirty_block A ino2)"
    and ino4: "ino4 = (if i_len ino3 < offset + length bs then inode_set_size (offset + length bs) ino3 else ino3)"
  shows "written disk ino offset bs ino4"
proof -
  let ?q = "offset + length bs" and ?np = "splice (offset mod 4096) bs page"
  have A0: "A mod 4096 = 0" "A + offset mod 4096 = offset" "A \<le> offset" "?q \<le> A + 4096"
    using A page_of_mod [of offset] page_of_le(1) [of offset] bs(2) by auto
  have wf': "pages_wf ino" "i_vmo_size ino = align_up2 (i_len ino)" "i_len ino < 2 ^ 63"
      "\<And>p. i_len ino \<le> p \<Longrightarrow> byte_at disk ino p = 0"
    using wf by (auto simp: cache_wf_def)
  have lp: "length page = 4096" and b1: "byte_at disk ino1 = byte_at disk ino"
    using got page by (auto simp: got_def)
  obtain fl dp where eq: "ino4 = ino\<lparr>i_pages := (i_pages ino)(A \<mapsto> ?np),
      i_size := (if i_len ino < ?q then of_nat ?q else i_size ino),
      i_vmo_size := (if i_len ino < ?q then align_up2 ?q else max (i_vmo_size ino) (A + 4096)),
      i_flags := fl, i_dirty_pages := dp\<rparr>"
    by (rule store_frame [OF got ino2 ino3 ino4])
  have len: "i_len ino4 = max (i_len ino) ?q"
    using eq unat_word_of_nat [OF bs(3)] by (auto simp: i_len_def max_def)
  have pgs: "i_pages ino4 = (i_pages ino1)(A \<mapsto> ?np)" using eq got by (auto simp: got_def)
  note byt = byte_at_store [OF A0(1) page lp bs(2) pgs, of disk, unfolded A0(2) b1]
  have "A + 4096 \<le> align_up2 ?q" using align_up2_le [OF A0(1), of ?q] A0(3) bs(1) by (cases bs) auto
  moreover have "align_up2 ?q \<le> align_up2 (i_len ino)" if "?q \<le> i_len ino" using that by (rule align_up2_mono)
  ultimately have vs: "i_vmo_size ino4 = align_up2 (i_len ino4)"
    using len eq wf'(2) by (auto simp: max_def)
  have "A < i_vmo_size ino4" "i_vmo_size ino \<le> i_vmo_size ino4"
    unfolding vs len using wf'(2) align_up2_mono [of "i_len ino" "max (i_len ino) ?q"] A0(3) bs(1)
      align_up2_props(1) [of "max (i_len ino) ?q"] by (cases bs; simp)+
  moreover have "i_pages ino4 = (i_pages ino)(A \<mapsto> ?np)" "length ?np = 4096"
    using eq lp bs(2) by (simp_all add: splice_props)
  ultimately have "pages_wf ino4"
    using wf'(1) A0(1) unfolding pages_wf_def by (metis fun_upd_apply option.inject order_less_le_trans)
  moreover have "byte_at disk ino4 p = 0" if "i_len ino4 \<le> p" for p
    using that len byt wf'(4) by auto
  ultimately have "cache_wf disk ino4" using vs len wf'(3) bs(3) by (auto simp: cache_wf_def)
  moreover have "inode_is_cacheable ino4 = inode_is_cacheable ino1"
    unfolding ino4 ino3 ino2 by (simp add: cacheable_frame)
  moreover have "inode_is_cacheable ino1 = inode_is_cacheable ino"
    using got by (auto simp: got_def inode_is_cacheable_def)
  moreover have "\<exists>pages sz vs fl dp. ino4 = ino\<lparr>i_pages := pages, i_size := sz, i_vmo_size := vs, i_flags := fl,
      i_dirty_pages := dp\<rparr>" using eq by blast
  ultimately show ?thesis using len byt bs(1) by (simp add: written_def)
qed


context cache_backend
begin

lemma write_cache_loop_wp:
  assumes "cache_wf disk ino" "i_fops_readpage ino" "user_bytes m buffer bs" "wrote \<le> length bs"
    "offset + (length bs - wrote) < 2 ^ 63"
  shows "wp (write_cache_loop E m buffer (length bs) wrote offset ino)
    (\<lambda>(n, err, ino'). n = int (length bs) \<and> written disk ino offset (drop wrote bs) ino')"
  using assms
proof (induction "length bs - wrote" arbitrary: wrote offset ino rule: less_induct)
  case less
  note prems = less.prems
  show ?case
  proof (cases "wrote = length bs")
    case True
    then show ?thesis
      using written_Nil [OF prems(1)] by (simp add: write_cache_loop.simps wp_simps)
  next
    case False
    let ?co = "offset mod 4096" and ?A = "page_of offset"
    define a where "a = (if length bs - wrote < 4096 - ?co then length bs - wrote else 4096 - ?co)"
    let ?bs = "take a (drop wrote bs)"
    have co: "?co < 4096" by simp
    have a: "0 < a" "a \<le> length bs - wrote" "?co + a \<le> 4096" "length ?bs = a"
      using False prems(4) co by (auto simp: a_def)
    have cp: "copy_from_user (buffer + wrote) a m = (0, ?bs)"
      using copy_from_user_ok [OF user_bytes_sub [OF prems(3), of wrote a]] a(4) by simp
    have rest: "wp (write_cache_loop E m buffer (length bs) (wrote + a) (offset + a) ino4)
        (\<lambda>(n, err, ino'). n = int (length bs) \<and> written disk ino offset (drop wrote bs) ino')"
      if w: "written disk ino offset ?bs ino4" for ino4
    proof -
      have "cache_wf disk ino4" "i_fops_readpage ino4" using w prems(2) by (auto simp: written_def)
      then have "wp (write_cache_loop E m buffer (length bs) (wrote + a) (offset + a) ino4)
          (\<lambda>(n, err, ino'). n = int (length bs) \<and> written disk ino4 (offset + a) (drop (wrote + a) bs) ino')"
        using a prems by (intro less.hyps) auto
      moreover have "drop wrote bs = ?bs @ drop (wrote + a) bs"
        by (metis add.commute append_take_drop_id drop_drop)
      ultimately show ?thesis
        using written_trans [OF w, unfolded a(4)] by (auto elim!: wp_mono) metis
    qed
    from get_page_wp [OF prems(1,2), of True offset]
    obtain ino1 where ino1: "inode_get_page E offset True ino = Some (Inr (), ino1)" "got disk ino ?A ino1"
      by (auto simp: wp_iff)
    then obtain page where page: "i_pages ino1 ?A = Some page" by (auto simp: got_def)
    define ino2 where "ino2 = ino1\<lparr>i_pages := (i_pages ino1)(?A \<mapsto> splice ?co ?bs page)\<rparr>"
    define ino3 where "ino3 = page_unpin ?A (pagecache_dirty_block ?A ino2)"
    define ino4 where "ino4 = (if i_len ino3 < offset + a then inode_set_size (offset + a) ino3 else ino3)"
    have "written disk ino offset ?bs ino4"
      by (rule write_step [OF prems(1) ino1(2) refl _ _ _ page ino2_def ino3_def])
        (use a prems(5) in \<open>simp_all only: a(4) ino4_def, auto\<close>)
    moreover have "0 \<le> pe_prepare_write E ino1 ?A ?co a" by (rule prepare)
    then have "write_cache_loop E m buffer (length bs) wrote offset ino =
        write_cache_loop E m buffer (length bs) (wrote + a) (offset + a) ino4"
      using False ino1(1) page cp unfolding ino4_def ino3_def ino2_def
      by (subst write_cache_loop.simps) (simp add: PAGE_SIZE_4096 Let_def flip: a_def)
    ultimately show ?thesis using rest by simp
  qed
qed

end


definition user_write :: "umem \<Rightarrow> nat \<Rightarrow> u8 list \<Rightarrow> umem" where
  "user_write m a bs = (\<lambda>x. if a \<le> x \<and> x < a + length bs then Some (bs ! (x - a)) else m x)"

definition user_mapped :: "umem \<Rightarrow> nat \<Rightarrow> nat \<Rightarrow> bool" where
  "user_mapped m a n \<longleftrightarrow> (\<forall>x. a \<le> x \<and> x < a + n \<longrightarrow> m x \<noteq> None)"

lemma user_write_Nil [simp]: "user_write m a [] = m"
  by (auto simp: user_write_def fun_eq_iff)

lemma user_write_append: "user_write (user_write m a xs) (a + length xs) ys = user_write m a (xs @ ys)"
  by (auto simp: user_write_def nth_append fun_eq_iff)

lemma user_mapped_write: "user_mapped m b n \<Longrightarrow> user_mapped (user_write m a xs) b n"
  by (auto simp: user_mapped_def user_write_def)

lemma user_mapped_sub: "user_mapped m a n \<Longrightarrow> k + j \<le> n \<Longrightarrow> user_mapped m (a + k) j"
  by (auto simp: user_mapped_def)

lemma copy_to_user_ok: "user_mapped m a (length bs) \<Longrightarrow> copy_to_user a bs m = (0, user_write m a bs)"
proof (induction bs arbitrary: a m)
  case (Cons b bs)
  have "m(a \<mapsto> b) = user_write m a [b]" by (auto simp: user_write_def fun_eq_iff)
  then have "copy_to_user (Suc a) bs (m(a \<mapsto> b)) = (0, user_write m a (b # bs))"
    using Cons.IH [of "user_write m a [b]" "Suc a"] user_write_append [of m a "[b]" bs] Cons.prems
    by (simp add: user_mapped_def user_write_def)
  then show ?case using Cons.prems by (auto simp: user_mapped_def)
qed simp

definition read_frame :: "(nat \<Rightarrow> u8 list) \<Rightarrow> inode \<Rightarrow> inode \<Rightarrow> bool" where
  "read_frame disk ino ino' \<longleftrightarrow> cache_wf disk ino' \<and> byte_at disk ino' = byte_at disk ino \<and>
     (\<exists>pages. ino' = ino\<lparr>i_pages := pages\<rparr>)"

lemma read_frame_refl: "cache_wf disk ino \<Longrightarrow> read_frame disk ino ino"
proof -
  have "ino = ino\<lparr>i_pages := i_pages ino\<rparr>" by (cases ino) simp
  then have "\<exists>pages. ino = ino\<lparr>i_pages := pages\<rparr>" by (intro exI)
  then show "cache_wf disk ino \<Longrightarrow> read_frame disk ino ino" by (simp add: read_frame_def)
qed

lemma read_frame_trans: "read_frame disk a b \<Longrightarrow> read_frame disk b c \<Longrightarrow> read_frame disk a c"
  by (auto simp: read_frame_def)

lemma got_unpin:
  assumes wf: "cache_wf disk ino" and got: "got disk ino A ino1" and A: "A mod 4096 = 0" "A < i_vmo_size ino"
  shows "read_frame disk ino (page_unpin A ino1)"
proof -
  obtain page where p: "length page = 4096" "ino1 = ino\<lparr>i_pages := (i_pages ino)(A \<mapsto> page),
      i_vmo_size := max (i_vmo_size ino) (A + 4096), i_page_pins := (i_page_pins ino)(A := i_page_pins ino A + 1)\<rparr>"
    using got by (auto simp: got_def)
  have vs: "i_vmo_size ino = align_up2 (i_len ino)" using wf by (simp add: cache_wf_def)
  then have "A + 4096 \<le> i_vmo_size ino" using aligned_less [OF A(1) align_up2_props(3)] A(2) by simp
  then have eq: "page_unpin A ino1 = ino\<lparr>i_pages := (i_pages ino)(A \<mapsto> page)\<rparr>"
    using p by (cases ino) (simp add: page_unpin_def)
  have "byte_at disk (ino\<lparr>i_pages := (i_pages ino)(A \<mapsto> page)\<rparr>) = byte_at disk ino"
    using got p by (simp add: got_def byte_at_def fun_eq_iff)
  moreover have "pages_wf (ino\<lparr>i_pages := (i_pages ino)(A \<mapsto> page)\<rparr>)"
    using wf A p(1) by (auto simp: cache_wf_def pages_wf_def)
  ultimately show ?thesis using wf unfolding eq read_frame_def cache_wf_def i_len_def by auto
qed

lemma page_bytes:
  assumes "got disk ino (page_of offset) ino1" "i_pages ino1 (page_of offset) = Some page" "offset mod 4096 + a \<le> 4096"
  shows "take a (drop (offset mod 4096) page) = map (byte_at disk ino) [offset..<offset + a]"
proof (rule nth_equalityI)
  have len: "length page = 4096" and b: "byte_at disk ino1 = byte_at disk ino"
    using assms by (auto simp: got_def)
  show l: "length (take a (drop (offset mod 4096) page)) = length (map (byte_at disk ino) [offset..<offset + a])"
    using assms(3) len by simp
  fix i assume "i < length (take a (drop (offset mod 4096) page))"
  then have i: "i < a" "offset mod 4096 + i < 4096" using assms(3) len by auto
  have "byte_at disk ino1 (offset + i) = page ! (offset mod 4096 + i)"
    using page_of_eq [OF page_of_mod, of offset "offset + i"] page_of_le(1) [of offset] i assms(2)
    by (simp add: byte_at_def add.commute)
  then show "take a (drop (offset mod 4096) page) ! i = map (byte_at disk ino) [offset..<offset + a] ! i"
    using i len b by simp
qed


lemma rwlock_bytes:
  "byte_at disk (ino\<lparr>i_rwlock := l\<rparr>) = byte_at disk ino" "i_len (ino\<lparr>i_rwlock := l\<rparr>) = i_len ino"
  by (simp_all add: byte_at_def i_len_def fun_eq_iff)

lemma cache_wf_rwlock: "cache_wf disk (ino\<lparr>i_rwlock := l\<rparr>) = cache_wf disk ino"
  by (simp add: cache_wf_def pages_wf_def i_len_def byte_at_def)

lemma written_rwlock:
  assumes "written disk (ino\<lparr>i_rwlock := l\<rparr>) offset bs ino'" "i_rwlock ino = 0"
  shows "written disk ino offset bs (ino'\<lparr>i_rwlock := 0\<rparr>)"
proof -
  obtain pages sz vs fl dp where "ino' = ino\<lparr>i_rwlock := l, i_pages := pages, i_size := sz, i_vmo_size := vs,
      i_flags := fl, i_dirty_pages := dp\<rparr>"
    using assms(1) by (auto simp: written_def)
  then have "ino'\<lparr>i_rwlock := 0\<rparr> = ino\<lparr>i_pages := pages, i_size := sz, i_vmo_size := vs, i_flags := fl,
      i_dirty_pages := dp\<rparr>"
    using assms(2) by (cases ino) simp
  then have "\<exists>pages sz vs fl dp. ino'\<lparr>i_rwlock := 0\<rparr> = ino\<lparr>i_pages := pages, i_size := sz, i_vmo_size := vs,
      i_flags := fl, i_dirty_pages := dp\<rparr>" by blast
  moreover have "inode_is_cacheable (i\<lparr>i_rwlock := r\<rparr>) = inode_is_cacheable i" for i r
    by (simp add: inode_is_cacheable_def)
  ultimately show ?thesis
    using assms(1) unfolding written_def cache_wf_rwlock rwlock_bytes by metis
qed

context cache_backend
begin

lemma min_advance: "a \<le> x \<Longrightarrow> a \<le> y \<Longrightarrow> min x y = a + min (x - a) (y - a)" for a :: nat
  by (auto simp: min_def)

lemma read_cache_loop_wp:
  assumes "cache_wf disk ino" "i_fops_readpage ino" "user_mapped m buffer len" "rd \<le> len"
    "offset \<le> i_len ino" "offset = i_len ino \<longrightarrow> rd \<noteq> 0" "k = min (len - rd) (i_len ino - offset)"
  shows "wp (read_cache_loop E buffer len rd offset m ino) (\<lambda>(n, err, m', ino'). n = int (rd + k) \<and>
     m' = user_write m (buffer + rd) (map (byte_at disk ino) [offset..<offset + k]) \<and> read_frame disk ino ino')"
  using assms
proof (induction "len - rd" arbitrary: rd offset ino m k rule: less_induct)
  case less
  note prems = less.prems
  let ?co = "offset mod 4096" and ?A = "page_of offset"
  have wf: "i_vmo_size ino = align_up2 (i_len ino)" "i_len ino < 2 ^ 63" using prems(1) by (simp_all add: cache_wf_def)
  consider (all) "rd = len" | (eof) "rd \<noteq> len" "i_vmo_size ino \<le> ?A" | (more) "rd \<noteq> len" "?A < i_vmo_size ino"
    by linarith
  then show ?case
  proof cases
    case all
    then show ?thesis using prems by (simp add: read_cache_loop.simps wp_simps read_frame_refl)
  next
    case eof
    then have "offset = i_len ino"
      using wf prems(5) page_of_le(1) [of offset] align_up2_props(1) [of "i_len ino"] by linarith
    moreover have "inode_get_page E offset False ino = Some (Inl EIO, ino)"
      using eof by (simp add: inode_get_page_def inode_get_cache_block_def vmo_get_def PAGE_SIZE_4096 vmo_status_to_errno_def)
    ultimately show ?thesis
      using eof prems by (simp add: read_cache_loop.simps wp_simps read_frame_refl)
  next
    case more
    define a where "a = (if len - rd < 4096 - ?co then len - rd else 4096 - ?co)"
    have "?co < 4096" by simp
    then have a: "0 < a" "a \<le> len - rd" "?co + a \<le> 4096" using more prems(4) by (auto simp: a_def)
    from get_page_wp [OF prems(1,2), of False offset] more
    obtain ino1 where ino1: "inode_get_page E offset False ino = Some (Inr (), ino1)" "got disk ino ?A ino1"
      by (auto simp: wp_iff)
    then obtain page where page: "i_pages ino1 ?A = Some page" by (auto simp: got_def)
    note frame = got_unpin [OF prems(1) ino1(2) page_of_mod more(2)]
    have len1: "i_len ino1 = i_len ino" using ino1(2) by (auto simp: got_def i_len_def)
    have sub: "(i_len ino + 2 ^ 64 - offset) mod 2 ^ 64 = i_len ino - offset"
      using prems(5) wf(2) by (simp add: mod_if)
    have cp: "copy_to_user (buffer + rd) (take j (drop ?co page)) m =
        (0, user_write m (buffer + rd) (map (byte_at disk ino) [offset..<offset + j]))" if "j \<le> a" for j
      using page_bytes [OF ino1(2) page, of j] that a prems(4)
        copy_to_user_ok [of m "buffer + rd" "take j (drop ?co page)"] user_mapped_sub [OF prems(3), of rd j]
      by simp
    show ?thesis
    proof (cases "i_len ino < offset + a")
      case True
      then have "k = i_len ino - offset" "i_len ino - offset \<le> a" using prems(7) a by auto
      then show ?thesis
        using True more(1) ino1(1) page frame cp [of "i_len ino - offset"]
        by (subst read_cache_loop.simps) (simp add: wp_simps PAGE_SIZE_4096 Let_def sub [simplified] len1 flip: a_def)
    next
      case False
      let ?m = "user_write m (buffer + rd) (map (byte_at disk ino) [offset..<offset + a])"
      have k: "k = a + min (len - (rd + a)) (i_len ino - (offset + a))" 
        using min_advance [of a "len - rd" "i_len ino - offset"] False prems(7) a(2) by simp
      have "wp (read_cache_loop E buffer len (rd + a) (offset + a) ?m (page_unpin ?A ino1)) (\<lambda>(n, err, m', ino').
          n = int (rd + a + (k - a)) \<and> m' = user_write ?m (buffer + (rd + a))
             (map (byte_at disk (page_unpin ?A ino1)) [offset + a..<offset + a + (k - a)]) \<and>
          read_frame disk (page_unpin ?A ino1) ino')"
      proof (rule less.hyps)
        show "cache_wf disk (page_unpin ?A ino1)" "i_fops_readpage (page_unpin ?A ino1)" "offset + a \<le> i_len (page_unpin ?A ino1)"
            "k - a = min (len - (rd + a)) (i_len (page_unpin ?A ino1) - (offset + a))"
          using frame prems(2) False k by (auto simp: read_frame_def i_len_def)
      qed (use prems(3,4) a more(1) user_mapped_write in auto)
      moreover have "user_write ?m (buffer + (rd + a)) (map (byte_at disk ino) [offset + a..<offset + k]) =
          user_write m (buffer + rd) (map (byte_at disk ino) [offset..<offset + k])"
        using user_write_append [of m "buffer + rd" "map (byte_at disk ino) [offset..<offset + a]"
            "map (byte_at disk ino) [offset + a..<offset + k]"] k upt_add_eq_append [of offset "offset + a" "k - a"]
        by (simp only: map_append [symmetric] length_map length_upt) (simp add: add.assoc)
      moreover have "byte_at disk (page_unpin ?A ino1) = byte_at disk ino" using frame by (simp add: read_frame_def)
      ultimately have "wp (read_cache_loop E buffer len (rd + a) (offset + a) ?m (page_unpin ?A ino1)) (\<lambda>(n, err, m', ino').
          n = int (rd + k) \<and> m' = user_write m (buffer + rd) (map (byte_at disk ino) [offset..<offset + k]) \<and>
          read_frame disk ino ino')"
        using k read_frame_trans [OF frame] unfolding wp_iff by (auto simp: add.assoc)
      then show ?thesis
        using False more(1) ino1(1) page cp [of a]
        by (subst read_cache_loop.simps) (simp add: PAGE_SIZE_4096 len1 flip: a_def)
    qed
  qed
qed

lemma file_write_cache_wp:
  assumes "cache_wf disk ino" "i_fops_readpage ino" "i_rwlock ino = 0" "user_bytes m buffer bs"
    "offset + length bs < 2 ^ 63"
  shows "wp (file_write_cache E m buffer (length bs) offset ino)
    (\<lambda>(n, err, ino'). n = int (length bs) \<and> written disk ino offset bs ino')"
proof -
  obtain l where "rw_lock_write (i_rwlock ino) = Some l" using assms(3) by simp
  moreover have "wp (write_cache_loop E m buffer (length bs) 0 offset (ino\<lparr>i_rwlock := l\<rparr>))
      (\<lambda>(n, err, ino'). n = int (length bs) \<and> written disk (ino\<lparr>i_rwlock := l\<rparr>) offset (drop 0 bs) ino')"
    using assms by (intro write_cache_loop_wp) (simp_all add: cache_wf_rwlock)
  ultimately show ?thesis
    using written_rwlock [OF _ assms(3)]
    by (auto simp: file_write_cache_def file_write_cache_unlocked_def rw_unlock_write_def wp_simps elim!: wp_mono)
qed

text \<open>A write from memory that is not mapped: the code returns \<open>-EFAULT\<close> and leaves \<open>errno\<close> alone. The page it has got
  stays in the cache.\<close>

lemma file_write_cache_fault:
  assumes "cache_wf disk ino" "i_fops_readpage ino" "i_rwlock ino = 0" "m buffer = None" "0 < len"
  shows "wp (file_write_cache E m buffer len offset ino) (\<lambda>(n, err, ino'). n = - EFAULT \<and> err = pe_errno E \<and>
    (\<exists>pages vs pins. ino' = ino\<lparr>i_pages := pages, i_vmo_size := vs, i_page_pins := pins\<rparr>))"
proof -
  obtain l where l: "rw_lock_write (i_rwlock ino) = Some l" using assms(3) by simp
  let ?ino = "ino\<lparr>i_rwlock := l\<rparr>" and ?co = "offset mod 4096" and ?A = "page_of offset"
  define a where "a = (if len < 4096 - ?co then len else 4096 - ?co)"
  have "?co < 4096" by simp
  then have "0 < a" using assms(5) by (simp add: a_def)
  then have cp: "copy_from_user buffer a m = (- EFAULT, [])" using assms(4) by (cases a) auto
  from get_page_wp [of ?ino True offset] assms(1,2)
  obtain ino1 where ino1: "inode_get_page E offset True ?ino = Some (Inr (), ino1)" "got disk ?ino ?A ino1"
    by (auto simp: wp_iff cache_wf_rwlock)
  then obtain page where page: "i_pages ino1 ?A = Some page" by (auto simp: got_def)
  let ?i = "page_unpin ?A (ino1\<lparr>i_pages := (i_pages ino1)(?A \<mapsto> splice ?co [] page)\<rparr>)"
  have "write_cache_loop E m buffer len 0 offset ?ino = Some (- EFAULT, pe_errno E, ?i)"
    using assms(5) ino1(1) page cp prepare [of ino1 ?A ?co a] unfolding a_def
    by (cases "len < 4096 - ?co") (subst write_cache_loop.simps, simp add: PAGE_SIZE_4096 Let_def)+
  moreover have "\<exists>pages vs pins. ?i\<lparr>i_rwlock := 0\<rparr> = ino\<lparr>i_pages := pages, i_vmo_size := vs, i_page_pins := pins\<rparr>"
    using ino1(2) assms(3) by (cases ino) (auto simp: got_def page_unpin_def)
  ultimately show ?thesis
    using l by (simp add: file_write_cache_def file_write_cache_unlocked_def rw_unlock_write_def wp_simps)
qed

lemma file_read_cache_wp:
  assumes "cache_wf disk ino" "i_fops_readpage ino" "user_mapped m buffer len"
    "k = min len (i_len ino - offset)"
  shows "wp (file_read_cache E buffer len offset m ino) (\<lambda>(n, err, m', ino'). n = int k \<and>
     m' = user_write m buffer (map (byte_at disk ino) [offset..<offset + k]) \<and> read_frame disk ino ino')"
proof (cases "offset < i_len ino")
  case True
  then show ?thesis
    using read_cache_loop_wp [OF assms(1,2,3), of 0 offset k] assms(4) by (simp add: file_read_cache_def)
next
  case False
  then show ?thesis using assms by (simp add: file_read_cache_def wp_simps read_frame_refl)
qed

end

end
