(* ===== verification/Fd_Table.thy ===== *)
theory Fd_Table
  imports Vfs_Objects
begin

text \<open>
  The per-process file descriptor table of \<open>kernel/kernel/fs/file.cpp\<close> (\<open>struct ioctx\<close> in
  \<open>kernel/include/onyx/ioctx.h\<close>): an array of pointers to open file descriptions, two arrays
  of 64-bit words with one bit per descriptor (open, close-on-exec), a spin lock, the working
  directory and the umask. This theory holds the table's own operations: the bit accessors,
  lookup, close, growth, allocation of the lowest free descriptor, inheritance on fork,
  close-on-exec and destruction. The system calls built on them are in \<open>Fd_Syscalls\<close>.

  The abstraction of a table (\<open>fdtab\<close>, a finite map from descriptors to file descriptions and flags) and
  the invariant of tables and reference counts (\<open>fd_inv\<close>) are in \<open>Fd_Invariant\<close>.
\<close>

section \<open>State\<close>

record ioctx =
  cwd_lock :: bool
  cwd :: fptr
  fdlock :: bool
  file_desc :: "fptr list"
  file_desc_entries :: nat
  cloexec_fds :: "u64 list"
  open_fds :: "u64 list"
  umask :: u32

text \<open>
  The kernel state a system call of the current process works on: the objects of
  \<^typ>\<open>'a vfs_scheme\<close>, the process's descriptor context, its soft limit on descriptors
  (\<open>RLIMIT_NOFILE\<close>) and the number of memory allocations made so far.
\<close>

record kst = vfs +
  ctx :: ioctx
  nofile_cur :: nat
  mem_ctr :: nat

text \<open>
  The environment of the kernel allocator. \<open>malloc_ok n\<close> says whether the \<open>n\<close>-th allocation
  succeeds; memory from \<open>malloc\<close> is not cleared, so what it holds is arbitrary: \<open>junk_ptr n i\<close>
  and \<open>junk_word n i\<close> are the \<open>i\<close>-th pointer or word of the \<open>n\<close>-th allocation.
\<close>

record kenv =
  malloc_ok :: "nat \<Rightarrow> bool"
  junk_ptr :: "nat \<Rightarrow> nat \<Rightarrow> fptr"
  junk_word :: "nat \<Rightarrow> nat \<Rightarrow> u64"

definition FDS_PER_LONG :: nat where "FDS_PER_LONG = 64"
definition FILE_DESCRIPTOR_GROW_NR :: nat where "FILE_DESCRIPTOR_GROW_NR = FDS_PER_LONG"

section \<open>Locks\<close>

definition spin_lock_fd :: "ioctx \<Rightarrow> ioctx option" where
  "spin_lock_fd c = (if fdlock c then None else Some (c\<lparr>fdlock := True\<rparr>))"

definition spin_unlock_fd :: "ioctx \<Rightarrow> ioctx option" where
  "spin_unlock_fd c = (if fdlock c then Some (c\<lparr>fdlock := False\<rparr>) else None)"

definition lock_fds :: "kst \<Rightarrow> kst option" where
  "lock_fds s = do { c \<leftarrow> spin_lock_fd (ctx s); Some (s\<lparr>ctx := c\<rparr>) }"

definition unlock_fds :: "kst \<Rightarrow> kst option" where
  "unlock_fds s = do { c \<leftarrow> spin_unlock_fd (ctx s); Some (s\<lparr>ctx := c\<rparr>) }"

section \<open>The bit accessors\<close>

definition fd_is_open :: "nat \<Rightarrow> ioctx \<Rightarrow> bool option" where
  "fd_is_open fd c = do {
     w \<leftarrow> array_get (open_fds c) (fd div FDS_PER_LONG);
     Some (mask_test w (fd mod FDS_PER_LONG))
   }"

definition validate_fd_number :: "int \<Rightarrow> ioctx \<Rightarrow> bool option" where
  "validate_fd_number fd c =
     (if fd < 0 then Some False
      else if file_desc_entries c \<le> nat fd then Some False
      else do {
        b \<leftarrow> fd_is_open (nat fd) c;
        if \<not> b then Some False else Some True
      })"

definition fd_close_bit :: "nat \<Rightarrow> ioctx \<Rightarrow> ioctx option" where
  "fd_close_bit fd c = do {
     w \<leftarrow> array_get (open_fds c) (fd div FDS_PER_LONG);
     ws \<leftarrow> array_set (open_fds c) (fd div FDS_PER_LONG) (mask_clear w (fd mod FDS_PER_LONG));
     Some (c\<lparr>open_fds := ws\<rparr>)
   }"

definition fd_set_cloexec :: "nat \<Rightarrow> bool \<Rightarrow> ioctx \<Rightarrow> ioctx option" where
  "fd_set_cloexec fd toggle c = do {
     w \<leftarrow> array_get (cloexec_fds c) (fd div FDS_PER_LONG);
     ws \<leftarrow> array_set (cloexec_fds c) (fd div FDS_PER_LONG)
            (if toggle then mask_set w (fd mod FDS_PER_LONG)
             else mask_clear w (fd mod FDS_PER_LONG));
     Some (c\<lparr>cloexec_fds := ws\<rparr>)
   }"

definition fd_set_open :: "nat \<Rightarrow> bool \<Rightarrow> ioctx \<Rightarrow> ioctx option" where
  "fd_set_open fd toggle c = do {
     w \<leftarrow> array_get (open_fds c) (fd div FDS_PER_LONG);
     ws \<leftarrow> array_set (open_fds c) (fd div FDS_PER_LONG)
            (if toggle then mask_set w (fd mod FDS_PER_LONG)
             else mask_clear w (fd mod FDS_PER_LONG));
     Some (c\<lparr>open_fds := ws\<rparr>)
   }"

definition fd_is_cloexec :: "nat \<Rightarrow> ioctx \<Rightarrow> bool option" where
  "fd_is_cloexec fd c = do {
     w \<leftarrow> array_get (cloexec_fds c) (fd div FDS_PER_LONG);
     Some (mask_test w (fd mod FDS_PER_LONG))
   }"

section \<open>Lookup and close\<close>

text \<open>A lookup returns \<open>Inl errno\<close> where the code returns a null pointer with \<open>errno\<close> set.\<close>

definition get_file_description_unlocked :: "int \<Rightarrow> kst \<Rightarrow> ((int + nat) \<times> kst) option" where
  "get_file_description_unlocked fd s = do {
     v \<leftarrow> validate_fd_number fd (ctx s);
     if \<not> v then Some (Inl EBADF, s)
     else do {
       p \<leftarrow> array_get (file_desc (ctx s)) (nat fd);
       f \<leftarrow> p;
       s' \<leftarrow> fd_get f s;
       Some (Inr f, s')
     }
   }"

definition get_file_description :: "int \<Rightarrow> kst \<Rightarrow> ((int + nat) \<times> kst) option" where
  "get_file_description fd s = do {
     s1 \<leftarrow> lock_fds s;
     (f, s2) \<leftarrow> get_file_description_unlocked fd s1;
     s3 \<leftarrow> unlock_fds s2;
     Some (f, s3)
   }"

definition file_close_unlocked :: "int \<Rightarrow> kst \<Rightarrow> (int \<times> kst) option" where
  "file_close_unlocked fd s = do {
     v \<leftarrow> validate_fd_number fd (ctx s);
     if \<not> v then Some (- EBADF, s)
     else do {
       p \<leftarrow> array_get (file_desc (ctx s)) (nat fd);
       f \<leftarrow> p;
       s1 \<leftarrow> fd_put f s;
       fds \<leftarrow> array_set (file_desc (ctx s1)) (nat fd) None;
       c \<leftarrow> fd_close_bit (nat fd) ((ctx s1)\<lparr>file_desc := fds\<rparr>);
       Some (0, s1\<lparr>ctx := c\<rparr>)
     }
   }"

definition file_close :: "int \<Rightarrow> kst \<Rightarrow> (int \<times> kst) option" where
  "file_close fd s = do {
     s1 \<leftarrow> lock_fds s;
     (ret, s2) \<leftarrow> file_close_unlocked fd s1;
     s3 \<leftarrow> unlock_fds s2;
     Some (ret, s3)
   }"

section \<open>Creation, growth and inheritance of tables\<close>

definition malloc :: "kenv \<Rightarrow> kst \<Rightarrow> bool \<times> kst" where
  "malloc E s = (malloc_ok E (mem_ctr s), s\<lparr>mem_ctr := mem_ctr s + 1\<rparr>)"

definition ALIGN_TO :: "nat \<Rightarrow> nat \<Rightarrow> nat" where
  "ALIGN_TO x y = (x + (y - 1)) div y * y"

text \<open>
  \<open>enlarge_file_descriptor_table\<close>: the size is an \<open>unsigned int\<close>; \<open>ALIGN_TO\<close> is computed on
  \<open>unsigned long\<close> and stored back into it. The \<open>memcpy\<close> of the old arrays into the new ones is undefined if the new
  table is smaller.
\<close>

definition enlarge_file_descriptor_table ::
  "kenv \<Rightarrow> nat \<Rightarrow> kst \<Rightarrow> (int \<times> kst) option" where
  "enlarge_file_descriptor_table E new_size s =
     (let old_nr_fds = file_desc_entries (ctx s);
          new_size = ALIGN_TO (new_size mod 2 ^ 32) FILE_DESCRIPTOR_GROW_NR mod 2 ^ 32
      in if INT_MAX < new_size \<or> nofile_cur s \<le> new_size then Some (- EBADF, s)
         else
           (let n0 = mem_ctr s;
                (ok1, s1) = malloc E s;
                (ok2, s2) = malloc E s1;
                (ok3, s3) = malloc E s2
            in if \<not> ok1 \<or> \<not> ok2 \<or> \<not> ok3
               then Some (- ENOMEM, s3\<lparr>ctx := (ctx s3)\<lparr>file_desc_entries := old_nr_fds\<rparr>\<rparr>)
               else if new_size < old_nr_fds then None
               else
                 Some (0, s3\<lparr>ctx := (ctx s3)\<lparr>
                   file_desc := take old_nr_fds (file_desc (ctx s3)) @
                     map (junk_ptr E n0) [old_nr_fds..<new_size],
                   cloexec_fds := take (old_nr_fds div FDS_PER_LONG) (cloexec_fds (ctx s3)) @
                     map (junk_word E (n0 + 1))
                       [old_nr_fds div FDS_PER_LONG..<new_size div FDS_PER_LONG],
                   open_fds := take (old_nr_fds div FDS_PER_LONG) (open_fds (ctx s3)) @
                     replicate (new_size div FDS_PER_LONG - old_nr_fds div FDS_PER_LONG) 0,
                   file_desc_entries := new_size\<rparr>\<rparr>)))"

definition allocate_file_descriptor_table :: "kenv \<Rightarrow> kst \<Rightarrow> int \<times> kst" where
  "allocate_file_descriptor_table E s =
     (let (ok1, s1) = malloc E s in
      if \<not> ok1 then (- ENOMEM, s1\<lparr>ctx := (ctx s1)\<lparr>file_desc := []\<rparr>\<rparr>)
      else
        (let c1 = (ctx s1)\<lparr>file_desc := replicate FILE_DESCRIPTOR_GROW_NR None,
                           file_desc_entries := FILE_DESCRIPTOR_GROW_NR\<rparr>;
             (ok2, s2) = malloc E s1
         in if \<not> ok2 then (- ENOMEM, s2\<lparr>ctx := c1\<lparr>file_desc := [], cloexec_fds := []\<rparr>\<rparr>)
            else
              (let c2 = c1\<lparr>cloexec_fds := replicate (FILE_DESCRIPTOR_GROW_NR div 64) 0\<rparr>;
                   (ok3, s3) = malloc E s2
               in if \<not> ok3
                  then (- 1, s3\<lparr>ctx := c2\<lparr>file_desc := [], cloexec_fds := [], open_fds := []\<rparr>\<rparr>)
                  else (0, s3\<lparr>ctx := c2\<lparr>open_fds :=
                            replicate (FILE_DESCRIPTOR_GROW_NR div 64) 0\<rparr>\<rparr>))))"

text \<open>
  \<open>copy_file_descriptors\<close> fills the context of a new process from the context \<open>c\<close> it
  inherits from. The loop copies slot \<open>i\<close> and takes a reference if the descriptor is open in
  the copy.
\<close>

fun copy_fds_loop :: "ioctx \<Rightarrow> nat list \<Rightarrow> ioctx \<Rightarrow> kst \<Rightarrow> (ioctx \<times> kst) option" where
  "copy_fds_loop c [] child s = Some (child, s)"
| "copy_fds_loop c (i # is) child s = do {
     p \<leftarrow> array_get (file_desc c) i;
     fds \<leftarrow> array_set (file_desc child) i p;
     let child' = child\<lparr>file_desc := fds\<rparr>;
     b \<leftarrow> fd_is_open i child';
     if b then do {
       f \<leftarrow> p;
       s' \<leftarrow> fd_get f s;
       copy_fds_loop c is child' s'
     }
     else copy_fds_loop c is child' s
   }"

definition copy_file_descriptors ::
  "kenv \<Rightarrow> ioctx \<Rightarrow> kst \<Rightarrow> (int \<times> ioctx \<times> kst) option" where
  "copy_file_descriptors E child s = do {
     s0 \<leftarrow> lock_fds s;
     let c = ctx s0;
     let n = file_desc_entries c;
     let n0 = mem_ctr s0;
     let (ok1, s1) = malloc E s0;
     let child1 = child\<lparr>file_desc := (if ok1 then map (junk_ptr E n0) [0..<n] else []),
                        file_desc_entries := n\<rparr>;
     if \<not> ok1 then do { s' \<leftarrow> unlock_fds s1; Some (- ENOMEM, child1, s') }
     else do {
       let (ok2, s2) = malloc E s1;
       if \<not> ok2 then do {
         s' \<leftarrow> unlock_fds s2;
         Some (- ENOMEM, child1\<lparr>file_desc := [], cloexec_fds := []\<rparr>, s')
       }
       else do {
         let (ok3, s3) = malloc E s2;
         if \<not> ok3 then do {
           s' \<leftarrow> unlock_fds s3;
           Some (- ENOMEM, child1\<lparr>file_desc := [], cloexec_fds := [], open_fds := []\<rparr>, s')
         }
         else do {
           let child2 = child1\<lparr>cloexec_fds := take (n div FDS_PER_LONG) (cloexec_fds c),
                               open_fds := take (n div FDS_PER_LONG) (open_fds c)\<rparr>;
           (child3, s4) \<leftarrow> copy_fds_loop c [0..<n] child2 s3;
           s' \<leftarrow> unlock_fds s4;
           Some (0, child3, s')
         }
       }
     }
   }"

fun destroy_fds_loop :: "ioctx \<Rightarrow> nat list \<Rightarrow> kst \<Rightarrow> kst option" where
  "destroy_fds_loop c [] s = Some s"
| "destroy_fds_loop c (i # is) s = do {
     b \<leftarrow> fd_is_open i c;
     if \<not> b then destroy_fds_loop c is s
     else do {
       p \<leftarrow> array_get (file_desc c) i;
       f \<leftarrow> p;
       s' \<leftarrow> fd_put f s;
       destroy_fds_loop c is s'
     }
   }"

definition process_destroy_file_descriptors :: "kst \<Rightarrow> kst option" where
  "process_destroy_file_descriptors s = do {
     s1 \<leftarrow> lock_fds s;
     s2 \<leftarrow> destroy_fds_loop (ctx s1) [0..<file_desc_entries (ctx s1)] s1;
     unlock_fds (s2\<lparr>ctx := (ctx s2)\<lparr>file_desc := [], file_desc_entries := 0\<rparr>\<rparr>)
   }"

section \<open>Allocation of descriptors\<close>

text \<open>\<open>__builtin_ctzl\<close>: the number of trailing zero bits; undefined on 0.\<close>

fun ctz_from :: "u64 \<Rightarrow> nat \<Rightarrow> nat \<Rightarrow> nat option" where
  "ctz_from w n 0 = None"
| "ctz_from w n (Suc k) = (if bit w n then Some n else ctz_from w (Suc n) k)"

definition builtin_ctzl :: "u64 \<Rightarrow> nat option" where
  "builtin_ctzl w = ctz_from w 0 64"

text \<open>The inner loop of \<open>alloc_fd\<close>: the first clear bit at or after \<open>j\<close> whose descriptor is
  not below \<open>fdbase\<close>. \<open>k\<close> counts the bits left.\<close>

fun alloc_fd_bits :: "nat \<Rightarrow> u64 \<Rightarrow> nat \<Rightarrow> nat \<Rightarrow> nat \<Rightarrow> nat option" where
  "alloc_fd_bits fdbase w i j 0 = None"
| "alloc_fd_bits fdbase w i j (Suc k) =
     (let fd = FDS_PER_LONG * i + j in
      if mask_test w j then alloc_fd_bits fdbase w i (Suc j) k
      else if fd < fdbase then alloc_fd_bits fdbase w i (Suc j) k
      else Some fd)"

text \<open>The outer loop over the words of \<open>open_fds\<close>. The result is \<open>None\<close> for undefined
  behaviour, \<open>Some None\<close> if no descriptor of the table can be used.\<close>

fun alloc_fd_longs :: "nat \<Rightarrow> u64 list \<Rightarrow> nat \<Rightarrow> nat \<Rightarrow> nat option option" where
  "alloc_fd_longs fdbase ws i 0 = Some None"
| "alloc_fd_longs fdbase ws i (Suc k) = do {
     w \<leftarrow> array_get ws i;
     if w = ULONG_MAX then alloc_fd_longs fdbase ws (Suc i) k
     else do {
       first_free \<leftarrow> builtin_ctzl (NOT w);
       case alloc_fd_bits fdbase w i first_free (FDS_PER_LONG - first_free) of
         Some fd \<Rightarrow> Some (Some fd)
       | None \<Rightarrow> alloc_fd_longs fdbase ws (Suc i) k
     }
   }"

partial_function (option) alloc_fd_loop :: "kenv \<Rightarrow> nat \<Rightarrow> kst \<Rightarrow> (int \<times> kst) option" where
  "alloc_fd_loop E fdbase s =
     (let starting_long = fdbase div FDS_PER_LONG;
          nr_longs = file_desc_entries (ctx s) div FDS_PER_LONG
      in Option.bind (alloc_fd_longs fdbase (open_fds (ctx s)) starting_long
             (nr_longs - starting_long))
           (\<lambda>found. case found of
              Some fd \<Rightarrow>
                (if nofile_cur s < fd
                 then Option.bind (unlock_fds s) (\<lambda>s'. Some (- EMFILE, s'))
                 else Option.bind (fd_set_open fd True (ctx s)) (\<lambda>c1.
                      Option.bind (fd_set_cloexec fd False c1) (\<lambda>c2.
                      Some (int fd, s\<lparr>ctx := c2\<rparr>))))
            | None \<Rightarrow>
                Option.bind (enlarge_file_descriptor_table E
                    (file_desc_entries (ctx s) + FILE_DESCRIPTOR_GROW_NR) s)
                  (\<lambda>(st, s'). if st < 0
                     then Option.bind (unlock_fds s') (\<lambda>s''. Some (- ENOMEM, s''))
                     else alloc_fd_loop E fdbase s')))"

text \<open>On success the descriptor lock stays held: the caller fills the slot and unlocks.\<close>

definition alloc_fd :: "kenv \<Rightarrow> int \<Rightarrow> kst \<Rightarrow> (int \<times> kst) option" where
  "alloc_fd E fdbase s =
     (if fdbase < 0 \<or> fdbase = int INT_MAX \<or> nofile_cur s \<le> nat fdbase
      then Some (- EBADF, s)
      else do {
        s1 \<leftarrow> lock_fds s;
        alloc_fd_loop E (nat fdbase) s1
      })"

definition file_alloc :: "kenv \<Rightarrow> nat \<Rightarrow> kst \<Rightarrow> (int \<times> kst) option" where
  "file_alloc E f s = do {
     (filedesc, s1) \<leftarrow> alloc_fd E 0 s;
     if filedesc < 0 then Some (filedesc, s1)
     else do {
       fds \<leftarrow> array_set (file_desc (ctx s1)) (nat filedesc) (Some f);
       s2 \<leftarrow> fd_get f (s1\<lparr>ctx := (ctx s1)\<lparr>file_desc := fds\<rparr>\<rparr>);
       Some (filedesc, s2)
     }
   }"

section \<open>Close-on-exec\<close>

text \<open>The loop reads the table pointer once (\<open>fds\<close> aliases the context's array, which the
  close updates in place).\<close>

fun cloexec_loop :: "nat list \<Rightarrow> kst \<Rightarrow> kst option" where
  "cloexec_loop [] s = Some s"
| "cloexec_loop (i # is) s = do {
     p \<leftarrow> array_get (file_desc (ctx s)) i;
     if p = None then cloexec_loop is s
     else do {
       b \<leftarrow> fd_is_cloexec i (ctx s);
       if b then do { (ret, s') \<leftarrow> file_close_unlocked (int i) s; cloexec_loop is s' }
       else cloexec_loop is s
     }
   }"

definition file_do_cloexec :: "kst \<Rightarrow> kst option" where
  "file_do_cloexec s = do {
     s1 \<leftarrow> lock_fds s;
     s2 \<leftarrow> cloexec_loop [0..<file_desc_entries (ctx s1)] s1;
     unlock_fds s2
   }"

end
