(* ===== verification/Fd_Invariant.thy ===== *)
theory Fd_Invariant
  imports Fd_Table
begin

text \<open>
  Correctness of the descriptor table's operations. The two bitmaps are bit fields (an
  interpretation of \<open>bit_field\<close> each); a table abstracts to the finite map \<open>fdtab\<close> from
  descriptors to file descriptions and close-on-exec flags; \<open>fd_inv\<close> is the invariant that
  ties the counts of the file descriptions to the references the table, the working directory
  and the rest of the kernel (\<open>ext\<close>) hold. For each operation a lemma \<open><operation>_wp\<close> says that it
  is safe under the invariant, keeps it, and what it does to the abstract table.
\<close>

unbundle bit_operations_syntax

section \<open>The bitmaps as bit fields\<close>

lemma fd_is_open_alt: "fd_is_open fd c =
    (if fd div 64 < length (open_fds c) then Some (bit (open_fds c ! (fd div 64)) (fd mod 64)) else None)"
  by (simp add: fd_is_open_def FDS_PER_LONG_def mask_simps array_get_def)

lemma fd_is_cloexec_alt: "fd_is_cloexec fd c =
    (if fd div 64 < length (cloexec_fds c) then Some (bit (cloexec_fds c ! (fd div 64)) (fd mod 64))
     else None)"
  by (simp add: fd_is_cloexec_def FDS_PER_LONG_def mask_simps array_get_def)

lemma fd_set_open_alt: "fd_set_open fd v c =
    (if fd div 64 < length (open_fds c)
     then Some (c\<lparr>open_fds := (open_fds c)[fd div 64 :=
            (if v then mask_set else mask_clear) (open_fds c ! (fd div 64)) (fd mod 64)]\<rparr>)
     else None)"
  by (auto simp: fd_set_open_def FDS_PER_LONG_def array_get_def)

lemma fd_set_cloexec_alt: "fd_set_cloexec fd v c =
    (if fd div 64 < length (cloexec_fds c)
     then Some (c\<lparr>cloexec_fds := (cloexec_fds c)[fd div 64 :=
            (if v then mask_set else mask_clear) (cloexec_fds c ! (fd div 64)) (fd mod 64)]\<rparr>)
     else None)"
  by (auto simp: fd_set_cloexec_def FDS_PER_LONG_def array_get_def)

lemma fd_close_bit_eq: "fd_close_bit fd c = fd_set_open fd False c"
  by (simp add: fd_close_bit_def fd_set_open_def)

lemma div_mod_64_eq: "(i::nat) div 64 = j div 64 \<Longrightarrow> i mod 64 = j mod 64 \<longleftrightarrow> i = j"
  by (metis div_mult_mod_eq)

lemma div_64_less: "(i::nat) div 64 < n \<longleftrightarrow> i < 64 * n"
  by (simp add: div_less_iff_less_mult mult.commute)

interpretation open_bits: bit_field "\<lambda>c i. fd_is_open i c" "\<lambda>c i v. fd_set_open i v c"
    "\<lambda>c. 64 * length (open_fds c)"
  by unfold_locales
    (auto simp: fd_is_open_alt fd_set_open_alt nth_list_update mask_simps div_mod_64_eq div_64_less
      split: if_splits)

interpretation cloexec_bits: bit_field "\<lambda>c i. fd_is_cloexec i c" "\<lambda>c i v. fd_set_cloexec i v c"
    "\<lambda>c. 64 * length (cloexec_fds c)"
  by unfold_locales
    (auto simp: fd_is_cloexec_alt fd_set_cloexec_alt nth_list_update mask_simps div_mod_64_eq div_64_less
      split: if_splits)

section \<open>The abstract table\<close>

definition fdtab :: "ioctx \<Rightarrow> nat \<Rightarrow> (nat \<times> bool) option" where
  "fdtab c fd =
     (if fd < file_desc_entries c \<and> fd_is_open fd c = Some True
      then map_option (\<lambda>f. (f, fd_is_cloexec fd c = Some True)) (file_desc c ! fd)
      else None)"

definition ctx_wf :: "ioctx \<Rightarrow> bool" where
  "ctx_wf c \<longleftrightarrow>
     length (file_desc c) = file_desc_entries c \<and> file_desc_entries c \<le> INT_MAX \<and>
     64 * length (open_fds c) = file_desc_entries c \<and>
     64 * length (cloexec_fds c) = file_desc_entries c"

text \<open>Every open descriptor has a file description.\<close>

definition fds_filled :: "ioctx \<Rightarrow> bool" where
  "fds_filled c \<longleftrightarrow> (\<forall>fd. fd_is_open fd c = Some True \<longrightarrow> fdtab c fd \<noteq> None)"

definition holders :: "ioctx \<Rightarrow> nat \<Rightarrow> nat set" where
  "holders c f = {fd. \<exists>b. fdtab c fd = Some (f, b)}"

definition ctx_refs :: "ioctx \<Rightarrow> nat \<Rightarrow> nat" where
  "ctx_refs c f = card (holders c f) + of_bool (cwd c = Some f)"

definition fd_inv :: "(nat \<Rightarrow> nat) \<Rightarrow> (nat \<Rightarrow> nat) \<Rightarrow> (nat \<Rightarrow> nat) \<Rightarrow> kst \<Rightarrow> bool" where
  "fd_inv iext dext ext s \<longleftrightarrow>
     ctx_wf (ctx s) \<and> fds_filled (ctx s) \<and> vfs_inv iext dext s \<and>
     (\<forall>f. fcount s f = ext f + ctx_refs (ctx s) f)"

definition unlocked :: "kst \<Rightarrow> bool" where
  "unlocked s \<longleftrightarrow> \<not> fdlock (ctx s) \<and> \<not> cwd_lock (ctx s)"

lemma fdtab_bound: "fdtab c fd = Some x \<Longrightarrow> fd < file_desc_entries c"
  by (auto simp: fdtab_def split: if_splits)

lemma finite_holders [simp]: "finite (holders c f)"
  by (rule finite_subset [of _ "{..<file_desc_entries c}"]) (auto simp: holders_def dest: fdtab_bound)

lemma holders_upd:
  assumes "fdtab c' = (fdtab c)(i := v)"
  shows "card (holders c' f) + of_bool (i \<in> holders c f) =
    card (holders c f) + of_bool (\<exists>b. v = Some (f, b))"
proof -
  have "holders c' f = (if \<exists>b. v = Some (f, b) then insert i (holders c f) else holders c f - {i})"
    using assms by (auto simp: holders_def)
  then show ?thesis
    using card_Suc_Diff1 [of "holders c f" i] by (auto simp: card_insert_if)
qed

lemma ctx_refs_upd:
  assumes "fdtab c' = (fdtab c)(i := v)" "cwd c' = cwd c"
  shows "ctx_refs c' f + of_bool (i \<in> holders c f) = ctx_refs c f + of_bool (\<exists>b. v = Some (f, b))"
  using holders_upd [OF assms(1), of f] assms(2) by (simp add: ctx_refs_def)

lemma ctx_refs_same:
  assumes "fdtab c' = fdtab c" "cwd c' = cwd c"
  shows "ctx_refs c' = ctx_refs c"
  using assms by (simp add: ctx_refs_def holders_def fun_eq_iff)


definition fd_lookup :: "ioctx \<Rightarrow> int \<Rightarrow> (nat \<times> bool) option" where
  "fd_lookup c fd = (if fd < 0 then None else fdtab c (nat fd))"

definition ctx_frame :: "ioctx \<Rightarrow> ioctx \<Rightarrow> bool" where
  "ctx_frame c c' \<longleftrightarrow> cwd_lock c' = cwd_lock c \<and> cwd c' = cwd c \<and> fdlock c' = fdlock c \<and> umask c' = umask c"

definition same_files :: "kst \<Rightarrow> kst \<Rightarrow> bool" where
  "same_files s s' \<longleftrightarrow> (\<forall>g. same_file g s s') \<and> nofile_cur s' = nofile_cur s"

lemma refs_frame_kst:
  fixes s s' :: kst
  assumes "refs_frame s s'"
  shows "ctx s' = ctx s" "nofile_cur s' = nofile_cur s" "mem_ctr s' = mem_ctr s" "same_files s s'"
  using assms by (cases s; cases s'; simp add: refs_frame_def same_files_def)+

lemma ctx_upd_simps [simp]:
  fixes s :: kst
  shows "fcount (s\<lparr>ctx := c\<rparr>) = fcount s" "vfs_inv iext dext (s\<lparr>ctx := c\<rparr>) = vfs_inv iext dext s"
    "same_file g s (s\<lparr>ctx := c\<rparr>)" "same_file g (s\<lparr>ctx := c\<rparr>) s' = same_file g s s'"
    "same_file g s' (s\<lparr>ctx := c\<rparr>) = same_file g s' s"
    "fcount (s\<lparr>mem_ctr := m\<rparr>) = fcount s" "vfs_inv iext dext (s\<lparr>mem_ctr := m\<rparr>) = vfs_inv iext dext s"
    "same_file g s (s\<lparr>mem_ctr := m\<rparr>)" "same_file g s' (s\<lparr>mem_ctr := m\<rparr>) = same_file g s' s"
  by (simp_all add: fcount_def fun_eq_iff vfs_inv_def dcount_def ino_users_def dentry_users_def same_file_def)

lemma same_files_refl [simp]: "same_files s s"
  by (simp add: same_files_def same_file_def)

lemma same_files_upd [simp]:
  "same_files s (t\<lparr>ctx := c\<rparr>) = same_files s t" "same_files (s\<lparr>ctx := c\<rparr>) t = same_files s t"
  "same_files s (t\<lparr>mem_ctr := m\<rparr>) = same_files s t"
  by (simp_all add: same_files_def)

lemma same_files_trans: "same_files s t \<Longrightarrow> same_files t u \<Longrightarrow> same_files s u"
  by (auto simp: same_files_def intro: same_file_trans)

lemma open_bound: "ctx_wf c \<Longrightarrow> fd_is_open fd c = Some True \<Longrightarrow> fd < file_desc_entries c"
  by (auto simp: ctx_wf_def fd_is_open_alt div_64_less split: if_splits)

lemma fdtab_None: "ctx_wf c \<Longrightarrow> fds_filled c \<Longrightarrow> fdtab c fd = None \<longleftrightarrow> fd_is_open fd c \<noteq> Some True"
  by (auto simp: fds_filled_def fdtab_def split: if_splits)

lemma validate_fd_number_eq:
  assumes "ctx_wf c" "fds_filled c"
  shows "validate_fd_number fd c = Some (fd_lookup c fd \<noteq> None)"
proof (cases "0 \<le> fd \<and> nat fd < file_desc_entries c")
  case True
  then obtain b where b: "fd_is_open (nat fd) c = Some b"
    using assms open_bits.rd_in [of "nat fd" c] by (auto simp: ctx_wf_def)
  then show ?thesis
    using True fdtab_None [OF assms, of "nat fd"] by (auto simp: validate_fd_number_def fd_lookup_def)
next
  case False
  then show ?thesis by (auto simp: validate_fd_number_def fd_lookup_def fdtab_def)
qed

lemma fd_lookup_Some:
  assumes "ctx_wf c" "fd_lookup c fd = Some (f, b)"
  shows "0 \<le> fd" "nat fd < length (file_desc c)" "nat fd < file_desc_entries c" "file_desc c ! nat fd = Some f"
    "fd_is_open (nat fd) c = Some True" "nat fd \<in> holders c f" "fdtab c (nat fd) = Some (f, b)"
  using assms by (auto simp: fd_lookup_def fdtab_def ctx_wf_def holders_def split: if_splits)

lemma fd_inv_count_pos:
  assumes "fd_inv iext dext ext s" "fdtab (ctx s) fd = Some (f, b)"
  shows "0 < fcount s f"
proof -
  have "fd \<in> holders (ctx s) f" using assms(2) by (auto simp: holders_def)
  then have "0 < card (holders (ctx s) f)" by (auto simp: card_gt_0_iff)
  then show ?thesis using assms(1) by (auto simp: fd_inv_def ctx_refs_def)
qed

lemma get_file_description_unlocked_wp:
  assumes "fd_inv iext dext ext s"
  shows "wp (get_file_description_unlocked fd s) (\<lambda>(r, s'). ctx s' = ctx s \<and> same_files s s' \<and>
      mem_ctr s' = mem_ctr s \<and>
      (case fd_lookup (ctx s) fd of None \<Rightarrow> r = Inl EBADF \<and> s' = s
       | Some (f, b) \<Rightarrow> r = Inr f \<and> fd_inv iext dext (ext(f := ext f + 1)) s'))"
proof (cases "fd_lookup (ctx s) fd")
  case None
  then show ?thesis
    using assms by (simp add: get_file_description_unlocked_def fd_inv_def validate_fd_number_eq wp_simps)
next
  case (Some fb)
  then obtain f b where fb: "fd_lookup (ctx s) fd = Some (f, b)" by (cases fb) auto
  have wf: "ctx_wf (ctx s)" "fds_filled (ctx s)" "vfs_inv iext dext s"
    using assms by (auto simp: fd_inv_def)
  note lk = fd_lookup_Some [OF wf(1) fb]
  have "wp (fd_get f s) (\<lambda>s'. vfs_inv iext dext s' \<and>
      fcount s' = (fcount s)(f := fcount s f + 1) \<and> refs_frame s s')"
    by (rule fd_get_wp [OF wf(3) fd_inv_count_pos [OF assms lk(7)]])
  then show ?thesis
    using assms fb lk wf
    by (auto simp: get_file_description_unlocked_def validate_fd_number_eq wp_simps fd_inv_def
        refs_frame_kst elim!: wp_mono)
qed


lemma fd_set_open_simps:
  assumes "fd_set_open fd v c = Some c'"
  shows "file_desc c' = file_desc c" "file_desc_entries c' = file_desc_entries c"
    "cloexec_fds c' = cloexec_fds c" "length (open_fds c') = length (open_fds c)"
    "ctx_frame c c'" "fd_is_cloexec j c' = fd_is_cloexec j c"
    "fd_is_open j c' = (if j = fd then Some v else fd_is_open j c)"
  using assms open_bits.rd_wr [OF assms, of j]
  by (auto simp: fd_set_open_alt ctx_frame_def fd_is_cloexec_alt split: if_splits)

lemma fd_set_cloexec_simps:
  assumes "fd_set_cloexec fd v c = Some c'"
  shows "file_desc c' = file_desc c" "file_desc_entries c' = file_desc_entries c"
    "open_fds c' = open_fds c" "length (cloexec_fds c') = length (cloexec_fds c)"
    "ctx_frame c c'" "fd_is_open j c' = fd_is_open j c"
    "fd_is_cloexec j c' = (if j = fd then Some v else fd_is_cloexec j c)"
  using assms cloexec_bits.rd_wr [OF assms, of j]
  by (auto simp: fd_set_cloexec_alt ctx_frame_def fd_is_open_alt split: if_splits)

lemma wp_fd_set_open:
  assumes "ctx_wf c" "fd < file_desc_entries c"
  shows "wp (fd_set_open fd v c) (\<lambda>c'. ctx_wf c' \<and> file_desc c' = file_desc c \<and>
      file_desc_entries c' = file_desc_entries c \<and> ctx_frame c c' \<and>
      (\<forall>j. fd_is_cloexec j c' = fd_is_cloexec j c) \<and>
      (\<forall>j. fd_is_open j c' = (if j = fd then Some v else fd_is_open j c)))"
proof -
  obtain c' where c': "fd_set_open fd v c = Some c'"
    using open_bits.wr_in [of fd c v] assms by (auto simp: ctx_wf_def)
  show ?thesis
    using fd_set_open_simps [OF c'] c' assms by (auto simp: wp_simps ctx_wf_def)
qed

lemma wp_fd_set_cloexec:
  assumes "ctx_wf c" "fd < file_desc_entries c"
  shows "wp (fd_set_cloexec fd v c) (\<lambda>c'. ctx_wf c' \<and> file_desc c' = file_desc c \<and>
      file_desc_entries c' = file_desc_entries c \<and> ctx_frame c c' \<and>
      (\<forall>j. fd_is_open j c' = fd_is_open j c) \<and>
      (\<forall>j. fd_is_cloexec j c' = (if j = fd then Some v else fd_is_cloexec j c)))"
proof -
  obtain c' where c': "fd_set_cloexec fd v c = Some c'"
    using cloexec_bits.wr_in [of fd c v] assms by (auto simp: ctx_wf_def)
  show ?thesis
    using fd_set_cloexec_simps [OF c'] c' assms by (auto simp: wp_simps ctx_wf_def)
qed

lemma bits_file_desc [simp]:
  "fd_is_open j (c\<lparr>file_desc := fds\<rparr>) = fd_is_open j c"
  "fd_is_cloexec j (c\<lparr>file_desc := fds\<rparr>) = fd_is_cloexec j c"
  "fd_is_open j (c\<lparr>fdlock := l\<rparr>) = fd_is_open j c"
  "fd_is_cloexec j (c\<lparr>fdlock := l\<rparr>) = fd_is_cloexec j c"
  "fd_is_open j (c\<lparr>cwd := p\<rparr>) = fd_is_open j c"
  "fd_is_cloexec j (c\<lparr>cwd := p\<rparr>) = fd_is_cloexec j c"
  "fd_is_open j (c\<lparr>cwd_lock := l\<rparr>) = fd_is_open j c"
  "fd_is_cloexec j (c\<lparr>cwd_lock := l\<rparr>) = fd_is_cloexec j c"
  "fd_is_open j (c\<lparr>umask := m\<rparr>) = fd_is_open j c"
  "fd_is_cloexec j (c\<lparr>umask := m\<rparr>) = fd_is_cloexec j c"
  by (simp_all add: fd_is_open_alt fd_is_cloexec_alt)

lemma ctx_frame_file_desc [simp]:
  "ctx_frame (c\<lparr>file_desc := fds\<rparr>) c' = ctx_frame c c'" "ctx_frame c c"
  by (auto simp: ctx_frame_def)

lemma ctx_frame_trans: "ctx_frame a b \<Longrightarrow> ctx_frame b c \<Longrightarrow> ctx_frame a c"
  by (simp add: ctx_frame_def)

lemma fdtab_local:
  assumes "file_desc_entries c' = file_desc_entries c"
    "\<And>j. j \<noteq> fd \<Longrightarrow> file_desc c' ! j = file_desc c ! j"
    "\<And>j. j \<noteq> fd \<Longrightarrow> fd_is_open j c' = fd_is_open j c"
    "\<And>j. j \<noteq> fd \<Longrightarrow> fd_is_cloexec j c' = fd_is_cloexec j c"
  shows "fdtab c' = (fdtab c)(fd := fdtab c' fd)"
  using assms by (auto simp: fdtab_def fun_eq_iff)

lemma fds_filled_local:
  assumes "\<And>j. j \<noteq> fd \<Longrightarrow> fd_is_open j c' = fd_is_open j c" "fds_filled c"
    "fdtab c' = (fdtab c)(fd := x)" "fd_is_open fd c' = Some True \<Longrightarrow> x \<noteq> None"
  shows "fds_filled c'"
  using assms by (auto simp: fds_filled_def)

text \<open>The close of an open descriptor, on the context alone.\<close>

lemma close_ctx_wp:
  assumes "ctx_wf c" "fds_filled c" "fd < file_desc_entries c"
  shows "wp (fd_close_bit fd (c\<lparr>file_desc := (file_desc c)[fd := None]\<rparr>)) (\<lambda>c'.
      ctx_wf c' \<and> fds_filled c' \<and> fdtab c' = (fdtab c)(fd := None) \<and> ctx_frame c c' \<and>
      file_desc_entries c' = file_desc_entries c)"
proof -
  let ?c = "c\<lparr>file_desc := (file_desc c)[fd := None]\<rparr>"
  have wf: "ctx_wf ?c" using assms(1) by (simp add: ctx_wf_def)
  show ?thesis
    unfolding fd_close_bit_eq
  proof (rule wp_mono [OF wp_fd_set_open [OF wf]], goal_cases)
    case (2 c')
    then have "fdtab c' fd = None" by (simp add: fdtab_def)
    then have tab: "fdtab c' = (fdtab c)(fd := None)"
      using 2 fdtab_local [of c' c fd] by simp
    moreover have "fds_filled c'"
      by (rule fds_filled_local [OF _ assms(2) tab]) (use 2 in auto)
    ultimately show ?case using 2 by simp
  qed (use assms in simp)
qed

text \<open>How the invariant moves when one slot changes: \<open>ext\<close> becomes \<open>ext'\<close> where the counts
  changed on behalf of the slot or of an outside holder.\<close>

lemma fd_inv_slot:
  assumes inv: "fd_inv iext dext ext s" and s1: "vfs_inv iext dext s1"
    and c': "ctx_wf c'" "fds_filled c'" "fdtab c' = (fdtab (ctx s))(fd := v)" "cwd c' = cwd (ctx s)"
    and cnt: "\<And>g. fcount s1 g + ext g + of_bool (fd \<in> holders (ctx s) g) =
        fcount s g + ext' g + of_bool (\<exists>b. v = Some (g, b))"
  shows "fd_inv iext dext ext' (s1\<lparr>ctx := c'\<rparr>)"
proof -
  have "fcount s1 g = ext' g + ctx_refs c' g" for g
    using cnt [of g] ctx_refs_upd [OF c'(3,4), of g] inv by (simp add: fd_inv_def)
  then show ?thesis using c' s1 by (simp add: fd_inv_def)
qed

lemma holders_slot: "fdtab c fd = Some (f, b) \<Longrightarrow> fd \<in> holders c g \<longleftrightarrow> g = f"
  by (auto simp: holders_def)

lemma holders_free: "fdtab c fd = None \<Longrightarrow> fd \<notin> holders c g"
  by (auto simp: holders_def)

lemma file_close_unlocked_wp:
  assumes inv: "fd_inv iext dext ext s"
  shows "wp (file_close_unlocked fd s) (\<lambda>(r, s').
      fd_inv iext dext ext s' \<and> same_files s s' \<and> ctx_frame (ctx s) (ctx s') \<and>
      file_desc_entries (ctx s') = file_desc_entries (ctx s) \<and>
      (if fd_lookup (ctx s) fd = None then r = - EBADF \<and> s' = s
       else r = 0 \<and> fdtab (ctx s') = (fdtab (ctx s))(nat fd := None)))"
proof (cases "fd_lookup (ctx s) fd")
  case None
  then show ?thesis
    using inv by (simp add: file_close_unlocked_def fd_inv_def validate_fd_number_eq wp_simps)
next
  case (Some fb)
  then obtain f b where fb: "fd_lookup (ctx s) fd = Some (f, b)" by (cases fb) auto
  have wf: "ctx_wf (ctx s)" "fds_filled (ctx s)" "vfs_inv iext dext s"
    using inv by (auto simp: fd_inv_def)
  note lk = fd_lookup_Some [OF wf(1) fb]
  note pos = fd_inv_count_pos [OF inv lk(7)]
  have cl: "wp (fd_close_bit (nat fd) ((ctx s)\<lparr>file_desc := (file_desc (ctx s))[nat fd := None]\<rparr>))
      (\<lambda>c'. fd_inv iext dext ext (s1\<lparr>ctx := c'\<rparr>) \<and> ctx_frame (ctx s) c' \<and>
        file_desc_entries c' = file_desc_entries (ctx s) \<and>
        fdtab c' = (fdtab (ctx s))(nat fd := None))"
    if s1: "vfs_inv iext dext s1" "fcount s1 = (fcount s)(f := fcount s f - 1)" for s1 :: kst
    by (rule wp_mono [OF close_ctx_wp [OF wf(1,2) lk(3)]])
      (use pos lk(7) in \<open>auto simp: ctx_frame_def s1(2) holders_slot intro!: fd_inv_slot [OF inv s1(1)]\<close>)
  show ?thesis
    unfolding file_close_unlocked_def validate_fd_number_eq [OF wf(1,2)]
    using fb lk
    by (simp add: wp_simps)
      (rule wp_mono [OF fd_put_wp [OF wf(3) pos]],
        auto simp: refs_frame_kst intro!: wp_mono [OF cl])
qed


section \<open>Locking\<close>

lemma fd_inv_lock [simp]:
  "fd_inv iext dext ext (s\<lparr>ctx := (ctx s)\<lparr>fdlock := l\<rparr>\<rparr>) = fd_inv iext dext ext s"
proof -
  have "fdtab (c\<lparr>fdlock := l\<rparr>) = fdtab c" for c by (simp add: fdtab_def fun_eq_iff)
  then show ?thesis
    by (simp add: fd_inv_def ctx_wf_def fds_filled_def ctx_refs_def holders_def)
qed

lemma fdtab_lock [simp]: "fdtab (c\<lparr>fdlock := l\<rparr>) = fdtab c" "fdtab (c\<lparr>cwd_lock := l\<rparr>) = fdtab c"
  by (simp_all add: fdtab_def fun_eq_iff)

lemma fd_lookup_lock [simp]: "fd_lookup (c\<lparr>fdlock := l\<rparr>) = fd_lookup c"
  by (simp add: fd_lookup_def fun_eq_iff)

lemma wp_lock_fds [wp_simps]:
  "wp (lock_fds s) Q \<longleftrightarrow> \<not> fdlock (ctx s) \<and> Q (s\<lparr>ctx := (ctx s)\<lparr>fdlock := True\<rparr>\<rparr>)"
  by (simp add: lock_fds_def spin_lock_fd_def wp_def)

lemma wp_unlock_fds [wp_simps]:
  "wp (unlock_fds s) Q \<longleftrightarrow> fdlock (ctx s) \<and> Q (s\<lparr>ctx := (ctx s)\<lparr>fdlock := False\<rparr>\<rparr>)"
  by (simp add: unlock_fds_def spin_unlock_fd_def wp_def)

text \<open>A reference held by the caller can be dropped.\<close>

lemma fd_put_inv_wp:
  assumes inv: "fd_inv iext dext ext' s" and ext': "ext' = ext(f := ext f + 1)"
  shows "wp (fd_put f s) (\<lambda>s'. fd_inv iext dext ext s' \<and> ctx s' = ctx s \<and> same_files s s' \<and>
      mem_ctr s' = mem_ctr s)"
proof -
  have "vfs_inv iext dext s" "0 < fcount s f" using inv by (auto simp: fd_inv_def ext')
  then show ?thesis
    by (rule wp_mono [OF fd_put_wp]) (use inv in \<open>auto simp: fd_inv_def ext' refs_frame_kst\<close>)
qed

lemma get_file_description_wp:
  assumes "fd_inv iext dext ext s" "\<not> fdlock (ctx s)"
  shows "wp (get_file_description fd s) (\<lambda>(r, s'). ctx s' = ctx s \<and> same_files s s' \<and>
      mem_ctr s' = mem_ctr s \<and>
      (case fd_lookup (ctx s) fd of None \<Rightarrow> r = Inl EBADF \<and> s' = s
       | Some (f, b) \<Rightarrow> r = Inr f \<and> fd_inv iext dext (ext(f := ext f + 1)) s'))"
  unfolding get_file_description_def wp_simps
  using assms
  apply (simp add: wp_simps)
  apply (rule wp_mono [OF get_file_description_unlocked_wp [where iext = iext and dext = dext and ext = ext]])
  apply simp
  apply (auto simp: wp_simps split: option.splits)
  done

lemma file_close_wp:
  assumes "fd_inv iext dext ext s" "\<not> fdlock (ctx s)"
  shows "wp (file_close fd s) (\<lambda>(r, s').
      fd_inv iext dext ext s' \<and> same_files s s' \<and> ctx_frame (ctx s) (ctx s') \<and>
      (if fd_lookup (ctx s) fd = None then r = - EBADF \<and> s' = s
       else r = 0 \<and> fdtab (ctx s') = (fdtab (ctx s))(nat fd := None)))"
  unfolding file_close_def wp_simps
  using assms
  apply (simp add: wp_simps)
  apply (rule wp_mono [OF file_close_unlocked_wp [where iext = iext and dext = dext and ext = ext]])
  apply simp
  apply (auto simp: wp_simps ctx_frame_def split: if_splits)
  done

lemma same_files_mem [simp]: "same_files (s\<lparr>mem_ctr := m\<rparr>) t = same_files s t"
  by (simp add: same_files_def same_file_def)

lemma fd_inv_mem [simp]: "fd_inv iext dext ext (s\<lparr>mem_ctr := m\<rparr>) = fd_inv iext dext ext s"
  by (simp add: fd_inv_def)

lemma ctx_unlocked [simp]: "\<not> fdlock c \<Longrightarrow> c\<lparr>fdlock := False\<rparr> = c"
  by simp

end
