(* ===== verification/Fd_Alloc.thy ===== *)
theory Fd_Alloc
  imports Fd_Invariant
begin

text \<open>
  Correctness of the descriptor allocator of \<open>file.cpp\<close>. The scan of the \<open>open_fds\<close> words finds
  the lowest free descriptor that is not below the base (\<open>alloc_fd_scan\<close>), enlarging keeps the
  abstract table (\<open>enlarge_wp\<close>), and the loop ends because every round makes the table
  larger (\<open>alloc_fd_loop_wp\<close>).
\<close>

unbundle bit_operations_syntax

section \<open>Growing the table\<close>

lemma ALIGN_TO_props:
  assumes "0 < y"
  shows "x \<le> ALIGN_TO x y" "y dvd ALIGN_TO x y" "ALIGN_TO x y < x + y"
proof -
  have "x + (y - 1) = (x + (y - 1)) div y * y + (x + (y - 1)) mod y" by simp
  moreover have "(x + (y - 1)) mod y < y" using assms by simp
  ultimately show "x \<le> ALIGN_TO x y" "ALIGN_TO x y < x + y"
    unfolding ALIGN_TO_def using assms by linarith+
qed (simp add: ALIGN_TO_def)

lemma ALIGN_TO_id: "0 < y \<Longrightarrow> y dvd x \<Longrightarrow> ALIGN_TO x y = x"
proof (elim dvdE)
  fix k assume "0 < y" "x = y * k"
  then have "((y - 1) + y * k) div y = k + (y - 1) div y" by (intro div_mult_self2) simp
  then show "ALIGN_TO x y = x" using \<open>0 < y\<close> \<open>x = y * k\<close>
    by (simp only: ALIGN_TO_def add.commute mult.commute) simp
qed

text \<open>The copied arrays: old contents first, fresh words after.\<close>

lemma nth_take_append:
  "length xs = n \<Longrightarrow> i < n \<Longrightarrow> (take n xs @ ys) ! i = xs ! i"
  "length xs = n \<Longrightarrow> (take n xs @ ys) ! (n + i) = ys ! i"
  by (simp_all add: nth_append)

definition grown :: "ioctx \<Rightarrow> ioctx \<Rightarrow> bool" where
  "grown c c' \<longleftrightarrow> ctx_wf c' \<and> file_desc_entries c \<le> file_desc_entries c' \<and> ctx_frame c c' \<and>
     (\<forall>fd < file_desc_entries c. file_desc c' ! fd = file_desc c ! fd \<and>
        fd_is_open fd c' = fd_is_open fd c \<and> fd_is_cloexec fd c' = fd_is_cloexec fd c) \<and>
     (\<forall>fd. file_desc_entries c \<le> fd \<longrightarrow> fd_is_open fd c' \<noteq> Some True)"

lemma grown_fdtab:
  assumes "ctx_wf c" "fds_filled c" "grown c c'"
  shows "fdtab c' = fdtab c" "fds_filled c'"
proof -
  show tab: "fdtab c' = fdtab c"
  proof
    fix fd show "fdtab c' fd = fdtab c fd"
      using assms by (cases "fd < file_desc_entries c") (auto simp: fdtab_def grown_def)
  qed
  show "fds_filled c'"
    unfolding fds_filled_def tab
    using assms open_bound [OF assms(1)] by (metis fds_filled_def grown_def not_le)
qed

lemma enlarge_grown:
  assumes wf: "ctx_wf c" and m: "file_desc_entries c \<le> m" "64 dvd m" "m \<le> INT_MAX"
    and c': "c' = c\<lparr>
        file_desc := take (file_desc_entries c) (file_desc c) @ map p [file_desc_entries c..<m],
        cloexec_fds := take (file_desc_entries c div 64) (cloexec_fds c) @
          map w [file_desc_entries c div 64..<m div 64],
        open_fds := take (file_desc_entries c div 64) (open_fds c) @
          replicate (m div 64 - file_desc_entries c div 64) 0,
        file_desc_entries := m\<rparr>"
  shows "grown c c'"
proof -
  define k where "k = length (open_fds c)"
  have k: "file_desc_entries c = 64 * k" "length (cloexec_fds c) = k" "length (file_desc c) = 64 * k"
    using wf by (auto simp: ctx_wf_def k_def)
  obtain l where l: "m = 64 * l" using m(2) by (auto elim!: dvdE)
  have kl: "k \<le> l" using m(1) k l by simp
  have old: "fd div 64 < k" if "fd < 64 * k" for fd using that by (simp add: div_64_less)
  have new: "k \<le> fd div 64" if "64 * k \<le> fd" for fd using that by (metis div_64_less not_le)
  have "\<not> fd_is_open fd c' = Some True" if "64 * k \<le> fd" for fd
    using new [OF that] kl by (auto simp: c' fd_is_open_alt k l nth_append k_def)
  moreover have "ctx_wf c'" using m k l kl by (auto simp: c' ctx_wf_def k_def)
  ultimately show ?thesis
    using old kl by (auto simp: grown_def ctx_frame_def c' fd_is_open_alt fd_is_cloexec_alt nth_append k l k_def)
qed

lemma enlarge_wp:
  assumes inv: "fd_inv iext dext ext s"
    and n: "file_desc_entries (ctx s) \<le> n" "n \<le> INT_MAX + 1"
  shows "wp (enlarge_file_descriptor_table E n s) (\<lambda>(r, s').
     fd_inv iext dext ext s' \<and> same_files s s' \<and> grown (ctx s) (ctx s') \<and>
     (if r < 0 then ctx s' = ctx s
      else r = 0 \<and> file_desc_entries (ctx s') = ALIGN_TO n 64 \<and> n \<le> file_desc_entries (ctx s') \<and>
        file_desc_entries (ctx s') < nofile_cur s))"
proof -
  let ?m = "ALIGN_TO n 64"
  have wf: "ctx_wf (ctx s)" "fds_filled (ctx s)" using inv by (auto simp: fd_inv_def)
  have m: "n \<le> ?m" "64 dvd ?m" "?m < n + 64" using ALIGN_TO_props [of 64 n] by auto
  have refl: "grown (ctx s) (ctx s)" using wf open_bound [OF wf(1)] by (auto simp: grown_def not_less [symmetric])
  have mod: "n mod 4294967296 = n" "?m mod 4294967296 = ?m" using n m by (auto simp: INT_MAX_def)
  have good: "fd_inv iext dext ext (s\<lparr>mem_ctr := k, ctx := c'\<rparr>)" if "grown (ctx s) c'" for c' k
    using that inv grown_fdtab [OF wf that] ctx_refs_same [of c' "ctx s"]
    by (auto simp: fd_inv_def grown_def ctx_frame_def)
  show ?thesis
  proof (cases "INT_MAX < ?m \<or> nofile_cur s \<le> ?m")
    case True
    then have "enlarge_file_descriptor_table E n s = Some (- EBADF, s)"
      by (simp add: enlarge_file_descriptor_table_def FILE_DESCRIPTOR_GROW_NR_def FDS_PER_LONG_def mod)
    then show ?thesis using inv refl by (simp add: wp_simps)
  next
    case False
    let ?ok = "malloc_ok E (mem_ctr s) \<and> malloc_ok E (mem_ctr s + 1) \<and> malloc_ok E (mem_ctr s + 2)"
    define c where "c = (ctx s)\<lparr>
        file_desc := take (file_desc_entries (ctx s)) (file_desc (ctx s)) @
          map (junk_ptr E (mem_ctr s)) [file_desc_entries (ctx s)..<?m],
        cloexec_fds := take (file_desc_entries (ctx s) div 64) (cloexec_fds (ctx s)) @
          map (junk_word E (mem_ctr s + 1)) [file_desc_entries (ctx s) div 64..<?m div 64],
        open_fds := take (file_desc_entries (ctx s) div 64) (open_fds (ctx s)) @
          replicate (?m div 64 - file_desc_entries (ctx s) div 64) 0,
        file_desc_entries := ?m\<rparr>"
    have g: "grown (ctx s) c"
      by (rule enlarge_grown [OF wf(1) _ m(2) _ c_def]) (use n m False in auto)
    have "enlarge_file_descriptor_table E n s =
        (if ?ok then Some (0, s\<lparr>mem_ctr := mem_ctr s + 3, ctx := c\<rparr>)
         else Some (- ENOMEM, s\<lparr>mem_ctr := mem_ctr s + 3\<rparr>))"
      using False n m
      by (simp add: enlarge_file_descriptor_table_def FILE_DESCRIPTOR_GROW_NR_def FDS_PER_LONG_def
          mod malloc_def Let_def c_def)
    then show ?thesis
      using g good [OF g] good [OF refl] refl m False
      by (auto simp: wp_simps c_def)
  qed
qed


section \<open>Allocating the lowest free descriptor\<close>

lemma ctz_from_eq:
  "ctz_from w n k = (if \<exists>j. n \<le> j \<and> j < n + k \<and> bit w j then Some (LEAST j. n \<le> j \<and> bit w j) else None)"
proof (induction w n k rule: ctz_from.induct)
  case (2 w n k)
  show ?case
  proof (cases "bit w n")
    case True
    then have "(LEAST j. n \<le> j \<and> bit w j) = n" by (intro Least_equality) auto
    then show ?thesis using True by (auto intro!: exI [of _ n])
  next
    case False
    then have "n \<le> j \<and> bit w j \<longleftrightarrow> Suc n \<le> j \<and> bit w j" for j by (metis Suc_le_eq le_neq_implies_less less_imp_le)
    then have "(LEAST j. n \<le> j \<and> bit w j) = (LEAST j. Suc n \<le> j \<and> bit w j)"
      "(\<exists>j. n \<le> j \<and> j < n + Suc k \<and> bit w j) \<longleftrightarrow> (\<exists>j. Suc n \<le> j \<and> j < Suc n + k \<and> bit w j)"
      by auto
    then show ?thesis using False "2.IH" by (simp only: ctz_from.simps if_False not_False_eq_True simp_thms)
  qed
qed simp

lemma ULONG_MAX_eq: "ULONG_MAX = - 1"
  by (simp add: ULONG_MAX_def)

text \<open>\<open>ctz (~w)\<close> is the first clear bit of a word that is not all ones.\<close>

lemma ctzl_not:
  assumes "w \<noteq> ULONG_MAX"
  obtains z where "builtin_ctzl (NOT w) = Some z" "z < 64" "\<not> bit w z" "\<And>j. j < z \<Longrightarrow> bit w j"
proof -
  have "\<exists>n < 64. \<not> bit w n"
    using assms word_eq_max_iff [of w] by (simp add: ULONG_MAX_eq)
  then obtain n where n: "n < 64" "bit (NOT w) n" by (auto simp: bit_simps)
  let ?z = "LEAST j. 0 \<le> j \<and> bit (NOT w) j"
  have z: "bit (NOT w) ?z" "?z \<le> n"
    using LeastI [of "\<lambda>j. 0 \<le> j \<and> bit (NOT w) j" n] Least_le [of "\<lambda>j. 0 \<le> j \<and> bit (NOT w) j" n] n by auto
  show thesis
  proof (rule that)
    show "builtin_ctzl (NOT w) = Some ?z"
      using n unfolding builtin_ctzl_def ctz_from_eq by (metis add_0 le0)
    show "?z < 64" "\<not> bit w ?z" using z n by (auto simp: bit_simps)
    fix j assume "j < ?z"
    then show "bit w j" using not_less_Least [of j "\<lambda>j. 0 \<le> j \<and> bit (NOT w) j"] z n by (simp add: bit_simps)
  qed
qed

lemma alloc_fd_bits_spec:
  "case alloc_fd_bits fdbase w i j k of
     Some fd \<Rightarrow> (\<exists>b. fd = 64 * i + b \<and> j \<le> b \<and> b < j + k \<and> \<not> bit w b \<and> fdbase \<le> fd \<and>
        (\<forall>b'. j \<le> b' \<and> b' < b \<longrightarrow> bit w b' \<or> 64 * i + b' < fdbase))
   | None \<Rightarrow> (\<forall>b. j \<le> b \<and> b < j + k \<longrightarrow> bit w b \<or> 64 * i + b < fdbase)"
proof (induction fdbase w i j k rule: alloc_fd_bits.induct)
  case (2 fdbase w i j k)
  show ?case
  proof (cases "bit w j \<or> 64 * i + j < fdbase")
    case True
    then have "alloc_fd_bits fdbase w i j (Suc k) = alloc_fd_bits fdbase w i (Suc j) k"
      by (auto simp: mask_simps FDS_PER_LONG_def Let_def)
    moreover have "case alloc_fd_bits fdbase w i (Suc j) k of
       Some fd \<Rightarrow> (\<exists>b. fd = 64 * i + b \<and> Suc j \<le> b \<and> b < Suc j + k \<and> \<not> bit w b \<and> fdbase \<le> fd \<and>
          (\<forall>b'. Suc j \<le> b' \<and> b' < b \<longrightarrow> bit w b' \<or> 64 * i + b' < fdbase))
     | None \<Rightarrow> (\<forall>b. Suc j \<le> b \<and> b < Suc j + k \<longrightarrow> bit w b \<or> 64 * i + b < fdbase)"
      using "2.IH" True by (cases "bit w j") (simp_all add: mask_simps FDS_PER_LONG_def)
    moreover have "j \<le> b \<longleftrightarrow> b = j \<or> Suc j \<le> b" for b by auto
    ultimately show ?thesis
      using True by (fastforce split: option.splits)
  next
    case False
    then show ?thesis by (auto simp: mask_simps FDS_PER_LONG_def Let_def)
  qed
qed simp

lemma block_of:
  assumes "b < 64"
  shows "(64 * i + b) div 64 = i" "(64 * i + b) mod 64 = (b::nat)"
  using assms by auto

text \<open>One word of the scan: what is known about its 64 descriptors.\<close>

lemma alloc_fd_word_spec:
  assumes "w \<noteq> ULONG_MAX"
  obtains z where "builtin_ctzl (NOT w) = Some z"
    "case alloc_fd_bits fdbase w i z (64 - z) of
       Some fd \<Rightarrow> (\<exists>b < 64. fd = 64 * i + b \<and> \<not> bit w b \<and> fdbase \<le> fd \<and>
          (\<forall>b' < b. bit w b' \<or> 64 * i + b' < fdbase))
     | None \<Rightarrow> (\<forall>b < 64. bit w b \<or> 64 * i + b < fdbase)"
proof -
  obtain z where z: "builtin_ctzl (NOT w) = Some z" "z < 64" "\<And>j. j < z \<Longrightarrow> bit w j"
    using ctzl_not [OF assms] by metis
  show thesis
  proof (rule that [OF z(1)])
    note spec = alloc_fd_bits_spec [where fdbase = fdbase and w = w and i = i and j = z and k = "64 - z"]
    have low: "bit w b \<or> 64 * i + b < fdbase" if "z \<le> b \<Longrightarrow> bit w b \<or> 64 * i + b < fdbase" for b
      using that z(3) by (cases "b < z") auto
    show "case alloc_fd_bits fdbase w i z (64 - z) of
       Some fd \<Rightarrow> (\<exists>b < 64. fd = 64 * i + b \<and> \<not> bit w b \<and> fdbase \<le> fd \<and>
          (\<forall>b' < b. bit w b' \<or> 64 * i + b' < fdbase))
     | None \<Rightarrow> (\<forall>b < 64. bit w b \<or> 64 * i + b < fdbase)"
    proof (cases "alloc_fd_bits fdbase w i z (64 - z)")
      case None
      then have "\<forall>b < 64. bit w b \<or> 64 * i + b < fdbase" using spec z(2) low by (simp del: not_less) blast
      then show ?thesis using None by simp
    next
      case (Some fd)
      then obtain b where b: "fd = 64 * i + b" "z \<le> b" "b < 64" "\<not> bit w b" "fdbase \<le> fd"
        "\<forall>b'. z \<le> b' \<and> b' < b \<longrightarrow> bit w b' \<or> 64 * i + b' < fdbase"
        using spec z(2) by auto
      then have "\<forall>b' < b. bit w b' \<or> 64 * i + b' < fdbase" using low by blast
      then show ?thesis using b Some by auto
    qed
  qed
qed

definition scan_ok :: "u64 list \<Rightarrow> nat \<Rightarrow> nat \<Rightarrow> nat \<Rightarrow> nat option \<Rightarrow> bool" where
  "scan_ok ws fdbase lo hi r \<longleftrightarrow> (case r of
     Some fd \<Rightarrow> lo \<le> fd \<and> fd < hi \<and> fdbase \<le> fd \<and> \<not> bit (ws ! (fd div 64)) (fd mod 64) \<and>
        (\<forall>fd'. lo \<le> fd' \<and> fdbase \<le> fd' \<and> fd' < fd \<longrightarrow> bit (ws ! (fd' div 64)) (fd' mod 64))
   | None \<Rightarrow> (\<forall>fd. lo \<le> fd \<and> fdbase \<le> fd \<and> fd < hi \<longrightarrow> bit (ws ! (fd div 64)) (fd mod 64)))"

lemma scan_skip:
  assumes "scan_ok ws fdbase mid hi r" "lo \<le> mid" "mid \<le> hi"
    "\<And>fd. lo \<le> fd \<Longrightarrow> fd < mid \<Longrightarrow> fdbase \<le> fd \<Longrightarrow> bit (ws ! (fd div 64)) (fd mod 64)"
  shows "scan_ok ws fdbase lo hi r"
proof (cases r)
  case None
  have "bit (ws ! (fd div 64)) (fd mod 64)" if "lo \<le> fd" "fdbase \<le> fd" "fd < hi" for fd
    using assms that None by (cases "fd < mid") (auto simp: scan_ok_def)
  then show ?thesis using None by (auto simp: scan_ok_def)
next
  case (Some fd)
  have "bit (ws ! (fd' div 64)) (fd' mod 64)" if "lo \<le> fd'" "fdbase \<le> fd'" "fd' < fd" for fd'
    using assms that Some by (cases "fd' < mid") (auto simp: scan_ok_def)
  then show ?thesis using assms Some by (auto simp: scan_ok_def)
qed

lemma block_ex: "64 * i \<le> fd \<Longrightarrow> fd < 64 * Suc i \<Longrightarrow> \<exists>b < 64. fd = 64 * i + (b::nat)"
  by (rule exI [of _ "fd - 64 * i"]) auto

lemma alloc_fd_longs_spec:
  assumes "i + k \<le> length ws"
  shows "wp (alloc_fd_longs fdbase ws i k) (scan_ok ws fdbase (64 * i) (64 * (i + k)))"
  using assms
proof (induction fdbase ws i k rule: alloc_fd_longs.induct)
  case (1 fdbase ws i)
  then show ?case by (auto simp: wp_simps scan_ok_def)
next
  case (2 fdbase ws i k)
  have i: "i < length ws" "Suc i + k \<le> length ws" using "2.prems" by auto
  have skip: "wp (alloc_fd_longs fdbase ws (Suc i) k) (scan_ok ws fdbase (64 * i) (64 * (i + Suc k)))"
    if IH: "wp (alloc_fd_longs fdbase ws (Suc i) k) (scan_ok ws fdbase (64 * Suc i) (64 * (Suc i + k)))"
      and full: "\<forall>b < 64. bit (ws ! i) b \<or> 64 * i + b < fdbase"
  proof (rule wp_mono [OF IH], rule scan_skip)
    fix fd assume "64 * i \<le> fd" "fd < 64 * Suc i" "fdbase \<le> fd"
    then show "bit (ws ! (fd div 64)) (fd mod 64)"
      using full block_ex [of i fd] by (auto simp: block_of)
  qed simp_all
  show ?case
  proof (cases "ws ! i = ULONG_MAX")
    case True
    then have "\<forall>b < 64. bit (ws ! i) b" using word_eq_max_iff [of "ws ! i"] by (simp add: ULONG_MAX_eq)
    then show ?thesis using skip [OF "2.IH"(1)] i True by (simp add: wp_simps)
  next
    case False
    then obtain z where z: "builtin_ctzl (NOT (ws ! i)) = Some z"
      "case alloc_fd_bits fdbase (ws ! i) i z (64 - z) of
         Some fd \<Rightarrow> (\<exists>b < 64. fd = 64 * i + b \<and> \<not> bit (ws ! i) b \<and> fdbase \<le> fd \<and>
            (\<forall>b' < b. bit (ws ! i) b' \<or> 64 * i + b' < fdbase))
       | None \<Rightarrow> (\<forall>b < 64. bit (ws ! i) b \<or> 64 * i + b < fdbase)"
      by (rule alloc_fd_word_spec)
    show ?thesis
    proof (cases "alloc_fd_bits fdbase (ws ! i) i z (64 - z)")
      case None
      then show ?thesis
        using z False i skip [OF "2.IH"(2)] by (simp add: wp_simps FDS_PER_LONG_def)
    next
      case (Some fd)
      then obtain b where b: "b < 64" "fd = 64 * i + b" "\<not> bit (ws ! i) b" "fdbase \<le> fd"
        "\<forall>b' < b. bit (ws ! i) b' \<or> 64 * i + b' < fdbase" using z by auto
      have "bit (ws ! (fd' div 64)) (fd' mod 64)" if fd': "64 * i \<le> fd'" "fdbase \<le> fd'" "fd' < fd" for fd'
      proof -
        obtain b' where "b' < 64" "fd' = 64 * i + b'" using block_ex [of i fd'] fd' b by auto
        then show ?thesis using fd' b by (auto simp: block_of)
      qed
      then have "scan_ok ws fdbase (64 * i) (64 * (i + Suc k)) (Some fd)"
        using b by (auto simp: scan_ok_def block_of)
      then show ?thesis using z(1) False i Some by (simp add: wp_simps FDS_PER_LONG_def)
    qed
  qed
qed


text \<open>A table in which descriptor \<open>fd\<close> has been taken but its slot is not filled yet.\<close>

definition reserved :: "ioctx \<Rightarrow> nat \<Rightarrow> ioctx \<Rightarrow> bool" where
  "reserved c fd c' \<longleftrightarrow> ctx_wf c' \<and> ctx_frame c c' \<and> fd < file_desc_entries c' \<and> fdtab c fd = None \<and>
     fd_is_open fd c' = Some True \<and> fd_is_cloexec fd c' = Some False \<and>
     (\<forall>j. j \<noteq> fd \<longrightarrow> fdtab c' j = fdtab c j \<and> (fd_is_open j c' = Some True \<longrightarrow> fdtab c j \<noteq> None))"

lemma reserved_fill:
  assumes "reserved c fd c'" "c'' = c'\<lparr>file_desc := (file_desc c')[fd := Some f]\<rparr>"
  shows "ctx_wf c''" "fds_filled c''" "fdtab c'' = (fdtab c)(fd \<mapsto> (f, False))" "ctx_frame c c''"
proof -
  show wf: "ctx_wf c''" and fr: "ctx_frame c c''"
    using assms by (auto simp: reserved_def ctx_wf_def ctx_frame_def)
  have "fdtab c'' fd = Some (f, False)"
    using assms by (auto simp: reserved_def fdtab_def ctx_wf_def)
  moreover have "fdtab c'' j = fdtab c j" if "j \<noteq> fd" for j
  proof -
    have "fdtab c'' j = fdtab c' j" using that assms(2) by (simp add: fdtab_def)
    then show ?thesis using assms(1) that by (simp add: reserved_def)
  qed
  ultimately show tab: "fdtab c'' = (fdtab c)(fd \<mapsto> (f, False))" by auto
  show "fds_filled c''"
    using assms unfolding fds_filled_def tab by (auto simp: reserved_def)
qed

lemma reserve_ctx_wp:
  assumes "ctx_wf c" "fds_filled c" "fd < file_desc_entries c" "fd_is_open fd c = Some False"
  shows "wp (Option.bind (fd_set_open fd True c) (fd_set_cloexec fd False)) (reserved c fd)"
  unfolding wp_simps
proof (rule wp_mono [OF wp_fd_set_open [OF assms(1,3)]])
  fix c1 assume c1: "ctx_wf c1 \<and> file_desc c1 = file_desc c \<and>
      file_desc_entries c1 = file_desc_entries c \<and> ctx_frame c c1 \<and>
      (\<forall>j. fd_is_cloexec j c1 = fd_is_cloexec j c) \<and>
      (\<forall>j. fd_is_open j c1 = (if j = fd then Some True else fd_is_open j c))"
  have free: "fdtab c fd = None" using assms(4) by (simp add: fdtab_def)
  show "wp (fd_set_cloexec fd False c1) (reserved c fd)"
  proof (rule wp_mono [OF wp_fd_set_cloexec], goal_cases)
    case (3 c2)
    then have "fdtab c2 j = fdtab c j" if "j \<noteq> fd" for j using that c1 by (simp add: fdtab_def)
    moreover have "fdtab c j \<noteq> None" if "fd_is_open j c = Some True" for j
      using that assms(2) by (auto simp: fds_filled_def)
    ultimately show ?case
      using 3 c1 free assms(3) by (auto simp: reserved_def ctx_frame_def)
  qed (use c1 assms in auto)
qed

lemma reserved_grown:
  assumes "ctx_wf c" "fds_filled c" "grown c c1" "reserved c1 fd c'"
  shows "reserved c fd c'"
  using assms grown_fdtab [OF assms(1-3)] by (auto simp: reserved_def grown_def ctx_frame_def)

definition alloc_post ::
  "(nat \<Rightarrow> nat) \<Rightarrow> (nat \<Rightarrow> nat) \<Rightarrow> (nat \<Rightarrow> nat) \<Rightarrow> nat \<Rightarrow> kst \<Rightarrow> int \<times> kst \<Rightarrow> bool" where
  "alloc_post iext dext ext fdbase s = (\<lambda>(r, s').
     same_files s s' \<and> vfs_inv iext dext s' \<and> fcount s' = fcount s \<and>
     (if r < 0
      then (r = - EMFILE \<or> r = - ENOMEM) \<and> fd_inv iext dext ext s' \<and> fdtab (ctx s') = fdtab (ctx s) \<and>
        \<not> fdlock (ctx s') \<and> ctx_frame ((ctx s)\<lparr>fdlock := False\<rparr>) (ctx s')
      else reserved (ctx s) (nat r) (ctx s') \<and> fdbase \<le> nat r \<and> nat r \<le> nofile_cur s \<and>
        (\<forall>fd. fdbase \<le> fd \<and> fd < nat r \<longrightarrow> fdtab (ctx s) fd \<noteq> None)))"

lemma alloc_fd_scan:
  "wp (alloc_fd_longs fdbase ws (fdbase div 64) (length ws - fdbase div 64))
     (scan_ok ws fdbase 0 (64 * length ws))"
proof (cases "fdbase div 64 \<le> length ws")
  case True
  then have "wp (alloc_fd_longs fdbase ws (fdbase div 64) (length ws - fdbase div 64))
     (scan_ok ws fdbase (64 * (fdbase div 64)) (64 * length ws))"
    using alloc_fd_longs_spec [of "fdbase div 64" "length ws - fdbase div 64" ws fdbase] by simp
  then show ?thesis
  proof (rule wp_mono)
    fix r assume "scan_ok ws fdbase (64 * (fdbase div 64)) (64 * length ws) r"
    moreover have "64 * (fdbase div 64) \<le> fd" if "fdbase \<le> fd" for fd
      using that div_times_less_eq_dividend [of fdbase 64] by (simp add: mult.commute)
    ultimately show "scan_ok ws fdbase 0 (64 * length ws) r"
      by (auto simp: scan_ok_def split: option.splits)
  qed
next
  case False
  then have "64 * length ws \<le> fdbase" using div_64_less [of fdbase "length ws"] by auto
  then show ?thesis using False by (auto simp: wp_simps scan_ok_def)
qed

lemma scan_ok_open:
  assumes "ctx_wf c" "fds_filled c" "scan_ok (open_fds c) fdbase 0 (64 * length (open_fds c)) (Some fd)"
  shows "fd < file_desc_entries c" "fd_is_open fd c = Some False" "fdbase \<le> fd"
    "\<And>fd'. fdbase \<le> fd' \<Longrightarrow> fd' < fd \<Longrightarrow> fdtab c fd' \<noteq> None"
proof -
  show *: "fd < file_desc_entries c" "fd_is_open fd c = Some False" "fdbase \<le> fd"
    using assms by (auto simp: scan_ok_def ctx_wf_def fd_is_open_alt div_64_less)
  fix fd' assume "fdbase \<le> fd'" "fd' < fd"
  then have "fd_is_open fd' c = Some True"
    using assms * by (auto simp: scan_ok_def ctx_wf_def fd_is_open_alt div_64_less)
  then show "fdtab c fd' \<noteq> None" using assms(2) by (auto simp: fds_filled_def)
qed

lemma alloc_post_trans:
  assumes "alloc_post iext dext ext fdbase s1 x" "same_files s s1" "grown (ctx s) (ctx s1)" "fcount s1 = fcount s"
    "ctx_wf (ctx s)" "fds_filled (ctx s)"
  shows "alloc_post iext dext ext fdbase s x"
proof -
  obtain r s2 where x: "x = (r, s2)" by (cases x)
  have "same_files s s2" "nofile_cur s1 = nofile_cur s"
    using assms(1,2) same_files_trans [OF assms(2), of s2]
    by (simp_all add: alloc_post_def x) (simp add: same_files_def)
  moreover have "ctx_frame ((ctx s)\<lparr>fdlock := False\<rparr>) c" if "ctx_frame ((ctx s1)\<lparr>fdlock := False\<rparr>) c" for c
    using that assms(3) by (auto simp: grown_def ctx_frame_def)
  ultimately show ?thesis
    using assms(1,4) reserved_grown [OF assms(5,6,3)] grown_fdtab [OF assms(5,6,3)]
    by (auto simp: alloc_post_def x split: if_splits)
qed

lemma alloc_fd_unlock:
  assumes "fd_inv iext dext ext s" "fdlock (ctx s)" "r = - EMFILE \<or> r = - ENOMEM"
  shows "wp (Option.bind (unlock_fds s) (\<lambda>s'. Some (r, s'))) (alloc_post iext dext ext fdbase s)"
  using assms by (auto simp: wp_simps alloc_post_def ctx_frame_def fd_inv_def [of _ _ _ s])

lemma alloc_fd_take:
  assumes inv: "fd_inv iext dext ext s"
    and scan: "scan_ok (open_fds (ctx s)) fdbase 0 (64 * length (open_fds (ctx s))) (Some fd)"
    and lim: "fd \<le> nofile_cur s"
  shows "wp (Option.bind (fd_set_open fd True (ctx s)) (\<lambda>c1. Option.bind (fd_set_cloexec fd False c1)
      (\<lambda>c2. Some (int fd, s\<lparr>ctx := c2\<rparr>)))) (alloc_post iext dext ext fdbase s)"
proof -
  have wf: "ctx_wf (ctx s)" "fds_filled (ctx s)" "vfs_inv iext dext s"
    using inv by (auto simp: fd_inv_def)
  note found = scan_ok_open [OF wf(1,2) scan]
  have "wp (Option.bind (Option.bind (fd_set_open fd True (ctx s)) (fd_set_cloexec fd False))
      (\<lambda>c2. Some (int fd, s\<lparr>ctx := c2\<rparr>))) (alloc_post iext dext ext fdbase s)"
    by (rule wp_bindI [OF reserve_ctx_wp [OF wf(1,2) found(1,2)]])
      (use wf found lim in \<open>auto simp: alloc_post_def wp_simps\<close>)
  then show ?thesis by (simp add: Option.bind_assoc)
qed

lemma alloc_fd_loop_wp:
  assumes "fd_inv iext dext ext s" "fdlock (ctx s)"
  shows "wp (alloc_fd_loop E fdbase s) (alloc_post iext dext ext fdbase s)"
  using assms
proof (induction "INT_MAX - file_desc_entries (ctx s)" arbitrary: s rule: less_induct)
  case less
  let ?c = "ctx s"
  have wf: "ctx_wf ?c" "fds_filled ?c" and cnt: "fcount s f = ext f + ctx_refs ?c f" for f
    using less.prems(1) by (auto simp: fd_inv_def)
  have nr: "file_desc_entries ?c div FDS_PER_LONG = length (open_fds ?c)" "file_desc_entries ?c \<le> INT_MAX"
      "64 dvd file_desc_entries ?c"
    using wf(1) by (auto simp: ctx_wf_def FDS_PER_LONG_def intro: dvdI [OF sym])
  then have top: "file_desc_entries ?c + FILE_DESCRIPTOR_GROW_NR \<le> INT_MAX + 1"
    by (auto simp: INT_MAX_def FDS_PER_LONG_def FILE_DESCRIPTOR_GROW_NR_def elim!: dvdE)
  have more: "wp (Option.bind (enlarge_file_descriptor_table E (file_desc_entries ?c + FILE_DESCRIPTOR_GROW_NR) s)
      (\<lambda>(st, s'). if st < 0 then Option.bind (unlock_fds s') (\<lambda>s''. Some (- ENOMEM, s''))
         else alloc_fd_loop E fdbase s')) (alloc_post iext dext ext fdbase s)"
  proof (rule wp_bindI [OF enlarge_wp [OF less.prems(1) _ top]], simp, clarify)
    fix st s'
    assume inv': "fd_inv iext dext ext s'" and same: "same_files s s'" and grown: "grown ?c (ctx s')"
      and st: "if st < 0 then ctx s' = ?c
      else st = 0 \<and> file_desc_entries (ctx s') = ALIGN_TO (file_desc_entries ?c + FILE_DESCRIPTOR_GROW_NR) 64 \<and>
        file_desc_entries ?c + FILE_DESCRIPTOR_GROW_NR \<le> file_desc_entries (ctx s') \<and>
        file_desc_entries (ctx s') < nofile_cur s"
    have cnt': "fcount s' = fcount s"
      using inv' cnt grown_fdtab [OF wf grown] grown ctx_refs_same [of "ctx s'" ?c]
      by (auto simp: fun_eq_iff fd_inv_def grown_def ctx_frame_def)
    have lock: "fdlock (ctx s')" using grown less.prems(2) by (simp add: grown_def ctx_frame_def)
    show "wp (if st < 0 then Option.bind (unlock_fds s') (\<lambda>s''. Some (- ENOMEM, s''))
         else alloc_fd_loop E fdbase s') (alloc_post iext dext ext fdbase s)"
    proof (cases "st < 0")
      case True
      have "wp (Option.bind (unlock_fds s') (\<lambda>s''. Some (- ENOMEM, s''))) (alloc_post iext dext ext fdbase s')"
        by (rule alloc_fd_unlock [OF inv' lock]) simp
      from wp_mono [OF this alloc_post_trans [OF _ same grown cnt' wf]] True show ?thesis by simp
    next
      case False
      then have "INT_MAX - file_desc_entries (ctx s') < INT_MAX - file_desc_entries ?c"
        using st top nr by (auto simp: FILE_DESCRIPTOR_GROW_NR_def FDS_PER_LONG_def)
      from wp_mono [OF less.hyps [OF this inv' lock] alloc_post_trans [OF _ same grown cnt' wf]] False
      show ?thesis by simp
    qed
  qed
  show ?case
    unfolding alloc_fd_loop.simps [of E fdbase s] Let_def nr(1)
  proof (rule wp_bindI [OF alloc_fd_scan [of fdbase "open_fds ?c", folded FDS_PER_LONG_def]], goal_cases)
    case (1 r)
    then show ?case
      using more alloc_fd_unlock [OF less.prems] alloc_fd_take [OF less.prems(1)]
      by (cases r) (auto simp: FDS_PER_LONG_def wp_if)
  qed
qed

lemma alloc_fd_wp:
  assumes inv: "fd_inv iext dext ext s" and lock: "\<not> fdlock (ctx s)"
  shows "wp (alloc_fd E fdbase s) (\<lambda>(r, s').
     if fdbase < 0 \<or> fdbase = int INT_MAX \<or> nofile_cur s \<le> nat fdbase then r = - EBADF \<and> s' = s
     else alloc_post iext dext ext (nat fdbase) (s\<lparr>ctx := (ctx s)\<lparr>fdlock := True\<rparr>\<rparr>) (r, s'))"
  using alloc_fd_loop_wp [of iext dext ext "s\<lparr>ctx := (ctx s)\<lparr>fdlock := True\<rparr>\<rparr>" E "nat fdbase"] inv lock
  by (auto simp: alloc_fd_def wp_simps elim!: wp_mono)

text \<open>The two outcomes of \<open>alloc_fd\<close>, for its callers.\<close>

lemma alloc_fd_bindI:
  assumes inv: "fd_inv iext dext ext s" and lock: "\<not> fdlock (ctx s)"
    and fail: "\<And>r s1. r \<in> {- EBADF, - EMFILE, - ENOMEM} \<Longrightarrow> fd_inv iext dext ext s1 \<Longrightarrow> same_files s s1 \<Longrightarrow>
      fdtab (ctx s1) = fdtab (ctx s) \<Longrightarrow> ctx_frame (ctx s) (ctx s1) \<Longrightarrow> fcount s1 = fcount s \<Longrightarrow> wp (k (r, s1)) Q"
    and ok: "\<And>fd s1. same_files s s1 \<Longrightarrow> vfs_inv iext dext s1 \<Longrightarrow> fcount s1 = fcount s \<Longrightarrow>
      reserved ((ctx s)\<lparr>fdlock := True\<rparr>) fd (ctx s1) \<Longrightarrow> 0 \<le> fdbase \<Longrightarrow> nat fdbase \<le> fd \<Longrightarrow> fd \<le> nofile_cur s \<Longrightarrow>
      (\<And>fd'. nat fdbase \<le> fd' \<Longrightarrow> fd' < fd \<Longrightarrow> fdtab (ctx s) fd' \<noteq> None) \<Longrightarrow> wp (k (int fd, s1)) Q"
  shows "wp (Option.bind (alloc_fd E fdbase s) k) Q"
proof (rule wp_bindI [OF alloc_fd_wp [OF inv lock]])
  fix x assume x: "case x of (r, s') \<Rightarrow>
     if fdbase < 0 \<or> fdbase = int INT_MAX \<or> nofile_cur s \<le> nat fdbase then r = - EBADF \<and> s' = s
     else alloc_post iext dext ext (nat fdbase) (s\<lparr>ctx := (ctx s)\<lparr>fdlock := True\<rparr>\<rparr>) (r, s')"
  obtain r s1 where rs: "x = (r, s1)" by (cases x)
  show "wp (k x) Q"
  proof (cases "fdbase < 0 \<or> fdbase = int INT_MAX \<or> nofile_cur s \<le> nat fdbase")
    case True
    then show ?thesis using x rs inv fail [of "- EBADF" s] by simp
  next
    case False
    then have post: "alloc_post iext dext ext (nat fdbase) (s\<lparr>ctx := (ctx s)\<lparr>fdlock := True\<rparr>\<rparr>) (r, s1)"
      using x rs by simp
    show ?thesis
    proof (cases "r < 0")
      case True
      then show ?thesis
        using post lock fail [of r s1] by (auto simp: alloc_post_def rs ctx_frame_def)
    next
      case nonneg: False
      then have "wp (k (int (nat r), s1)) Q"
        using post False by (intro ok) (auto simp: alloc_post_def)
      then show ?thesis using nonneg rs by simp
    qed
  qed
qed

text \<open>Filling the slot \<open>alloc_fd\<close> reserved with a file description on which a reference has been
  taken, and what the invariant is then. \<open>ext'\<close> is \<open>ext\<close> if the reference is a new one.\<close>

lemma fd_inv_fill:
  assumes inv: "fd_inv iext dext ext s" and res: "reserved (ctx s) fd c'"
    and s1: "vfs_inv iext dext s1" "\<And>g. fcount s1 g + ext g = fcount s g + ext' g + of_bool (g = f)"
  shows "fd_inv iext dext ext' (s1\<lparr>ctx := c'\<lparr>file_desc := (file_desc c')[fd := Some f]\<rparr>\<rparr>)"
proof -
  note fill = reserved_fill [OF res refl, of f]
  have "fdtab (ctx s) fd = None" using res by (simp add: reserved_def)
  then show ?thesis
    using fill s1(2) by (intro fd_inv_slot [OF inv s1(1) fill(1,2,3)]) (auto simp: ctx_frame_def holders_free)
qed

lemma reserved_slot:
  assumes "reserved (c\<lparr>fdlock := True\<rparr>) fd c'"
  shows "fd < length (file_desc c')" "fdtab c fd = None" "fdlock c'" "cwd_lock c' = cwd_lock c"
  using assms by (auto simp: reserved_def ctx_wf_def ctx_frame_def)

lemma file_alloc_wp:
  assumes inv: "fd_inv iext dext ext s" and lock: "\<not> fdlock (ctx s)" and f: "0 < fcount s f"
  shows "wp (file_alloc E f s) (\<lambda>(r, s'). same_files s s' \<and> fd_inv iext dext ext s' \<and>
     cwd_lock (ctx s') = cwd_lock (ctx s) \<and> cwd (ctx s') = cwd (ctx s) \<and>
     (if r < 0 then \<not> fdlock (ctx s') \<and> fdtab (ctx s') = fdtab (ctx s) \<and> r \<in> {- EBADF, - EMFILE, - ENOMEM}
      else fdlock (ctx s') \<and> fdtab (ctx s) (nat r) = None \<and> (\<forall>fd < nat r. fdtab (ctx s) fd \<noteq> None) \<and>
        nat r \<le> nofile_cur s \<and> fdtab (ctx s') = (fdtab (ctx s))(nat r \<mapsto> (f, False))))"
    (is "wp _ ?Q")
  unfolding file_alloc_def
proof (rule alloc_fd_bindI [OF inv lock], goal_cases)
  case (1 r s1)
  then show ?case using lock by (auto simp: wp_simps ctx_frame_def)
next
  case (2 fd s1)
  let ?s = "s\<lparr>ctx := (ctx s)\<lparr>fdlock := True\<rparr>\<rparr>" and ?c = "(ctx s1)\<lparr>file_desc := (file_desc (ctx s1))[fd := Some f]\<rparr>"
  note slot = reserved_slot [OF 2(4)]
  have res: "reserved (ctx ?s) fd (ctx s1)" and inv': "fd_inv iext dext ext ?s" using 2 inv by auto
  note fill = reserved_fill [OF res refl, of f]
  have "wp (fd_get f (s1\<lparr>ctx := ?c\<rparr>)) (\<lambda>s'. vfs_inv iext dext s' \<and>
      fcount s' = (fcount s)(f := fcount s f + 1) \<and> refs_frame (s1\<lparr>ctx := ?c\<rparr>) s')"
    using fd_get_wp [of iext dext "s1\<lparr>ctx := ?c\<rparr>" f] f 2 by simp
  then have "wp (fd_get f (s1\<lparr>ctx := ?c\<rparr>)) (\<lambda>s'. ?Q (int fd, s'))"
  proof (rule wp_mono)
    fix s' assume s': "vfs_inv iext dext s' \<and>
      fcount s' = (fcount s)(f := fcount s f + 1) \<and> refs_frame (s1\<lparr>ctx := ?c\<rparr>) s'"
    then have "ctx s' = ?c" "same_files s1 s'" using refs_frame_kst [of "s1\<lparr>ctx := ?c\<rparr>" s'] by auto
    moreover from this have "fd_inv iext dext ext (s'\<lparr>ctx := ?c\<rparr>)"
      by (intro fd_inv_fill [OF inv' res]) (use s' in auto)
    ultimately show "?Q (int fd, s')"
      using 2 slot fill same_files_trans [OF 2(1)] by (cases s') (auto simp: ctx_frame_def)
  qed
  then show ?case using slot by (simp add: wp_simps)
qed

end
