(* ===== verification/Vfs_Ops.thy ===== *)
theory Vfs_Ops
  imports Page_Cache Fd_Alloc
begin

text \<open>
  The file operations of \<open>kernel/kernel/fs/vfs.cpp\<close> on an open file: reading and writing, truncation,
  allocation of space, \<open>ioctl\<close>, \<open>stat\<close>, \<open>readlink\<close> and the reading of directories. They choose between the page cache
  and the driver behind the inode, and have defaults for operations a driver does not provide.

  A system call works on a record \<open>sys\<close>: the kernel's objects and the caller's descriptor table, the caller's credentials
  and memory, and its \<open>errno\<close>, which the code reads in places where nothing has set it. The drivers' functions, the
  clock and the file system behind the page cache are the parameter \<open>senv\<close>. A function pointer
  the code calls without testing it is \<open>None\<close> when it is null.
\<close>

unbundle bit_operations_syntax

section \<open>State and environment\<close>

record sys =
  ks :: kst
  cr :: creds
  um :: umem
  errno :: int

text \<open>A driver function gets the file, its inode, the caller's memory and \<open>errno\<close>, and returns its result with the
  new inode, memory and \<open>errno\<close>. \<open>kpage\<close> is the kernel address of the page of zeros some defaults write from.\<close>

record senv =
  se_k :: kenv
  se_p :: penv
  se_now :: int
  se_clock :: timespec
  kpage :: nat
  drv_read :: "u64 \<Rightarrow> u64 \<Rightarrow> nat \<Rightarrow> file \<Rightarrow> inode \<Rightarrow> umem \<Rightarrow> int \<Rightarrow> int \<times> inode \<times> umem \<times> int"
  drv_write :: "u64 \<Rightarrow> u64 \<Rightarrow> nat \<Rightarrow> file \<Rightarrow> inode \<Rightarrow> umem \<Rightarrow> int \<Rightarrow> int \<times> inode \<times> umem \<times> int"
  drv_ioctl :: "u32 \<Rightarrow> nat \<Rightarrow> file \<Rightarrow> inode \<Rightarrow> umem \<Rightarrow> int \<Rightarrow> int \<times> inode \<times> umem \<times> int"
  drv_ftruncate :: "u64 \<Rightarrow> file \<Rightarrow> inode \<Rightarrow> int \<times> inode"
  drv_fallocate :: "int \<Rightarrow> int \<Rightarrow> int \<Rightarrow> file \<Rightarrow> inode \<Rightarrow> int \<times> inode"
  drv_stat :: "file \<Rightarrow> inode \<Rightarrow> (int \<times> stat) option"
  drv_readlink :: "file \<Rightarrow> inode \<Rightarrow> (int + u8 list) option"
  drv_getdirent :: "file \<Rightarrow> inode \<Rightarrow> (int \<Rightarrow> int \<times> u8 list) option"

definition file_inode :: "nat \<Rightarrow> sys \<Rightarrow> (file \<times> inode) option" where
  "file_inode f s = do {
     fl \<leftarrow> files (ks s) f;
     ino \<leftarrow> inodes (ks s) (f_ino fl);
     Some (fl, ino)
   }"

definition set_inode :: "nat \<Rightarrow> inode \<Rightarrow> sys \<Rightarrow> sys" where
  "set_inode i ino s = s\<lparr>ks := (ks s)\<lparr>inodes := (inodes (ks s))(i \<mapsto> ino)\<rparr>\<rparr>"

definition set_file :: "nat \<Rightarrow> file \<Rightarrow> sys \<Rightarrow> sys" where
  "set_file f fl s = s\<lparr>ks := (ks s)\<lparr>files := (files (ks s))(f \<mapsto> fl)\<rparr>\<rparr>"

definition log_sys :: "vfs_event \<Rightarrow> sys \<Rightarrow> sys" where
  "log_sys e s = s\<lparr>ks := log_event e (ks s)\<rparr>"

text \<open>Storing an inode that may have become dirty.\<close>

definition set_dirty :: "nat \<Rightarrow> inode \<times> bool \<Rightarrow> sys \<Rightarrow> sys" where
  "set_dirty i = (\<lambda>(ino, dirty) s. (if dirty then log_sys (Flush_add_inode i) else (\<lambda>s. s)) (set_inode i ino s))"

section \<open>Reading and writing\<close>

definition do_actual_read :: "senv \<Rightarrow> u64 \<Rightarrow> u64 \<Rightarrow> nat \<Rightarrow> nat \<Rightarrow> sys \<Rightarrow> (int \<times> sys) option" where
  "do_actual_read E offset len buf f s = do {
     (fl, ino) \<leftarrow> file_inode f s;
     if \<not> inode_is_cacheable ino then
       (if \<not> i_fops_read ino then None
        else
          (let (n, ino', m, e) = drv_read E offset len buf fl ino (um s) (errno s)
           in Some (n, (log_sys (Driver_read (f_ino fl) offset len) (set_inode (f_ino fl) ino' s))\<lparr>um := m, errno := e\<rparr>)))
     else do {
       (n, e, m, ino') \<leftarrow> file_read_cache ((se_p E)\<lparr>pe_errno := errno s\<rparr>) buf (unat len) (unat offset) (um s) ino;
       Some (n, (set_inode (f_ino fl) ino' s)\<lparr>um := m, errno := e\<rparr>)
     }
   }"

definition read_vfs :: "senv \<Rightarrow> u64 \<Rightarrow> u64 \<Rightarrow> nat \<Rightarrow> nat \<Rightarrow> sys \<Rightarrow> (int \<times> sys) option" where
  "read_vfs E offset len0 buffer f s = do {
     (fl, ino) \<leftarrow> file_inode f s;
     if S_ISDIR (i_mode ino) then Some (- 1, s\<lparr>errno := EISDIR\<rparr>)
     else if \<not> i_fops_readpage ino \<and> \<not> i_fops_read ino then Some (- 1, s\<lparr>errno := EIO\<rparr>)
     else do {
       let len = clamp_length len0;
       (res, s1) \<leftarrow> do_actual_read E offset len buffer f s;
       if 0 \<le> res \<and> f_flags fl AND O_NOATIME = 0 then do {
         (fl1, ino1) \<leftarrow> file_inode f s1;
         Some (res, set_dirty (f_ino fl1) (inode_update_atime (se_now E) ino1) s1)
       }
       else Some (res, s1)
     }
   }"

text \<open>Whether a write through the cache has put the inode on the list of inodes to be written back: it has made it dirty
  (\<open>inode_set_size\<close>), and it was not before, or was cleaned by a flush that was under way.\<close>

definition cache_dirtied :: "inode \<Rightarrow> inode \<Rightarrow> bool" where
  "cache_dirtied ino ino' \<longleftrightarrow> i_size ino' \<noteq> i_size ino \<and> snd (inode_mark_dirty ino)"

definition do_actual_write :: "senv \<Rightarrow> u64 \<Rightarrow> u64 \<Rightarrow> nat \<Rightarrow> nat \<Rightarrow> sys \<Rightarrow> (int \<times> sys) option" where
  "do_actual_write E offset len buffer f s = do {
     (fl, ino) \<leftarrow> file_inode f s;
     (st, s1) \<leftarrow>
       (if \<not> inode_is_cacheable ino then
          (if \<not> i_fops_write ino then None
           else
             (let (n, ino', m, e) = drv_write E offset len buffer fl ino (um s) (errno s)
              in Some (n, (log_sys (Driver_write (f_ino fl) offset len) (set_inode (f_ino fl) ino' s))\<lparr>um := m, errno := e\<rparr>)))
        else do {
          (n, e, ino') \<leftarrow> file_write_cache ((se_p E)\<lparr>pe_errno := errno s\<rparr>) (um s) buffer (unat len) (unat offset) ino;
          Some (n, (set_dirty (f_ino fl) (ino', cache_dirtied ino ino') s)\<lparr>errno := e\<rparr>)
        });
     if 0 \<le> st then do {
       (fl1, ino1) \<leftarrow> file_inode f s1;
       Some (st, set_dirty (f_ino fl1) (inode_update_mtime (se_now E) ino1) s1)
     }
     else Some (st, s1)
   }"

definition write_vfs :: "senv \<Rightarrow> u64 \<Rightarrow> u64 \<Rightarrow> nat \<Rightarrow> nat \<Rightarrow> sys \<Rightarrow> (int \<times> sys) option" where
  "write_vfs E offset len0 buffer f s = do {
     (fl, ino) \<leftarrow> file_inode f s;
     if S_ISDIR (i_mode ino) then Some (- 1, s\<lparr>errno := EISDIR\<rparr>)
     else if \<not> i_fops_writepage ino \<and> \<not> i_fops_write ino then Some (- 1, s\<lparr>errno := EIO\<rparr>)
     else do_actual_write E offset (clamp_length len0) buffer f s
   }"

definition ioctl_vfs :: "senv \<Rightarrow> u32 \<Rightarrow> nat \<Rightarrow> nat \<Rightarrow> sys \<Rightarrow> (int \<times> sys) option" where
  "ioctl_vfs E request argp f s = do {
     (fl, ino) \<leftarrow> file_inode f s;
     if i_fops_ioctl ino then
       (let (n, ino', m, e) = drv_ioctl E request argp fl ino (um s) (errno s)
        in Some (n, (log_sys (Driver_ioctl (f_ino fl) request) (set_inode (f_ino fl) ino' s))\<lparr>um := m, errno := e\<rparr>))
     else Some (- ENOTTY, s)
   }"

section \<open>Truncation and allocation of space\<close>

text \<open>What the kernel sees with the address limit lifted (\<open>thread_change_addr_limit\<close>): its page of zeros too.\<close>

definition kernel_view :: "senv \<Rightarrow> umem \<Rightarrow> umem" where
  "kernel_view E m = (\<lambda>a. if kpage E \<le> a \<and> a < kpage E + PAGE_SIZE then Some 0 else m a)"

text \<open>The loops of \<open>default_ftruncate\<close> and \<open>default_fallocate\<close>; the comparison of \<open>written\<close> is one of \<open>size_t\<close>.\<close>

partial_function (option) ftruncate_loop :: "senv \<Rightarrow> nat \<Rightarrow> u64 \<Rightarrow> u64 \<Rightarrow> sys \<Rightarrow> (int \<times> sys) option" where
  "ftruncate_loop E f off length_diff s =
     (if length_diff = 0 then Some (0, s)
      else
        (let to_write = (if of_nat PAGE_SIZE \<le> length_diff then of_nat PAGE_SIZE else length_diff)
         in Option.bind (write_vfs E off to_write (kpage E) f (s\<lparr>um := kernel_view E (um s)\<rparr>)) (\<lambda>(n, s1).
              let s2 = s1\<lparr>um := um s\<rparr>
              in if word_of_int n \<noteq> to_write then Some (- errno s2, s2)
                 else ftruncate_loop E f (off + to_write) (length_diff - to_write) s2)))"

definition default_ftruncate :: "senv \<Rightarrow> int \<Rightarrow> nat \<Rightarrow> sys \<Rightarrow> (int \<times> sys) option" where
  "default_ftruncate E len f s = do {
     (fl, ino) \<leftarrow> file_inode f s;
     if len < 0 then Some (- EINVAL, s)
     else if word_of_int len \<le> i_size ino
     then Some (0, set_inode (f_ino fl) (ino\<lparr>i_size := word_of_int len\<rparr>) s)
     else do {
       (ok, k) \<leftarrow> Some (malloc_ok (se_k E) (mem_ctr (ks s)), (ks s)\<lparr>mem_ctr := mem_ctr (ks s) + 1\<rparr>);
       if \<not> ok then Some (- ENOMEM, s\<lparr>ks := k\<rparr>)
       else ftruncate_loop E f (i_size ino) (word_of_int len - i_size ino) (s\<lparr>ks := k\<rparr>)
     }
   }"

definition ftruncate_vfs :: "senv \<Rightarrow> int \<Rightarrow> nat \<Rightarrow> sys \<Rightarrow> (int \<times> sys) option" where
  "ftruncate_vfs E len f s = do {
     (fl, ino) \<leftarrow> file_inode f s;
     if len < 0 then Some (- EINVAL, s)
     else if S_ISDIR (i_mode ino) then Some (- EISDIR, s)
     else if word_of_int len = i_size ino then Some (0, s)
     else do {
       l \<leftarrow> rw_lock_write (i_rwlock ino);
       let s1 = set_inode (f_ino fl) (ino\<lparr>i_rwlock := l\<rparr>) s;
       (st, s2) \<leftarrow>
         (if i_fops_ftruncate ino then
            (let (st, ino') = drv_ftruncate E (word_of_int len) fl (ino\<lparr>i_rwlock := l\<rparr>)
             in Some (st, log_sys (Driver_ftruncate (f_ino fl) (word_of_int len)) (set_inode (f_ino fl) ino' s1)))
          else default_ftruncate E len f s1);
       (fl2, ino2) \<leftarrow> file_inode f s2;
       Some (st, set_inode (f_ino fl2) (ino2\<lparr>i_rwlock := rw_unlock_write (i_rwlock ino2)\<rparr>) s2)
     }
   }"

partial_function (option) fallocate_loop :: "senv \<Rightarrow> nat \<Rightarrow> u64 \<Rightarrow> u64 \<Rightarrow> sys \<Rightarrow> (int \<times> sys) option" where
  "fallocate_loop E f off length_diff s =
     (if length_diff = 0 then Some (0, s)
      else
        (let to_write = (if of_nat PAGE_SIZE \<le> length_diff then of_nat PAGE_SIZE else length_diff)
         in Option.bind (write_vfs E off to_write (kpage E) f s) (\<lambda>(n, s1).
              if word_of_int n \<noteq> to_write then Some (sint (word_of_int n :: u32), s1)
              else fallocate_loop E f (off + to_write) (length_diff - to_write) s1)))"

definition default_fallocate :: "senv \<Rightarrow> int \<Rightarrow> int \<Rightarrow> int \<Rightarrow> nat \<Rightarrow> sys \<Rightarrow> (int \<times> sys) option" where
  "default_fallocate E mode offset len f s =
     (if mode \<noteq> 0 then Some (- EINVAL, s)
      else
        (let ok = malloc_ok (se_k E) (mem_ctr (ks s));
             s1 = s\<lparr>ks := (ks s)\<lparr>mem_ctr := mem_ctr (ks s) + 1\<rparr>\<rparr>
         in if \<not> ok then Some (- ENOMEM, s1)
            else fallocate_loop E f (word_of_int offset) (word_of_int len) s1))"

definition fallocate_vfs :: "senv \<Rightarrow> int \<Rightarrow> int \<Rightarrow> int \<Rightarrow> nat \<Rightarrow> sys \<Rightarrow> (int \<times> sys) option" where
  "fallocate_vfs E mode offset len f s = do {
     (fl, ino) \<leftarrow> file_inode f s;
     if i_fops_fallocate ino then
       (let (st, ino') = drv_fallocate E mode offset len fl ino
        in Some (st, set_inode (f_ino fl) ino' s))
     else default_fallocate E mode offset len f s
   }"

section \<open>Attributes, links and directories\<close>

definition stat_vfs :: "senv \<Rightarrow> nat \<Rightarrow> sys \<Rightarrow> (int \<times> stat) option" where
  "stat_vfs E f s = do {
     (fl, ino) \<leftarrow> file_inode f s;
     case drv_stat E fl ino of
       Some (st, buf) \<Rightarrow> Some (st, buf)
     | None \<Rightarrow> Some (0, default_stat ino)
   }"

definition readlink_vfs :: "senv \<Rightarrow> nat \<Rightarrow> sys \<Rightarrow> (u8 list option \<times> sys) option" where
  "readlink_vfs E f s = do {
     (fl, ino) \<leftarrow> file_inode f s;
     if \<not> S_ISLNK (i_mode ino) then Some (None, s\<lparr>errno := EINVAL\<rparr>)
     else case drv_readlink E fl ino of
       Some (Inr p) \<Rightarrow> Some (Some p, set_dirty (f_ino fl) (inode_update_atime (se_now E) ino) s)
     | Some (Inl e) \<Rightarrow> Some (None, s\<lparr>errno := e\<rparr>)
     | None \<Rightarrow> Some (None, s\<lparr>errno := EINVAL\<rparr>)
   }"

definition file_can_access :: "nat \<Rightarrow> u32 \<Rightarrow> sys \<Rightarrow> (bool \<times> sys) option" where
  "file_can_access f perms s = do {
     (fl, ino) \<leftarrow> file_inode f s;
     (b, c) \<leftarrow> inode_can_access ino perms (cr s);
     Some (b, s\<lparr>cr := c\<rparr>)
   }"

text \<open>A directory entry is the list of its bytes, so that \<open>d_reclen\<close> is its length.\<close>

definition do_getdirent :: "senv \<Rightarrow> int \<Rightarrow> nat \<Rightarrow> sys \<Rightarrow> (int \<times> u8 list) option" where
  "do_getdirent E off f s = do {
     (fl, ino) \<leftarrow> file_inode f s;
     case drv_getdirent E fl ino of Some g \<Rightarrow> Some (g off) | None \<Rightarrow> Some (- ENOSYS, [])
   }"

definition putdir :: "u8 list \<Rightarrow> nat \<Rightarrow> nat \<Rightarrow> sys \<Rightarrow> nat option \<times> sys" where
  "putdir buf ubuf count s =
     (let reclen = length buf
      in if count < reclen then (None, s\<lparr>errno := EINVAL\<rparr>)
         else
           (let (st, m) = copy_to_user ubuf buf (um s)
            in if st < 0 then (None, s\<lparr>um := m, errno := EFAULT\<rparr>)
               else (Some (if count < reclen then count else reclen), s\<lparr>um := m\<rparr>)))"

record getdents_ret =
  gd_read :: nat
  gd_new_off :: int

partial_function (option) getdents_loop ::
  "senv \<Rightarrow> nat \<Rightarrow> nat \<Rightarrow> nat \<Rightarrow> int \<Rightarrow> getdents_ret \<Rightarrow> nat \<Rightarrow> sys \<Rightarrow> (int \<times> getdents_ret \<times> sys) option" where
  "getdents_loop E count pos dirp off ret f s =
     (if count \<le> pos then Some (int pos, ret, s)
      else Option.bind (do_getdirent E off f s) (\<lambda>(nof, buf).
        if nof = 0 then Some (int pos, ret, s)
        else if nof < 0 then Some (- 1, ret, s\<lparr>errno := - nof\<rparr>)
        else
          (case putdir buf dirp (count - pos) s of
             (None, s1) \<Rightarrow> Some (if pos = 0 then - 1 else int pos, ret, s1)
           | (Some wr, s1) \<Rightarrow>
               getdents_loop E count (pos + wr) (dirp + wr) nof
                 \<lparr>gd_read = pos + wr, gd_new_off = nof\<rparr> f s1)))"

definition getdents_vfs ::
  "senv \<Rightarrow> nat \<Rightarrow> nat \<Rightarrow> int \<Rightarrow> getdents_ret \<Rightarrow> nat \<Rightarrow> sys \<Rightarrow> (int \<times> getdents_ret \<times> sys) option" where
  "getdents_vfs E count dirp off ret f s = do {
     (fl, ino) \<leftarrow> file_inode f s;
     if \<not> S_ISDIR (i_mode ino) then Some (- 1, ret, s\<lparr>errno := ENOTDIR\<rparr>)
     else do {
       (ok, s1) \<leftarrow> file_can_access f FILE_ACCESS_READ s;
       if \<not> ok then Some (- 1, ret, s1\<lparr>errno := EACCES\<rparr>)
       else getdents_loop E count 0 dirp off ret f s1
     }
   }"

end
