(* ===== verification/Fd_Lifetime.thy ===== *)
theory Fd_Lifetime
  imports Fd_Invariant
begin

text \<open>
  The descriptor table over the life of a process (\<open>file.cpp\<close>): copied on fork
  (\<open>copy_file_descriptors\<close>), dropped on exit (\<open>process_destroy_file_descriptors\<close>), filtered on
  exec (\<open>file_do_cloexec\<close>). The reference counts follow from the list lemmas of
  \<open>refcounted\<close>: a fork takes one reference per open descriptor, an exit gives each of them back.
\<close>

section \<open>Copying and destroying a table\<close>

text \<open>The file descriptions behind a list of slots, with repetitions.\<close>

definition slot_files :: "ioctx \<Rightarrow> nat list \<Rightarrow> nat list" where
  "slot_files c is = map fst (List.map_filter (fdtab c) is)"

lemma slot_files_simps [simp]:
  "slot_files c [] = []"
  "slot_files c (i # is) = (case fdtab c i of None \<Rightarrow> slot_files c is | Some (f, b) \<Rightarrow> f # slot_files c is)"
  by (auto simp: slot_files_def List.map_filter_simps split: option.splits)

lemma set_slot_files: "set (slot_files c is) = {f. \<exists>i \<in> set is. \<exists>b. fdtab c i = Some (f, b)}"
  by (induction "is") (auto split: option.splits)

lemma count_slot_files:
  "distinct is \<Longrightarrow> count_list (slot_files c is) f = card (holders c f \<inter> set is)"
proof (induction "is")
  case (Cons i "is")
  have "holders c f \<inter> set (i # is) =
      (if \<exists>b. fdtab c i = Some (f, b) then insert i (holders c f \<inter> set is) else holders c f \<inter> set is)"
    by (auto simp: holders_def)
  then show ?case using Cons by (auto split: option.splits)
qed simp

lemma count_slot_files_all: "count_list (slot_files c [0..<file_desc_entries c]) f = card (holders c f)"
proof -
  have "holders c f \<inter> set [0..<file_desc_entries c] = holders c f"
    by (auto simp: holders_def dest: fdtab_bound)
  then show ?thesis by (simp add: count_slot_files)
qed

lemma fdtab_open:
  assumes "ctx_wf c" "fds_filled c" "i < file_desc_entries c"
  obtains (closed) "fd_is_open i c = Some False" "fdtab c i = None"
  | (filled) f b where "fd_is_open i c = Some True" "fdtab c i = Some (f, b)" "file_desc c ! i = Some f"
proof -
  obtain v where v: "fd_is_open i c = Some v"
    using open_bits.rd_in [of i c] assms(1,3) by (auto simp: ctx_wf_def)
  show thesis
  proof (cases v)
    case True
    then obtain x where "fdtab c i = Some x" using assms(2) v by (auto simp: fds_filled_def)
    then show thesis using filled [of "fst x" "snd x"] v True by (auto simp: fdtab_def split: if_splits)
  next
    case False
    then show thesis using closed v by (simp add: fdtab_def)
  qed
qed

lemma copy_fds_loop_eq:
  assumes "ctx_wf c" "fds_filled c" "set is \<subseteq> {..<file_desc_entries c}"
    "length (file_desc child) = file_desc_entries c" "open_fds child = open_fds c"
  shows "copy_fds_loop c is child s = map_option (Pair
      (child\<lparr>file_desc := foldl (\<lambda>fds i. fds[i := file_desc c ! i]) (file_desc child) is\<rparr>))
      (mfold fd_get (slot_files c is) s)"
  using assms(3-5)
proof (induction "is" arbitrary: child s)
  case (Cons i "is")
  have i: "i < file_desc_entries c" "i < length (file_desc c)" using Cons.prems(1) assms(1) by (auto simp: ctx_wf_def)
  have same: "fd_is_open i (child\<lparr>file_desc := fds\<rparr>) = fd_is_open i c" for fds
    using Cons.prems(3) by (simp add: fd_is_open_alt)
  have IH: "copy_fds_loop c is (child\<lparr>file_desc := (file_desc child)[i := p]\<rparr>) s = map_option (Pair
      (child\<lparr>file_desc := foldl (\<lambda>fds i. fds[i := file_desc c ! i]) ((file_desc child)[i := p]) is\<rparr>))
      (mfold fd_get (slot_files c is) s)" for s p
    using Cons.IH [of "child\<lparr>file_desc := (file_desc child)[i := p]\<rparr>" s] Cons.prems by simp
  from assms(1,2) i(1) show ?case
  proof (cases rule: fdtab_open)
    case closed
    then show ?thesis using i Cons.prems same by (simp add: IH)
  next
    case (filled f b)
    then show ?thesis using i Cons.prems same by (cases "fd_get f s") (simp_all add: IH)
  qed
qed simp

lemma foldl_upd_nth:
  assumes "length xs = n" "length ys = n"
  shows "foldl (\<lambda>fds i. fds[i := ys ! i]) xs [0..<n] = ys"
proof -
  have "length (foldl (\<lambda>fds i. fds[i := ys ! i]) xs [0..<k]) = n \<and>
      (\<forall>j < k. foldl (\<lambda>fds i. fds[i := ys ! i]) xs [0..<k] ! j = ys ! j)" if "k \<le> n" for k
    using that by (induction k) (auto simp: assms nth_list_update less_Suc_eq)
  then show ?thesis using assms by (auto intro: nth_equalityI)
qed

lemma destroy_fds_loop_eq:
  assumes "ctx_wf c" "fds_filled c" "set is \<subseteq> {..<file_desc_entries c}"
  shows "destroy_fds_loop c is s = mfold fd_put (slot_files c is) s"
  using assms(3)
proof (induction "is" arbitrary: s)
  case (Cons i "is")
  have i: "i < file_desc_entries c" "i < length (file_desc c)" using Cons.prems(1) assms(1) by (auto simp: ctx_wf_def)
  from assms(1,2) i(1) show ?case
    by (cases rule: fdtab_open) (use i Cons in \<open>auto simp: fun_eq_iff intro: Option.bind_cong\<close>)
qed simp

text \<open>Fork: the child's table is the parent's, and each of its descriptors holds a reference.\<close>

lemma copy_file_descriptors_wp:
  assumes inv: "fd_inv iext dext ext s" and lock: "\<not> fdlock (ctx s)"
  shows "wp (copy_file_descriptors E child s) (\<lambda>(r, child', s').
     ctx s' = ctx s \<and> same_files s s' \<and>
     (if r < 0 then r = - ENOMEM \<and> fd_inv iext dext ext s'
      else r = 0 \<and> ctx_wf child' \<and> fds_filled child' \<and> fdtab child' = fdtab (ctx s) \<and> ctx_frame child child' \<and>
        fd_inv iext dext (\<lambda>f. ext f + card (holders child' f)) s'))"
    (is "wp _ ?Q")
proof -
  let ?c = "(ctx s)\<lparr>fdlock := True\<rparr>" and ?n = "file_desc_entries (ctx s)" and ?m = "mem_ctr s"
  let ?s = "s\<lparr>ctx := ?c, mem_ctr := Suc (Suc (Suc ?m))\<rparr>"
  let ?child = "child\<lparr>file_desc := map (junk_ptr E ?m) [0..<?n], file_desc_entries := ?n,
      cloexec_fds := cloexec_fds (ctx s), open_fds := open_fds (ctx s)\<rparr>"
  have wf: "ctx_wf (ctx s)" "fds_filled (ctx s)" "vfs_inv iext dext s" and cnt: "\<And>f. fcount s f = ext f + ctx_refs (ctx s) f"
    using inv by (auto simp: fd_inv_def)
  have all: "take (?n div 64) (open_fds (ctx s)) = open_fds (ctx s)"
    "take (?n div 64) (cloexec_fds (ctx s)) = cloexec_fds (ctx s)"
    using wf(1) by (auto simp: ctx_wf_def)
  let ?child' = "?child\<lparr>file_desc := file_desc (ctx s)\<rparr>"
  have bits: "fd_is_open j ?child' = fd_is_open j (ctx s)" "fd_is_cloexec j ?child' = fd_is_cloexec j (ctx s)" for j
    by (simp_all add: fd_is_open_alt fd_is_cloexec_alt)
  then have tab: "fdtab ?child' = fdtab (ctx s)" by (simp add: fdtab_def fun_eq_iff)
  have loop: "copy_fds_loop ?c [0..<?n] ?child ?s = map_option (Pair ?child') (mfold fd_get (slot_files ?c [0..<?n]) ?s)"
    using copy_fds_loop_eq [of ?c "[0..<?n]" ?child ?s] wf(1,2) all foldl_upd_nth [of _ ?n "file_desc (ctx s)"]
    by (simp add: ctx_wf_def fds_filled_def subset_eq)
  have gets: "wp (mfold fd_get (slot_files ?c [0..<?n]) ?s) (\<lambda>s'. vfs_inv iext dext s' \<and>
      fcount s' = (\<lambda>f. fcount s f + card (holders (ctx s) f)) \<and> refs_frame ?s s')"
  proof -
    have "0 < fcount ?s f" if "f \<in> set (slot_files ?c [0..<?n])" for f
      using that fd_inv_count_pos [OF inv] by (auto simp: set_slot_files)
    then show ?thesis
      using file_refs.get_list [of iext dext ?s "slot_files ?c [0..<?n]"] wf(3) count_slot_files_all [of ?c]
      by (simp add: holders_def)
  qed
  have "wp (Option.bind (copy_fds_loop ?c [0..<?n] ?child ?s)
      (\<lambda>(child3, s4). Option.bind (unlock_fds s4) (\<lambda>s'. Some (0, child3, s')))) ?Q"
    unfolding loop wp_simps wp_map
  proof (rule wp_mono [OF gets], goal_cases)
    case s': (1 s')
    then have fr: "ctx s' = ?c" "same_files s s'" using refs_frame_kst [of ?s s'] by auto
    have "ctx_wf ?child'" "fds_filled ?child'" "ctx_frame child ?child'"
      using wf(1,2) bits tab by (auto simp: ctx_wf_def fds_filled_def ctx_frame_def)
    moreover have id: "(ctx s)\<lparr>fdlock := False\<rparr> = ctx s" using lock by simp
    moreover have "fd_inv iext dext (\<lambda>f. ext f + card (holders ?child' f)) (s'\<lparr>ctx := (ctx s')\<lparr>fdlock := False\<rparr>\<rparr>)"
      using wf s' cnt tab by (simp add: fd_inv_def holders_def fr(1) id del: fd_inv_lock)
    ultimately show ?case
      using fr tab by (simp add: wp_simps del: fd_inv_lock)
  qed
  moreover have "fd_inv iext dext ext (s\<lparr>mem_ctr := m, ctx := (ctx s)\<lparr>fdlock := False\<rparr>\<rparr>)" for m
    using inv lock by (simp add: fd_inv_def)
  ultimately show ?thesis
    using lock
    by (cases "malloc_ok E ?m"; cases "malloc_ok E (Suc ?m)"; cases "malloc_ok E (Suc (Suc ?m))")
      (simp_all add: copy_file_descriptors_def wp_simps malloc_def Let_def FDS_PER_LONG_def all)
qed

text \<open>Exit: the references of the table are given back and the table is empty.\<close>

lemma process_destroy_file_descriptors_wp:
  assumes inv: "fd_inv iext dext ext s" and lock: "\<not> fdlock (ctx s)"
  shows "wp (process_destroy_file_descriptors s) (\<lambda>s'. vfs_inv iext dext s' \<and> same_files s s' \<and>
     fcount s' = (\<lambda>f. ext f + of_bool (cwd (ctx s) = Some f)) \<and>
     (\<forall>fd. fdtab (ctx s') fd = None) \<and> file_desc_entries (ctx s') = 0 \<and> ctx_frame (ctx s) (ctx s'))"
proof -
  let ?c = "(ctx s)\<lparr>fdlock := True\<rparr>"
  let ?s = "s\<lparr>ctx := ?c\<rparr>" and ?fs = "slot_files ?c [0..<file_desc_entries ?c]"
  have wf: "ctx_wf ?c" "fds_filled ?c" "vfs_inv iext dext ?s" and cnt: "\<And>f. fcount s f = ext f + ctx_refs (ctx s) f"
    using inv by (auto simp: fd_inv_def ctx_wf_def fds_filled_def)
  have "count_list ?fs f = card (holders (ctx s) f)" for f
    using count_slot_files_all [of ?c] by (simp add: holders_def)
  then have "wp (mfold fd_put ?fs ?s) (\<lambda>s'. vfs_inv iext dext s' \<and>
      fcount s' = (\<lambda>f. ext f + of_bool (cwd (ctx s) = Some f)) \<and> ctx s' = ?c \<and> same_files s s')"
    using file_refs.put_list [of iext dext ?s ?fs] wf(3) cnt
    by (auto simp: ctx_refs_def dest: refs_frame_kst elim!: wp_mono)
  then show ?thesis
    unfolding process_destroy_file_descriptors_def
    using lock destroy_fds_loop_eq [OF wf(1,2), of "[0..<file_desc_entries ?c]" ?s]
    by (auto simp: subset_eq wp_simps fdtab_def ctx_frame_def elim!: wp_mono)
qed

section \<open>Close-on-exec\<close>

lemma cloexec_loop_wp:
  assumes "fd_inv iext dext ext s" "set is \<subseteq> {..<file_desc_entries (ctx s)}"
  shows "wp (cloexec_loop is s) (\<lambda>s'. fd_inv iext dext ext s' \<and> same_files s s' \<and> ctx_frame (ctx s) (ctx s') \<and>
      fdtab (ctx s') = (\<lambda>fd. if fd \<in> set is \<and> (\<exists>f. fdtab (ctx s) fd = Some (f, True)) then None else fdtab (ctx s) fd))"
    (is "wp _ (?Q is s)")
  using assms
proof (induction "is" arbitrary: s)
  case (Cons i "is")
  have wf: "ctx_wf (ctx s)" "fds_filled (ctx s)" and i: "i < file_desc_entries (ctx s)" "i < length (file_desc (ctx s))"
    and is_in: "set is \<subseteq> {..<file_desc_entries (ctx s)}"
    using Cons.prems by (auto simp: fd_inv_def ctx_wf_def)
  obtain b where b: "fd_is_cloexec i (ctx s) = Some b"
    using cloexec_bits.rd_in [of i "ctx s"] i wf(1) by (auto simp: ctx_wf_def)
  have step: "wp (cloexec_loop is s1) (?Q (i # is) s)"
    if s1: "fd_inv iext dext ext s1" "same_files s s1" "ctx_frame (ctx s) (ctx s1)"
      "file_desc_entries (ctx s1) = file_desc_entries (ctx s)"
      "fdtab (ctx s1) = (if \<exists>f. fdtab (ctx s) i = Some (f, True) then (fdtab (ctx s))(i := None) else fdtab (ctx s))" for s1
  proof (rule wp_mono [OF Cons.IH])
    show "fd_inv iext dext ext s1" "set is \<subseteq> {..<file_desc_entries (ctx s1)}" using s1 is_in by auto
    fix s' assume "?Q is s1 s'"
    then show "?Q (i # is) s s'"
      using s1 same_files_trans [OF s1(2)] ctx_frame_trans [OF s1(3)] by (auto simp: fun_eq_iff)
  qed
  show ?case
  proof (cases "file_desc (ctx s) ! i = None \<or> \<not> b")
    case True
    then have "\<nexists>f. fdtab (ctx s) i = Some (f, True)" using b by (auto simp: fdtab_def split: if_splits)
    then show ?thesis using step [OF Cons.prems(1)] True b i by (auto simp: wp_simps)
  next
    case False
    have "fdtab (ctx s) i \<noteq> None \<Longrightarrow> \<exists>f. fdtab (ctx s) i = Some (f, True)"
      using b False by (auto simp: fdtab_def split: if_splits)
    then have "wp (Option.bind (file_close_unlocked (int i) s) (\<lambda>(ret, s'). cloexec_loop is s')) (?Q (i # is) s)"
      by (intro wp_bindI [OF file_close_unlocked_wp [OF Cons.prems(1), of "int i"]])
        (clarify, rule step, auto simp: fd_lookup_def split: if_splits)
    then show ?thesis using False b i by (auto simp: wp_simps)
  qed
qed (simp add: wp_simps)

lemma file_do_cloexec_wp:
  assumes inv: "fd_inv iext dext ext s" and lock: "\<not> fdlock (ctx s)"
  shows "wp (file_do_cloexec s) (\<lambda>s'. fd_inv iext dext ext s' \<and> same_files s s' \<and> ctx_frame (ctx s) (ctx s') \<and>
      fdtab (ctx s') = (\<lambda>fd. if \<exists>f. fdtab (ctx s) fd = Some (f, True) then None else fdtab (ctx s) fd))"
proof -
  let ?s = "s\<lparr>ctx := (ctx s)\<lparr>fdlock := True\<rparr>\<rparr>"
  have "wp (cloexec_loop [0..<file_desc_entries (ctx ?s)] ?s) (\<lambda>s'. fd_inv iext dext ext s' \<and> same_files s s' \<and>
      ctx_frame (ctx ?s) (ctx s') \<and>
      fdtab (ctx s') = (\<lambda>fd. if \<exists>f. fdtab (ctx s) fd = Some (f, True) then None else fdtab (ctx s) fd))"
    by (rule wp_mono [OF cloexec_loop_wp [of iext dext ext]])
      (use inv in \<open>auto simp: subset_eq fun_eq_iff dest: fdtab_bound\<close>)
  then show ?thesis
    using lock by (auto simp: file_do_cloexec_def wp_simps ctx_frame_def elim!: wp_mono)
qed
end
