(* ===== verification/Fd_Syscalls.thy ===== *)
theory Fd_Syscalls
  imports Vfs_Ops Fd_Lifetime
begin

text \<open>
  The system calls of \<open>kernel/kernel/fs/file.cpp\<close> that work on a file descriptor: reading and writing (plain,
  positioned, scattered), seeking, truncating, \<open>ioctl\<close>, directories, duplication, \<open>fcntl\<close>, attributes, the working
  directory and the umask, and the opening of a descriptor for a file that has been looked up.

  The class \<open>auto_file\<close>, whose destructor drops the reference to the file on every way out, and the explicit \<open>fd_put\<close>
  on every path of the older functions, are both the combinator \<open>with_fd\<close>.
\<close>

unbundle bit_operations_syntax

section \<open>Descriptors\<close>

definition get_fd :: "int \<Rightarrow> sys \<Rightarrow> (nat option \<times> sys) option" where
  "get_fd fd s = do {
     (r, k) \<leftarrow> get_file_description fd (ks s);
     case r of
       Inl e \<Rightarrow> Some (None, s\<lparr>ks := k, errno := e\<rparr>)
     | Inr f \<Rightarrow> Some (Some f, s\<lparr>ks := k\<rparr>)
   }"

definition put_fd :: "nat \<Rightarrow> sys \<Rightarrow> sys option" where
  "put_fd f s = do { k \<leftarrow> fd_put f (ks s); Some (s\<lparr>ks := k\<rparr>) }"

definition with_fd :: "int \<Rightarrow> (nat \<Rightarrow> sys \<Rightarrow> (int \<times> sys) option) \<Rightarrow> sys \<Rightarrow> (int \<times> sys) option" where
  "with_fd fd body s = do {
     (r, s1) \<leftarrow> get_fd fd s;
     case r of
       None \<Rightarrow> Some (- errno s1, s1)
     | Some f \<Rightarrow> do {
         (ret, s2) \<leftarrow> body f s1;
         s3 \<leftarrow> put_fd f s2;
         Some (ret, s3)
       }
   }"

text \<open>\<open>__sync_add_and_fetch(&f->f_seek, n)\<close>\<close>

definition add_seek :: "nat \<Rightarrow> int \<Rightarrow> sys \<Rightarrow> (u64 \<times> sys) option" where
  "add_seek f n s = do {
     fl \<leftarrow> files (ks s) f;
     let pos = f_seek fl + word_of_int n;
     Some (pos, set_file f (fl\<lparr>f_seek := pos\<rparr>) s)
   }"

text \<open>\<open>f->f_seek = pos\<close>\<close>

definition set_seek :: "nat \<Rightarrow> u64 \<Rightarrow> sys \<Rightarrow> sys option" where
  "set_seek f pos s = do {
     fl \<leftarrow> files (ks s) f;
     Some (set_file f (fl\<lparr>f_seek := pos\<rparr>) s)
   }"

definition may_access :: "nat \<Rightarrow> u32 \<Rightarrow> sys \<Rightarrow> bool option" where
  "may_access f access s = do { fl \<leftarrow> files (ks s) f; Some (fd_may_access fl access) }"

section \<open>Reading and writing\<close>

definition sys_read :: "senv \<Rightarrow> int \<Rightarrow> nat \<Rightarrow> u64 \<Rightarrow> sys \<Rightarrow> (int \<times> sys) option" where
  "sys_read E fd buf count = with_fd fd (\<lambda>f s. do {
     ok \<leftarrow> may_access f FILE_ACCESS_READ s;
     if \<not> ok then Some (- EBADF, s)
     else do {
       fl \<leftarrow> files (ks s) f;
       (n, s1) \<leftarrow> read_vfs E (f_seek fl) count buf f s;
       if n < 0 then Some (- errno s1, s1)
       else do {
         (pos, s2) \<leftarrow> add_seek f n s1;
         Some (n, s2)
       }
     }
   })"

text \<open>\<open>if (f->f_flags & O_APPEND) f->f_seek = f->f_ino->i_size\<close>, in \<open>write\<close>, \<open>writev\<close> and \<open>handle_open_flags\<close>\<close>

definition seek_append :: "nat \<Rightarrow> u32 \<Rightarrow> sys \<Rightarrow> sys option" where
  "seek_append f flags s = do {
     (fl, ino) \<leftarrow> file_inode f s;
     if flags AND O_APPEND \<noteq> 0 then set_seek f (i_size ino) s else Some s
   }"

definition sys_write :: "senv \<Rightarrow> int \<Rightarrow> nat \<Rightarrow> u64 \<Rightarrow> sys \<Rightarrow> (int \<times> sys) option" where
  "sys_write E fd buf count = with_fd fd (\<lambda>f s. do {
     ok \<leftarrow> may_access f FILE_ACCESS_WRITE s;
     if \<not> ok then Some (- EBADF, s)
     else do {
       fl0 \<leftarrow> files (ks s) f;
       s0 \<leftarrow> seek_append f (f_flags fl0) s;
       fl \<leftarrow> files (ks s0) f;
       (n, s1) \<leftarrow> write_vfs E (f_seek fl) count buf f s0;
       if n = - 1 then Some (- errno s1, s1)
       else do {
         (pos, s2) \<leftarrow> add_seek f n s1;
         Some (n, s2)
       }
     }
   })"

definition sys_pread :: "senv \<Rightarrow> int \<Rightarrow> nat \<Rightarrow> u64 \<Rightarrow> int \<Rightarrow> sys \<Rightarrow> (int \<times> sys) option" where
  "sys_pread E fd buf count offset = with_fd fd (\<lambda>f s. do {
     ok \<leftarrow> may_access f FILE_ACCESS_READ s;
     if \<not> ok then Some (- EBADF, s)
     else if offset < 0 then Some (- EINVAL, s)
     else do {
       (n, s1) \<leftarrow> read_vfs E (word_of_int offset) count buf f s;
       if n < 0 then Some (- errno s1, s1) else Some (n, s1)
     }
   })"

definition sys_pwrite :: "senv \<Rightarrow> int \<Rightarrow> nat \<Rightarrow> u64 \<Rightarrow> int \<Rightarrow> sys \<Rightarrow> (int \<times> sys) option" where
  "sys_pwrite E fd buf count offset = with_fd fd (\<lambda>f s. do {
     ok \<leftarrow> may_access f FILE_ACCESS_WRITE s;
     if \<not> ok then Some (- EBADF, s)
     else if offset < 0 then Some (- EINVAL, s)
     else do {
       (n, s1) \<leftarrow> write_vfs E (word_of_int offset) count buf f s;
       if n < 0 then Some (- errno s1, s1) else Some (n, s1)
     }
   })"

subsection \<open>Scattered reading and writing\<close>

text \<open>A \<open>struct iovec\<close> in the user's memory: a pointer and a length of eight bytes each.\<close>

definition le_bytes :: "u8 list \<Rightarrow> nat" where
  "le_bytes bs = foldr (\<lambda>b n. unat b + 256 * n) bs 0"

definition read_iovec :: "nat \<Rightarrow> umem \<Rightarrow> (nat \<times> u64) option" where
  "read_iovec a m =
     (let (st, bs) = copy_from_user a 16 m
      in if st < 0 then None else Some (le_bytes (take 8 bs), of_nat (le_bytes (drop 8 bs))))"

text \<open>The loops over the vector. The first component of the result is \<open>None\<close> for \<open>goto error\<close>, else the count.\<close>

fun readv_loop :: "senv \<Rightarrow> nat \<Rightarrow> nat \<Rightarrow> nat \<Rightarrow> u64 \<Rightarrow> sys \<Rightarrow> (u64 option \<times> sys) option" where
  "readv_loop E f 0 vec rd s = Some (Some rd, s)"
| "readv_loop E f (Suc n) vec rd s =
     (case read_iovec vec (um s) of
        None \<Rightarrow> Some (None, s\<lparr>errno := EFAULT\<rparr>)
      | Some (base, len) \<Rightarrow>
          if len = 0 then readv_loop E f n (vec + 16) rd s
          else do {
            fl \<leftarrow> files (ks s) f;
            (was_read, s1) \<leftarrow> read_vfs E (f_seek fl) len base f s;
            if was_read < 0 then Some (Some rd, s1)
            else do {
              (pos, s2) \<leftarrow> add_seek f was_read s1;
              let rd' = rd + word_of_int was_read;
              if word_of_int was_read \<noteq> len then Some (Some rd', s2)
              else readv_loop E f n (vec + 16) rd' s2
            }
          })"

fun writev_loop :: "senv \<Rightarrow> nat \<Rightarrow> nat \<Rightarrow> nat \<Rightarrow> u64 \<Rightarrow> sys \<Rightarrow> (u64 option \<times> sys) option" where
  "writev_loop E f 0 vec wr s = Some (Some wr, s)"
| "writev_loop E f (Suc n) vec wr s =
     (case read_iovec vec (um s) of
        None \<Rightarrow> Some (None, s\<lparr>errno := EFAULT\<rparr>)
      | Some (base, len) \<Rightarrow>
          if len = 0 then writev_loop E f n (vec + 16) wr s
          else do {
            fl0 \<leftarrow> files (ks s) f;
            s0 \<leftarrow> seek_append f (f_flags fl0) s;
            fl \<leftarrow> files (ks s0) f;
            (was_written, s1) \<leftarrow> write_vfs E (f_seek fl) len base f s0;
            (pos, s2) \<leftarrow> add_seek f was_written s1;
            let wr' = wr + word_of_int was_written;
            if word_of_int was_written \<noteq> len then Some (Some wr', s2)
            else writev_loop E f n (vec + 16) wr' s2
          })"

fun preadv_loop :: "senv \<Rightarrow> nat \<Rightarrow> nat \<Rightarrow> nat \<Rightarrow> u64 \<Rightarrow> u64 \<Rightarrow> sys \<Rightarrow> (u64 option \<times> sys) option" where
  "preadv_loop E f 0 vec offset rd s = Some (Some rd, s)"
| "preadv_loop E f (Suc n) vec offset rd s =
     (case read_iovec vec (um s) of
        None \<Rightarrow> Some (None, s\<lparr>errno := EFAULT\<rparr>)
      | Some (base, len) \<Rightarrow>
          if len = 0 then preadv_loop E f n (vec + 16) offset rd s
          else do {
            (was_read, s1) \<leftarrow> read_vfs E offset len base f s;
            if was_read < 0 then Some (Some rd, s1)
            else do {
              let rd' = rd + word_of_int was_read;
              if word_of_int was_read \<noteq> len then Some (Some rd', s1)
              else preadv_loop E f n (vec + 16) (offset + word_of_int was_read) rd' s1
            }
          })"

fun pwritev_loop :: "senv \<Rightarrow> nat \<Rightarrow> nat \<Rightarrow> nat \<Rightarrow> u64 \<Rightarrow> u64 \<Rightarrow> sys \<Rightarrow> (u64 option \<times> sys) option" where
  "pwritev_loop E f 0 vec offset wr s = Some (Some wr, s)"
| "pwritev_loop E f (Suc n) vec offset wr s =
     (case read_iovec vec (um s) of
        None \<Rightarrow> Some (None, s\<lparr>errno := EFAULT\<rparr>)
      | Some (base, len) \<Rightarrow>
          if len = 0 then pwritev_loop E f n (vec + 16) offset wr s
          else do {
            (was_written, s1) \<leftarrow> write_vfs E offset len base f s;
            let wr' = wr + word_of_int was_written;
            if word_of_int was_written \<noteq> len then Some (Some wr', s1)
            else pwritev_loop E f n (vec + 16) (offset + word_of_int was_written) wr' s1
          })"

text \<open>What the four calls have in common around their loop.\<close>

definition with_vec ::
  "int \<Rightarrow> nat \<Rightarrow> int \<Rightarrow> u32 \<Rightarrow> (nat \<Rightarrow> sys \<Rightarrow> (u64 option \<times> sys) option) \<Rightarrow> sys \<Rightarrow> (int \<times> sys) option" where
  "with_vec fd vec veccnt access loop = with_fd fd (\<lambda>f s.
     if vec = 0 then Some (- EINVAL, s\<lparr>errno := EINVAL\<rparr>)
     else if veccnt = 0 then Some (0, s)
     else do {
       ok \<leftarrow> may_access f access s;
       if \<not> ok then Some (- EBADF, s\<lparr>errno := EBADF\<rparr>)
       else do {
         (r, s1) \<leftarrow> loop f s;
         case r of None \<Rightarrow> Some (- errno s1, s1) | Some n \<Rightarrow> Some (sint n, s1)
       }
     })"

definition sys_readv :: "senv \<Rightarrow> int \<Rightarrow> nat \<Rightarrow> int \<Rightarrow> sys \<Rightarrow> (int \<times> sys) option" where
  "sys_readv E fd vec veccnt = with_vec fd vec veccnt FILE_ACCESS_READ (\<lambda>f. readv_loop E f (nat veccnt) vec 0)"

definition sys_writev :: "senv \<Rightarrow> int \<Rightarrow> nat \<Rightarrow> int \<Rightarrow> sys \<Rightarrow> (int \<times> sys) option" where
  "sys_writev E fd vec veccnt = with_vec fd vec veccnt FILE_ACCESS_WRITE (\<lambda>f. writev_loop E f (nat veccnt) vec 0)"

definition sys_preadv :: "senv \<Rightarrow> int \<Rightarrow> nat \<Rightarrow> int \<Rightarrow> int \<Rightarrow> sys \<Rightarrow> (int \<times> sys) option" where
  "sys_preadv E fd vec veccnt offset =
     with_vec fd vec veccnt FILE_ACCESS_READ (\<lambda>f. preadv_loop E f (nat veccnt) vec (word_of_int offset) 0)"

definition sys_pwritev :: "senv \<Rightarrow> int \<Rightarrow> nat \<Rightarrow> int \<Rightarrow> int \<Rightarrow> sys \<Rightarrow> (int \<times> sys) option" where
  "sys_pwritev E fd vec veccnt offset =
     with_vec fd vec veccnt FILE_ACCESS_WRITE (\<lambda>f. pwritev_loop E f (nat veccnt) vec (word_of_int offset) 0)"

section \<open>Directories, ioctl, truncation, seeking\<close>

definition sys_getdents :: "senv \<Rightarrow> int \<Rightarrow> nat \<Rightarrow> nat \<Rightarrow> sys \<Rightarrow> (int \<times> sys) option" where
  "sys_getdents E fd dirp count s =
     (if count = 0 then Some (- EINVAL, s)
      else with_fd fd (\<lambda>f s. do {
        fl \<leftarrow> files (ks s) f;
        (ret, ret_buf, s1) \<leftarrow> getdents_vfs E count dirp (sint (f_seek fl)) \<lparr>gd_read = 0, gd_new_off = 0\<rparr> f s;
        if ret < 0 then Some (- errno s1, s1)
        else do {
          s2 \<leftarrow> set_seek f (word_of_int (gd_new_off ret_buf)) s1;
          Some (int (gd_read ret_buf), s2)
        }
      }) s)"

definition sys_ioctl :: "senv \<Rightarrow> int \<Rightarrow> u32 \<Rightarrow> nat \<Rightarrow> sys \<Rightarrow> (int \<times> sys) option" where
  "sys_ioctl E fd request argp = with_fd fd (ioctl_vfs E request argp)"

definition sys_ftruncate :: "senv \<Rightarrow> int \<Rightarrow> int \<Rightarrow> sys \<Rightarrow> (int \<times> sys) option" where
  "sys_ftruncate E fd len = with_fd fd (\<lambda>f s. do {
     ok \<leftarrow> may_access f FILE_ACCESS_WRITE s;
     if \<not> ok then Some (- EBADF, s) else ftruncate_vfs E len f s
   })"

definition sys_fallocate :: "senv \<Rightarrow> int \<Rightarrow> int \<Rightarrow> int \<Rightarrow> int \<Rightarrow> sys \<Rightarrow> (int \<times> sys) option" where
  "sys_fallocate E fd mode offset len = with_fd fd (fallocate_vfs E mode offset len)"

definition VFS_TYPE_FIFO :: u32 where "VFS_TYPE_FIFO = 64"
abbreviation SEEK_SET :: int where "SEEK_SET \<equiv> 0"
abbreviation SEEK_CUR :: int where "SEEK_CUR \<equiv> 1"
abbreviation SEEK_END :: int where "SEEK_END \<equiv> 2"

definition sys_lseek :: "int \<Rightarrow> int \<Rightarrow> int \<Rightarrow> sys \<Rightarrow> (int \<times> sys) option" where
  "sys_lseek fd offset whence = with_fd fd (\<lambda>f s. do {
     (fl, ino) \<leftarrow> file_inode f s;
     if i_type ino = VFS_TYPE_FIFO \<or> i_flags ino AND INODE_FLAG_NO_SEEK \<noteq> 0 then Some (- ESPIPE, s)
     else if whence = SEEK_CUR then do {
       (pos, s1) \<leftarrow> add_seek f offset s;
       Some (sint pos, s1)
     }
     else if whence = SEEK_SET then do {
       s1 \<leftarrow> set_seek f (word_of_int offset) s;
       Some (sint (word_of_int offset :: u64), s1)
     }
     else if whence = SEEK_END then do {
       let pos = i_size ino + word_of_int offset;
       s1 \<leftarrow> set_seek f pos s;
       Some (sint pos, s1)
     }
     else Some (- EINVAL, s)
   })"

section \<open>Duplication and closing\<close>

definition set_ctx :: "ioctx \<Rightarrow> sys \<Rightarrow> sys" where
  "set_ctx c s = s\<lparr>ks := (ks s)\<lparr>ctx := c\<rparr>\<rparr>"

definition unlock_sys :: "sys \<Rightarrow> sys option" where
  "unlock_sys s = do { k \<leftarrow> unlock_fds (ks s); Some (s\<lparr>ks := k\<rparr>) }"

definition sys_close :: "int \<Rightarrow> sys \<Rightarrow> (int \<times> sys) option" where
  "sys_close fd s = do { (r, k) \<leftarrow> file_close fd (ks s); Some (r, s\<lparr>ks := k\<rparr>) }"

text \<open>\<open>ioctx->file_desc[fd] = f\<close>\<close>

definition set_slot :: "int \<Rightarrow> fptr \<Rightarrow> sys \<Rightarrow> sys option" where
  "set_slot fd f s = do {
     fds \<leftarrow> array_set (file_desc (ctx (ks s))) (nat fd) f;
     Some (set_ctx ((ctx (ks s))\<lparr>file_desc := fds\<rparr>) s)
   }"

definition set_cloexec :: "int \<Rightarrow> bool \<Rightarrow> sys \<Rightarrow> sys option" where
  "set_cloexec fd toggle s = do { c \<leftarrow> fd_set_cloexec (nat fd) toggle (ctx (ks s)); Some (set_ctx c s) }"

definition set_open :: "int \<Rightarrow> bool \<Rightarrow> sys \<Rightarrow> sys option" where
  "set_open fd toggle s = do { c \<leftarrow> fd_set_open (nat fd) toggle (ctx (ks s)); Some (set_ctx c s) }"

definition sys_dup :: "senv \<Rightarrow> int \<Rightarrow> sys \<Rightarrow> (int \<times> sys) option" where
  "sys_dup E fd s = do {
     (r, s1) \<leftarrow> get_fd fd s;
     case r of
       None \<Rightarrow> Some (- errno s1, s1)
     | Some f \<Rightarrow> do {
         (new_fd, k2) \<leftarrow> alloc_fd (se_k E) 0 (ks s1);
         let s2 = s1\<lparr>ks := k2\<rparr>;
         if new_fd < 0 then do {
           s3 \<leftarrow> put_fd f s2;
           Some (new_fd, s3)
         }
         else do {
           s3 \<leftarrow> set_slot new_fd (Some f) s2;
           s4 \<leftarrow> unlock_sys s3;
           Some (new_fd, s4)
         }
       }
   }"

text \<open>The common tail of \<open>dup2\<close> and \<open>dup3\<close>, with the descriptor lock held: the slot of \<open>newfd\<close> is closed if it is
  not null, takes over the pointer in the slot of \<open>oldfd\<close>, and is marked open.\<close>

definition dup_into :: "int \<Rightarrow> int \<Rightarrow> bool \<Rightarrow> sys \<Rightarrow> sys option" where
  "dup_into oldfd newfd cloexec s = do {
     p \<leftarrow> array_get (file_desc (ctx (ks s))) (nat newfd);
     s1 \<leftarrow> (if p \<noteq> None then do { (r, k) \<leftarrow> file_close_unlocked newfd (ks s); Some (s\<lparr>ks := k\<rparr>) } else Some s);
     q \<leftarrow> array_get (file_desc (ctx (ks s1))) (nat oldfd);
     s2 \<leftarrow> set_slot newfd q s1;
     s3 \<leftarrow> set_cloexec newfd cloexec s2;
     set_open newfd True s3
   }"

text \<open>What \<open>dup2\<close> and \<open>dup3\<close> do under the descriptor lock; they differ in what they return if the descriptors are the
  same (\<open>same\<close>) and in the close-on-exec flag.\<close>

definition dup_locked :: "senv \<Rightarrow> int \<Rightarrow> int \<Rightarrow> int \<Rightarrow> bool \<Rightarrow> sys \<Rightarrow> (int \<times> sys) option" where
  "dup_locked E oldfd newfd same cloexec s = do {
     k0 \<leftarrow> lock_fds (ks s);
     (r, k1) \<leftarrow> get_file_description_unlocked oldfd k0;
     case r of
       Inl e \<Rightarrow> do {
         s1 \<leftarrow> unlock_sys (s\<lparr>ks := k1, errno := e\<rparr>);
         Some (- e, s1)
       }
     | Inr f \<Rightarrow> do {
         (st, k2) \<leftarrow> (if file_desc_entries (ctx k1) < nat newfd
                     then enlarge_file_descriptor_table (se_k E) (nat newfd + 1) k1 else Some (0, k1));
         let s2 = s\<lparr>ks := k2\<rparr>;
         if st < 0 then do {
           s3 \<leftarrow> put_fd f s2;
           s4 \<leftarrow> unlock_sys s3;
           Some (st, s4)
         }
         else if oldfd = newfd then do {
           s3 \<leftarrow> unlock_sys s2;
           Some (same, s3)
         }
         else do {
           s3 \<leftarrow> dup_into oldfd newfd cloexec s2;
           s4 \<leftarrow> unlock_sys s3;
           Some (newfd, s4)
         }
       }
   }"

definition sys_dup2 :: "senv \<Rightarrow> int \<Rightarrow> int \<Rightarrow> sys \<Rightarrow> (int \<times> sys) option" where
  "sys_dup2 E oldfd newfd s =
     (if newfd < 0 \<or> oldfd < 0 then Some (- EBADF, s)
      else dup_locked E oldfd newfd newfd False s)"

definition sys_dup3 :: "senv \<Rightarrow> int \<Rightarrow> int \<Rightarrow> u32 \<Rightarrow> sys \<Rightarrow> (int \<times> sys) option" where
  "sys_dup3 E oldfd newfd flags s =
     (if newfd < 0 \<or> oldfd < 0 then Some (- EINVAL, s)
      else if flags AND NOT O_CLOEXEC \<noteq> 0 then Some (- EINVAL, s)
      else dup_locked E oldfd newfd (- EINVAL) (flags AND O_CLOEXEC \<noteq> 0) s)"

text \<open>\<open>file_alloc\<close> and \<open>alloc_fd\<close> do not set \<open>errno\<close>, so \<open>open_with_vnode\<close> returns whatever it held before when they fail.\<close>

definition open_with_vnode :: "senv \<Rightarrow> nat \<Rightarrow> u32 \<Rightarrow> sys \<Rightarrow> (int \<times> sys) option" where
  "open_with_vnode E node flags s = do {
     (fd_num, k1) \<leftarrow> file_alloc (se_k E) node (ks s);
     let s1 = s\<lparr>ks := k1\<rparr>;
     if fd_num < 0 then Some (- errno s1, s1)
     else do {
       fl \<leftarrow> files (ks s1) node;
       let s2 = set_file node (fl\<lparr>f_seek := 0, f_flags := flags\<rparr>) s1;
       s3 \<leftarrow> seek_append node flags s2;
       s4 \<leftarrow> set_cloexec fd_num (flags AND O_CLOEXEC \<noteq> 0) s3;
       s5 \<leftarrow> unlock_sys s4;
       Some (fd_num, s5)
     }
   }"

section \<open>fcntl\<close>

definition do_dupfd :: "senv \<Rightarrow> nat \<Rightarrow> int \<Rightarrow> bool \<Rightarrow> sys \<Rightarrow> (int \<times> sys) option" where
  "do_dupfd E f fdbase cloexec s =
     (if fdbase < 0 then Some (- EBADF, s)
      else do {
        (new_fd, k1) \<leftarrow> alloc_fd (se_k E) fdbase (ks s);
        let s1 = s\<lparr>ks := k1\<rparr>;
        if new_fd < 0 then Some (new_fd, s1)
        else do {
          s2 \<leftarrow> set_slot new_fd (Some f) s1;
          k3 \<leftarrow> fd_get f (ks s2);
          s4 \<leftarrow> set_cloexec new_fd cloexec (s2\<lparr>ks := k3\<rparr>);
          s5 \<leftarrow> unlock_sys s4;
          Some (new_fd, s5)
        }
      })"

abbreviation FD_CLOEXEC :: int where "FD_CLOEXEC \<equiv> 1"

definition fcntl_f_getfd :: "int \<Rightarrow> sys \<Rightarrow> (int \<times> sys) option" where
  "fcntl_f_getfd fd s = do {
     k1 \<leftarrow> lock_fds (ks s);
     v \<leftarrow> validate_fd_number fd (ctx k1);
     if \<not> v then do {
       s2 \<leftarrow> unlock_sys (s\<lparr>ks := k1\<rparr>);
       Some (- EBADF, s2)
     }
     else do {
       b \<leftarrow> fd_is_cloexec (nat fd) (ctx k1);
       s2 \<leftarrow> unlock_sys (s\<lparr>ks := k1\<rparr>);
       Some (if b then FD_CLOEXEC else 0, s2)
     }
   }"

definition fcntl_f_setfd :: "int \<Rightarrow> u64 \<Rightarrow> sys \<Rightarrow> (int \<times> sys) option" where
  "fcntl_f_setfd fd arg s = do {
     k1 \<leftarrow> lock_fds (ks s);
     v \<leftarrow> validate_fd_number fd (ctx k1);
     if \<not> v then do {
       s2 \<leftarrow> unlock_sys (s\<lparr>ks := k1\<rparr>);
       Some (- EBADF, s2)
     }
     else do {
       s2 \<leftarrow> set_cloexec fd (arg AND word_of_int FD_CLOEXEC \<noteq> 0) (s\<lparr>ks := k1\<rparr>);
       s3 \<leftarrow> unlock_sys s2;
       Some (0, s3)
     }
   }"

definition fcntl_f_getfl :: "int \<Rightarrow> sys \<Rightarrow> (int \<times> sys) option" where
  "fcntl_f_getfl fd s = do {
     k1 \<leftarrow> lock_fds (ks s);
     v \<leftarrow> validate_fd_number fd (ctx k1);
     if \<not> v then do {
       s2 \<leftarrow> unlock_sys (s\<lparr>ks := k1\<rparr>);
       Some (- EBADF, s2)
     }
     else do {
       is_cloexec \<leftarrow> fd_is_cloexec (nat fd) (ctx k1);
       s2 \<leftarrow> unlock_sys (s\<lparr>ks := k1\<rparr>);
       with_fd fd (\<lambda>f s. do {
         fl \<leftarrow> files (ks s) f;
         Some (sint (f_flags fl OR (if is_cloexec then O_CLOEXEC else 0)), s)
       }) s2
     }
   }"

definition SETFL_MASK :: u32 where
  "SETFL_MASK = O_APPEND OR O_ASYNC OR O_DIRECT OR O_NOATIME OR O_NONBLOCK"

definition fcntl_f_setfl :: "int \<Rightarrow> u64 \<Rightarrow> sys \<Rightarrow> (int \<times> sys) option" where
  "fcntl_f_setfl fd arg0 = with_fd fd (\<lambda>f s. do {
     let arg = ucast arg0 AND SETFL_MASK;
     (fl, ino) \<leftarrow> file_inode f s;
     (ok, c) \<leftarrow> (if arg AND O_NOATIME \<noteq> 0 then may_noatime ino (cr s) else Some (True, cr s));
     let s1 = s\<lparr>cr := c\<rparr>;
     if \<not> ok then Some (- EPERM, s1)
     else Some (0, set_file f (fl\<lparr>f_flags := arg OR (f_flags fl AND NOT SETFL_MASK)\<rparr>) s1)
   })"

abbreviation F_DUPFD :: int where "F_DUPFD \<equiv> 0"
abbreviation F_GETFD :: int where "F_GETFD \<equiv> 1"
abbreviation F_SETFD :: int where "F_SETFD \<equiv> 2"
abbreviation F_GETFL :: int where "F_GETFL \<equiv> 3"
abbreviation F_SETFL :: int where "F_SETFL \<equiv> 4"
abbreviation F_DUPFD_CLOEXEC :: int where "F_DUPFD_CLOEXEC \<equiv> 1030"

definition sys_fcntl :: "senv \<Rightarrow> int \<Rightarrow> int \<Rightarrow> u64 \<Rightarrow> sys \<Rightarrow> (int \<times> sys) option" where
  "sys_fcntl E fd cmd arg s =
     (if cmd = F_DUPFD \<or> cmd = F_DUPFD_CLOEXEC
      then with_fd fd (\<lambda>f. do_dupfd E f (sint (ucast arg :: u32)) (cmd = F_DUPFD_CLOEXEC)) s
      else if cmd = F_GETFD then fcntl_f_getfd fd s
      else if cmd = F_SETFD then fcntl_f_setfd fd arg s
      else if cmd = F_GETFL then fcntl_f_getfl fd s
      else if cmd = F_SETFL then fcntl_f_setfl fd arg s
      else Some (- EINVAL, s))"

section \<open>Attributes, the working directory and the umask\<close>

definition lock_cwd :: "sys \<Rightarrow> sys option" where
  "lock_cwd s = (if cwd_lock (ctx (ks s)) then None else Some (set_ctx ((ctx (ks s))\<lparr>cwd_lock := True\<rparr>) s))"

definition unlock_cwd :: "sys \<Rightarrow> sys option" where
  "unlock_cwd s = (if cwd_lock (ctx (ks s)) then Some (set_ctx ((ctx (ks s))\<lparr>cwd_lock := False\<rparr>) s) else None)"

definition get_current_directory :: "sys \<Rightarrow> (fptr \<times> sys) option" where
  "get_current_directory s = do {
     s1 \<leftarrow> lock_cwd s;
     case cwd (ctx (ks s1)) of
       None \<Rightarrow> do { s2 \<leftarrow> unlock_cwd s1; Some (None, s2) }
     | Some fp \<Rightarrow> do {
         k \<leftarrow> fd_get fp (ks s1);
         s2 \<leftarrow> unlock_cwd (s1\<lparr>ks := k\<rparr>);
         Some (Some fp, s2)
       }
   }"

text \<open>Making \<open>f\<close>, whose reference the caller holds, the working directory, and dropping the old one.\<close>

definition swap_cwd :: "nat \<Rightarrow> sys \<Rightarrow> sys option" where
  "swap_cwd f s = do {
     s1 \<leftarrow> lock_cwd s;
     let old = cwd (ctx (ks s1));
     s2 \<leftarrow> unlock_cwd (set_ctx ((ctx (ks s1))\<lparr>cwd := Some f\<rparr>) s1);
     case old of None \<Rightarrow> None | Some g \<Rightarrow> put_fd g s2
   }"

definition sys_fchdir :: "int \<Rightarrow> sys \<Rightarrow> (int \<times> sys) option" where
  "sys_fchdir fildes s = do {
     (r, s1) \<leftarrow> get_fd fildes s;
     case r of
       None \<Rightarrow> Some (- errno s1, s1)
     | Some f \<Rightarrow> do {
         (fl, ino) \<leftarrow> file_inode f s1;
         if \<not> S_ISDIR (i_mode ino) then do {
           s2 \<leftarrow> put_fd f s1;
           Some (- ENOTDIR, s2)
         }
         else do {
           s2 \<leftarrow> swap_cwd f s1;
           Some (0, s2)
         }
       }
   }"

definition sys_umask :: "u32 \<Rightarrow> sys \<Rightarrow> u32 \<times> sys" where
  "sys_umask msk s =
     (let old = umask (ctx (ks s)) in (old, set_ctx ((ctx (ks s))\<lparr>umask := msk AND 0x1ff\<rparr>) s))"

definition chmod_file :: "senv \<Rightarrow> nat \<Rightarrow> u32 \<Rightarrow> sys \<Rightarrow> (int \<times> sys) option" where
  "chmod_file E f mode s = do {
     (fl, ino) \<leftarrow> file_inode f s;
     let (st, ino') = chmod_vfs (se_now E) mode ino;
     Some (st, set_dirty (f_ino fl) ino' s)
   }"

definition sys_fchmod :: "senv \<Rightarrow> int \<Rightarrow> u32 \<Rightarrow> sys \<Rightarrow> (int \<times> sys) option" where
  "sys_fchmod E fd mode = with_fd fd (\<lambda>f. chmod_file E f mode)"

definition chown_file :: "senv \<Rightarrow> nat \<Rightarrow> u32 \<Rightarrow> u32 \<Rightarrow> sys \<Rightarrow> (int \<times> sys) option" where
  "chown_file E f owner grp s = do {
     (fl, ino) \<leftarrow> file_inode f s;
     (st, ino', c) \<leftarrow> chown_vfs (se_now E) owner grp ino (cr s);
     Some (st, (set_dirty (f_ino fl) ino' s)\<lparr>cr := c\<rparr>)
   }"

text \<open>\<open>stat_bytes\<close> is the layout of \<open>struct stat\<close> in memory.\<close>

definition sys_fstat :: "senv \<Rightarrow> (stat \<Rightarrow> u8 list) \<Rightarrow> int \<Rightarrow> nat \<Rightarrow> sys \<Rightarrow> (int \<times> sys) option" where
  "sys_fstat E stat_bytes fd ubuf = with_fd fd (\<lambda>f s. do {
     (st, buf) \<leftarrow> stat_vfs E f s;
     if st < 0 then Some (st, s)
     else
       (let (r, m) = copy_to_user ubuf (stat_bytes buf) (um s)
        in Some (r, s\<lparr>um := m\<rparr>))
   })"

end
