(* ===== verification/Fd_Calls.thy ===== *)
theory Fd_Calls
  imports Fd_Syscalls
begin

text \<open>
  Correctness of the system calls on descriptors: for each of the calls that duplicate, close, tag or seek a
  descriptor or change the working directory a lemma \<open><call>_wp\<close>, that it is safe and keeps the reference counts when the
  state is good (\<open>sys_inv\<close>), and what it does to the abstract table \<open>fdtab\<close>.
\<close>

unbundle bit_operations_syntax

definition sys_inv :: "(nat \<Rightarrow> nat) \<Rightarrow> (nat \<Rightarrow> nat) \<Rightarrow> (nat \<Rightarrow> nat) \<Rightarrow> sys \<Rightarrow> bool" where
  "sys_inv iext dext ext s \<longleftrightarrow>
     fd_inv iext dext ext (ks s) \<and> unlocked (ks s) \<and> c_lock (cr s) = 0 \<and> cwd (ctx (ks s)) \<noteq> None"

lemma sys_inv_errno [simp]:
  "sys_inv iext dext ext (s\<lparr>errno := e\<rparr>) = sys_inv iext dext ext s"
  "sys_inv iext dext ext (s\<lparr>um := m\<rparr>) = sys_inv iext dext ext s"
  by (simp_all add: sys_inv_def)

section \<open>The reference a call holds\<close>

text \<open>The outside references with one more, to \<open>f\<close>, that the running call holds.\<close>

definition held :: "nat \<Rightarrow> (nat \<Rightarrow> nat) \<Rightarrow> nat \<Rightarrow> nat" where
  "held f ext = ext(f := ext f + 1)"

text \<open>What taking and dropping references leaves alone.\<close>

definition refs_only :: "sys \<Rightarrow> sys \<Rightarrow> bool" where
  "refs_only s s' \<longleftrightarrow> ctx (ks s') = ctx (ks s) \<and> same_files (ks s) (ks s') \<and>
     mem_ctr (ks s') = mem_ctr (ks s) \<and> s' = s\<lparr>ks := ks s'\<rparr>"

lemma put_fd_wp:
  assumes "fd_inv iext dext (held f ext) (ks s)"
  shows "wp (put_fd f s) (\<lambda>s'. fd_inv iext dext ext (ks s') \<and> refs_only s s')"
  using fd_put_inv_wp [OF assms held_def] by (auto simp: put_fd_def wp_simps refs_only_def elim!: wp_mono)

lemma get_fd_wp:
  assumes "fd_inv iext dext ext (ks s)" "\<not> fdlock (ctx (ks s))"
  shows "wp (get_fd fd s) (\<lambda>(r, s1). case fd_lookup (ctx (ks s)) fd of
      None \<Rightarrow> r = None \<and> s1 = s\<lparr>errno := EBADF\<rparr>
    | Some (f, b) \<Rightarrow> r = Some f \<and> fd_inv iext dext (held f ext) (ks s1) \<and> refs_only s s1)"
proof -
  have eq: "s\<lparr>ks := ks s, errno := e\<rparr> = s\<lparr>errno := e\<rparr>" for e by (cases s) simp
  show ?thesis
    using get_file_description_wp [OF assms, of fd]
    by (cases "fd_lookup (ctx (ks s)) fd")
      (auto simp: get_fd_def wp_simps refs_only_def held_def eq elim!: wp_mono)
qed

lemma with_fd_wp:
  assumes inv: "fd_inv iext dext ext (ks s)" "\<not> fdlock (ctx (ks s))"
    and bad: "fd_lookup (ctx (ks s)) fd = None \<Longrightarrow> Q (- EBADF, s\<lparr>errno := EBADF\<rparr>)"
    and body: "\<And>f b s1. fd_lookup (ctx (ks s)) fd = Some (f, b) \<Longrightarrow> fd_inv iext dext (held f ext) (ks s1) \<Longrightarrow>
      refs_only s s1 \<Longrightarrow>
      wp (body f s1) (\<lambda>(r, s2). fd_inv iext dext (held f ext) (ks s2) \<and>
        (\<forall>s3. fd_inv iext dext ext (ks s3) \<longrightarrow> refs_only s2 s3 \<longrightarrow> Q (r, s3)))"
  shows "wp (with_fd fd body s) Q"
  unfolding with_fd_def
proof (rule wp_bindI [OF get_fd_wp [OF inv]], clarify)
  fix r s1 assume r: "case fd_lookup (ctx (ks s)) fd of None \<Rightarrow> r = None \<and> s1 = s\<lparr>errno := EBADF\<rparr>
    | Some (f, b) \<Rightarrow> r = Some f \<and> fd_inv iext dext (held f ext) (ks s1) \<and> refs_only s s1"
  show "wp (case r of None \<Rightarrow> Some (- errno s1, s1)
      | Some f \<Rightarrow> Option.bind (body f s1) (\<lambda>(ret, s2). Option.bind (put_fd f s2) (\<lambda>s3. Some (ret, s3)))) Q"
  proof (cases "fd_lookup (ctx (ks s)) fd")
    case None
    then show ?thesis using r bad by (simp add: wp_simps)
  next
    case (Some fb)
    then obtain f b where fb: "fd_lookup (ctx (ks s)) fd = Some (f, b)" by (cases fb) auto
    then have 1: "r = Some f" "fd_inv iext dext (held f ext) (ks s1)" "refs_only s s1" using r by auto
    have "wp (Option.bind (put_fd f s2) (\<lambda>s3. Some (ret, s3))) Q"
      if "fd_inv iext dext (held f ext) (ks s2)" "\<forall>s3. fd_inv iext dext ext (ks s3) \<longrightarrow> refs_only s2 s3 \<longrightarrow> Q (ret, s3)"
      for ret s2 using that by (intro wp_bindI [OF put_fd_wp [OF that(1)]]) (auto simp: wp_simps)
    then show ?thesis using 1 by (auto intro!: wp_bindI [OF body [OF fb 1(2,3)]])
  qed
qed

section \<open>Installing a file into a slot\<close>

lemma install_ctx_wp:
  assumes "ctx_wf c" "fds_filled c" "n < file_desc_entries c" "fdtab c n = None"
  shows "wp (Option.bind (fd_set_cloexec n b (c\<lparr>file_desc := (file_desc c)[n := Some f]\<rparr>)) (fd_set_open n True))
    (\<lambda>c'. ctx_wf c' \<and> fds_filled c' \<and> fdtab c' = (fdtab c)(n \<mapsto> (f, b)) \<and> ctx_frame c c' \<and>
       file_desc_entries c' = file_desc_entries c)"
proof -
  let ?c = "c\<lparr>file_desc := (file_desc c)[n := Some f]\<rparr>"
  have wf: "ctx_wf ?c" and n: "n < file_desc_entries ?c" using assms by (simp_all add: ctx_wf_def)
  show ?thesis
    unfolding wp_simps
  proof (rule wp_mono [OF wp_fd_set_cloexec [OF wf n]], rule wp_mono [OF wp_fd_set_open], goal_cases)
    case (3 c1 c2)
    have "n < length (file_desc c)" using assms by (simp add: ctx_wf_def)
    then have "fdtab c2 n = Some (f, b)" using 3 assms(3) by (simp add: fdtab_def)
    then have tab: "fdtab c2 = (fdtab c)(n \<mapsto> (f, b))" using 3 fdtab_local [of c2 c n] by simp
    moreover have "fds_filled c2" by (rule fds_filled_local [OF _ assms(2) tab]) (use 3 in auto)
    ultimately show ?case using 3 by (auto simp: ctx_frame_def)
  qed (use n in auto)
qed

section \<open>The calls\<close>

definition sys_frame :: "sys \<Rightarrow> sys \<Rightarrow> bool" where
  "sys_frame s s' \<longleftrightarrow> ctx_frame (ctx (ks s)) (ctx (ks s')) \<and> same_files (ks s) (ks s') \<and> um s' = um s \<and> cr s' = cr s"

lemma sys_frame_refl [simp]: "sys_frame s s"
  by (simp add: sys_frame_def)

lemma sys_frame_trans: "sys_frame s t \<Longrightarrow> sys_frame t u \<Longrightarrow> sys_frame s u"
  by (auto simp: sys_frame_def intro: ctx_frame_trans same_files_trans)

lemma refs_only_ctx: "refs_only s s' \<Longrightarrow> ctx (ks s') = ctx (ks s)"
  by (simp add: refs_only_def)

lemma fd_inv_ctx_lock [simp]:
  fixes k :: kst
  shows "fd_inv iext dext ext (k\<lparr>ctx := c\<lparr>fdlock := l\<rparr>\<rparr>) = fd_inv iext dext ext (k\<lparr>ctx := c\<rparr>)"
    "fd_inv iext dext ext (k\<lparr>ctx := c\<lparr>cwd_lock := l\<rparr>\<rparr>) = fd_inv iext dext ext (k\<lparr>ctx := c\<rparr>)"
    "fd_inv iext dext ext (k\<lparr>ctx := c\<lparr>umask := u\<rparr>\<rparr>) = fd_inv iext dext ext (k\<lparr>ctx := c\<rparr>)"
  by (simp_all add: fd_inv_def ctx_wf_def fds_filled_def fdtab_def ctx_refs_def holders_def)

lemma refs_only_frame: "refs_only s s' \<Longrightarrow> sys_frame s s'"
  by (cases s; cases s') (simp add: refs_only_def sys_frame_def)

lemma sys_frame_errno [simp]:
  "sys_frame s (t\<lparr>errno := e\<rparr>) = sys_frame s t" "sys_frame (s\<lparr>errno := e\<rparr>) t = sys_frame s t"
  by (simp_all add: sys_frame_def)

lemma sys_invI:
  "sys_inv iext dext ext s \<Longrightarrow> fd_inv iext dext ext' (ks s') \<Longrightarrow> sys_frame s s' \<Longrightarrow> sys_inv iext dext ext' s'"
  by (simp add: sys_inv_def sys_frame_def unlocked_def ctx_frame_def)

lemma sys_invD:
  assumes "sys_inv iext dext ext s"
  shows "fd_inv iext dext ext (ks s)" "\<not> fdlock (ctx (ks s))" "\<not> cwd_lock (ctx (ks s))" "c_lock (cr s) = 0"
    "ctx_wf (ctx (ks s))" "fds_filled (ctx (ks s))" "cwd (ctx (ks s)) \<noteq> None"
  using assms by (auto simp: sys_inv_def unlocked_def fd_inv_def)

lemma sys_close_wp:
  assumes "sys_inv iext dext ext s"
  shows "wp (sys_close fd s) (\<lambda>(r, s'). sys_inv iext dext ext s' \<and> sys_frame s s' \<and>
     (if fd_lookup (ctx (ks s)) fd = None then r = - EBADF \<and> s' = s
      else r = 0 \<and> fdtab (ctx (ks s')) = (fdtab (ctx (ks s)))(nat fd := None)))"
proof -
  have "s\<lparr>ks := ks s\<rparr> = s" by (cases s) simp
  then show ?thesis
    using file_close_wp [OF sys_invD(1,2) [OF assms], of fd] sys_invI [OF assms]
    by (auto simp: sys_close_def wp_simps sys_frame_def elim!: wp_mono)
qed

text \<open>The end of \<open>dup\<close>: the slot that was reserved takes over the reference the call holds.\<close>

lemma fill_slot_wp:
  assumes inv: "fd_inv iext dext (held f ext) (ks s)" and s1: "same_files (ks s) (ks s1)" "vfs_inv iext dext (ks s1)"
      "fcount (ks s1) = fcount (ks s)" "um s1 = um s" "cr s1 = cr s"
    and res: "reserved ((ctx (ks s))\<lparr>fdlock := True\<rparr>) fd (ctx (ks s1))" and lock: "\<not> fdlock (ctx (ks s))"
  shows "wp (Option.bind (set_slot (int fd) (Some f) s1) unlock_sys) (\<lambda>s'. fd_inv iext dext ext (ks s') \<and>
     sys_frame s s' \<and> fdtab (ctx (ks s')) = (fdtab (ctx (ks s)))(fd \<mapsto> (f, False)))"
proof -
  let ?s = "(ks s)\<lparr>ctx := (ctx (ks s))\<lparr>fdlock := True\<rparr>\<rparr>"
  have inv': "fd_inv iext dext (held f ext) ?s" and res': "reserved (ctx ?s) fd (ctx (ks s1))" using inv res by auto
  let ?c = "(ctx (ks s1))\<lparr>file_desc := (file_desc (ctx (ks s1)))[fd := Some f]\<rparr>"
  have "fd_inv iext dext ext ((ks s1)\<lparr>ctx := ?c\<rparr>)"
    by (rule fd_inv_fill [OF inv' res' s1(2)]) (use s1(3) in \<open>simp add: held_def\<close>)
  moreover note reserved_fill [OF res' refl, of f] reserved_slot [OF res]
  ultimately show ?thesis
    using s1 lock by (auto simp: set_slot_def unlock_sys_def set_ctx_def wp_simps sys_frame_def ctx_frame_def)
qed

lemma alloc_sys_bindI:
  assumes inv: "fd_inv iext dext ext (ks s)" and lock: "\<not> fdlock (ctx (ks s))"
    and fail: "\<And>r s1. r \<in> {- EBADF, - EMFILE, - ENOMEM} \<Longrightarrow> fd_inv iext dext ext (ks s1) \<Longrightarrow> sys_frame s s1 \<Longrightarrow>
      fdtab (ctx (ks s1)) = fdtab (ctx (ks s)) \<Longrightarrow> wp (k r s1) Q"
    and ok: "\<And>fd s1. same_files (ks s) (ks s1) \<Longrightarrow> vfs_inv iext dext (ks s1) \<Longrightarrow> fcount (ks s1) = fcount (ks s) \<Longrightarrow>
      um s1 = um s \<Longrightarrow> cr s1 = cr s \<Longrightarrow>
      reserved ((ctx (ks s))\<lparr>fdlock := True\<rparr>) fd (ctx (ks s1)) \<Longrightarrow> nat fdbase \<le> fd \<Longrightarrow> fd \<le> nofile_cur (ks s) \<Longrightarrow>
      (\<forall>fd'. nat fdbase \<le> fd' \<and> fd' < fd \<longrightarrow> fdtab (ctx (ks s)) fd' \<noteq> None) \<Longrightarrow> wp (k (int fd) s1) Q"
  shows "wp (Option.bind (alloc_fd E fdbase (ks s)) (\<lambda>(r, k1). k r (s\<lparr>ks := k1\<rparr>))) Q"
proof (rule alloc_fd_bindI [OF inv lock], goal_cases)
  case (1 r k1)
  then show ?case using fail [of r "s\<lparr>ks := k1\<rparr>"] by (simp add: sys_frame_def)
next
  case (2 fd k1)
  then show ?case using ok [of "s\<lparr>ks := k1\<rparr>" fd] by simp
qed

lemma sys_dup_wp:
  assumes inv: "sys_inv iext dext ext s"
  shows "wp (sys_dup E fd s) (\<lambda>(r, s'). sys_inv iext dext ext s' \<and> sys_frame s s' \<and>
     (case fd_lookup (ctx (ks s)) fd of
        None \<Rightarrow> r = - EBADF \<and> fdtab (ctx (ks s')) = fdtab (ctx (ks s))
      | Some (f, b) \<Rightarrow>
          if r < 0 then r \<in> {- EBADF, - EMFILE, - ENOMEM} \<and> fdtab (ctx (ks s')) = fdtab (ctx (ks s))
          else fdtab (ctx (ks s)) (nat r) = None \<and> (\<forall>fd' < nat r. fdtab (ctx (ks s)) fd' \<noteq> None) \<and>
            fdtab (ctx (ks s')) = (fdtab (ctx (ks s)))(nat r \<mapsto> (f, False))))" (is "wp _ ?Q")
  unfolding sys_dup_def
proof (rule wp_bindI [OF get_fd_wp [OF sys_invD(1,2) [OF inv]]], clarify)
  fix r s1 assume r: "case fd_lookup (ctx (ks s)) fd of None \<Rightarrow> r = None \<and> s1 = s\<lparr>errno := EBADF\<rparr>
    | Some (f, b) \<Rightarrow> r = Some f \<and> fd_inv iext dext (held f ext) (ks s1) \<and> refs_only s s1"
  show "wp (case r of None \<Rightarrow> Some (- errno s1, s1)
     | Some f \<Rightarrow> Option.bind (alloc_fd (se_k E) 0 (ks s1)) (\<lambda>(new_fd, k2). let s2 = s1\<lparr>ks := k2\<rparr> in
         if new_fd < 0 then Option.bind (put_fd f s2) (\<lambda>s3. Some (new_fd, s3))
         else Option.bind (set_slot new_fd (Some f) s2) (\<lambda>s3. Option.bind (unlock_sys s3) (\<lambda>s4. Some (new_fd, s4))))) ?Q"
  proof (cases "fd_lookup (ctx (ks s)) fd")
    case None
    then show ?thesis using r inv by (simp add: wp_simps)
  next
    case (Some fb)
    then obtain f b where fb: "fd_lookup (ctx (ks s)) fd = Some (f, b)" by (cases fb) auto
    then have 1: "r = Some f" "fd_inv iext dext (held f ext) (ks s1)" "refs_only s s1" using r by auto
    note fr = refs_only_frame [OF 1(3)]
    have lock: "\<not> fdlock (ctx (ks s1))" and tab: "ctx (ks s1) = ctx (ks s)"
      using 1(3) sys_invD(2) [OF inv] by (auto simp: refs_only_def)
    have "wp (Option.bind (alloc_fd (se_k E) 0 (ks s1)) (\<lambda>(new_fd, k2). (\<lambda>new_fd s2.
         if new_fd < 0 then Option.bind (put_fd f s2) (\<lambda>s3. Some (new_fd, s3))
         else Option.bind (Option.bind (set_slot new_fd (Some f) s2) unlock_sys) (\<lambda>s4. Some (new_fd, s4)))
           new_fd (s1\<lparr>ks := k2\<rparr>))) ?Q"
    proof (rule alloc_sys_bindI [OF 1(2) lock], goal_cases)
      case (1 r s2)
      have "?Q (r, s3)" if "fd_inv iext dext ext (ks s3)" "refs_only s2 s3" for s3
      proof -
        have "sys_frame s s3" by (intro sys_frame_trans [OF fr] sys_frame_trans [OF 1(3)] refs_only_frame that)
        with sys_invI [OF inv that(1) this] show ?thesis using fb 1(1,4) tab refs_only_ctx [OF that(2)] by auto
      qed
      then have "wp (put_fd f s2) (\<lambda>s3. ?Q (r, s3))" by (intro wp_mono [OF put_fd_wp [OF 1(2)]]) auto
      then show ?case using 1(1) by (auto simp: wp_simps)
    next
      case (2 n s2)
      have "?Q (int n, s3)" if "fd_inv iext dext ext (ks s3)" "sys_frame s1 s3"
          "fdtab (ctx (ks s3)) = (fdtab (ctx (ks s1)))(n \<mapsto> (f, False))" for s3
      proof -
        have "sys_frame s s3" by (rule sys_frame_trans [OF fr that(2)])
        with sys_invI [OF inv that(1) this] show ?thesis using fb 2(9) tab that(3) reserved_slot(2) [OF 2(6)] by auto
      qed
      then have "wp (Option.bind (set_slot (int n) (Some f) s2) unlock_sys) (\<lambda>s3. ?Q (int n, s3))"
        by (intro wp_mono [OF fill_slot_wp [OF \<open>fd_inv iext dext (held f ext) (ks s1)\<close> 2(1-6) lock]]) auto
      then show ?case by (simp only: wp_simps) simp
    qed
    then show ?thesis using 1(1) by (simp add: Let_def Option.bind_assoc cong: if_cong)
  qed
qed

subsection \<open>Duplication into a given slot\<close>

lemma close_slot_wp:
  assumes inv: "fd_inv iext dext ext (ks s)" and n: "0 \<le> newfd" "nat newfd < file_desc_entries (ctx (ks s))"
  shows "wp (if file_desc (ctx (ks s)) ! nat newfd \<noteq> None
      then do { (r, k) \<leftarrow> file_close_unlocked newfd (ks s); Some (s\<lparr>ks := k\<rparr>) } else Some s)
    (\<lambda>s1. fd_inv iext dext ext (ks s1) \<and> sys_frame s s1 \<and> fdtab (ctx (ks s1)) = (fdtab (ctx (ks s)))(nat newfd := None) \<and>
       file_desc_entries (ctx (ks s1)) = file_desc_entries (ctx (ks s)))"
proof (cases "fdtab (ctx (ks s)) (nat newfd)")
  case None
  then have eq: "(fdtab (ctx (ks s)))(nat newfd := None) = fdtab (ctx (ks s))" by auto
  have "fd_lookup (ctx (ks s)) newfd = None" using None n by (simp add: fd_lookup_def)
  then show ?thesis
    using inv file_close_unlocked_wp [OF inv, of newfd]
    by (auto simp: eq wp_simps sys_frame_def elim!: wp_mono)
next
  case (Some x)
  then have "file_desc (ctx (ks s)) ! nat newfd \<noteq> None" by (auto simp: fdtab_def split: if_splits)
  moreover have "fd_lookup (ctx (ks s)) newfd \<noteq> None" using Some n by (simp add: fd_lookup_def)
  ultimately show ?thesis
    using file_close_unlocked_wp [OF inv, of newfd] by (auto simp: wp_simps sys_frame_def elim!: wp_mono)
qed

lemma dup_into_wp:
  assumes inv: "fd_inv iext dext (held f ext) (ks s)" and old: "fdtab (ctx (ks s)) (nat oldfd) = Some (f, b')"
    and n: "0 \<le> newfd" "0 \<le> oldfd" "oldfd \<noteq> newfd" "nat newfd < file_desc_entries (ctx (ks s))"
  shows "wp (dup_into oldfd newfd b s) (\<lambda>s'. fd_inv iext dext ext (ks s') \<and> sys_frame s s' \<and>
     fdtab (ctx (ks s')) = (fdtab (ctx (ks s)))(nat newfd \<mapsto> (f, b)))"
proof -
  have step: "wp (do { q \<leftarrow> array_get (file_desc (ctx (ks s1))) (nat oldfd);
       s2 \<leftarrow> set_slot newfd q s1; s3 \<leftarrow> set_cloexec newfd b s2; set_open newfd True s3 })
     (\<lambda>s'. fd_inv iext dext ext (ks s') \<and> sys_frame s s' \<and> fdtab (ctx (ks s')) = (fdtab (ctx (ks s)))(nat newfd \<mapsto> (f, b)))"
    if s1: "fd_inv iext dext (held f ext) (ks s1)" "sys_frame s s1"
      "fdtab (ctx (ks s1)) = (fdtab (ctx (ks s)))(nat newfd := None)"
      "file_desc_entries (ctx (ks s1)) = file_desc_entries (ctx (ks s))" for s1
  proof -
    let ?c = "ctx (ks s1)"
    have "nat oldfd \<noteq> nat newfd" using n by auto
    then have o: "fdtab ?c (nat oldfd) = Some (f, b')" and free: "fdtab ?c (nat newfd) = None"
      using old s1(3) by simp_all
    have wf: "ctx_wf ?c" "fds_filled ?c" and v: "vfs_inv iext dext (ks s1)" using s1(1) by (auto simp: fd_inv_def)
    have q: "nat oldfd < length (file_desc ?c)" "file_desc ?c ! nat oldfd = Some f"
      using o wf(1) by (auto simp: fdtab_def ctx_wf_def split: if_splits)
    have "wp (Option.bind (fd_set_cloexec (nat newfd) b (?c\<lparr>file_desc := (file_desc ?c)[nat newfd := Some f]\<rparr>))
        (fd_set_open (nat newfd) True)) (\<lambda>c'. fd_inv iext dext ext ((ks s1)\<lparr>ctx := c'\<rparr>) \<and> ctx_frame ?c c' \<and>
          fdtab c' = (fdtab (ctx (ks s)))(nat newfd \<mapsto> (f, b)))"
    proof (rule wp_mono [OF install_ctx_wp [OF wf _ free]], goal_cases)
      case (2 c')
      then have "fd_inv iext dext ext ((ks s1)\<lparr>ctx := c'\<rparr>)"
        by (intro fd_inv_slot [OF s1(1) v]) (auto simp: ctx_frame_def held_def holders_free [OF free])
      then show ?case using 2 s1(3) by simp
    qed (use n s1(4) in simp)
    then show ?thesis
      using q wf(1) n s1(2,4)
      by (auto simp: set_slot_def set_cloexec_def set_open_def set_ctx_def wp_simps ctx_wf_def sys_frame_def
          elim!: wp_mono intro: ctx_frame_trans)
  qed
  have "nat newfd < length (file_desc (ctx (ks s)))" using inv n by (simp add: fd_inv_def ctx_wf_def)
  moreover have "wp (Option.bind (if file_desc (ctx (ks s)) ! nat newfd \<noteq> None
      then do { (r, k) \<leftarrow> file_close_unlocked newfd (ks s); Some (s\<lparr>ks := k\<rparr>) } else Some s)
      (\<lambda>s1. do { q \<leftarrow> array_get (file_desc (ctx (ks s1))) (nat oldfd);
       s2 \<leftarrow> set_slot newfd q s1; s3 \<leftarrow> set_cloexec newfd b s2; set_open newfd True s3 }))
     (\<lambda>s'. fd_inv iext dext ext (ks s') \<and> sys_frame s s' \<and> fdtab (ctx (ks s')) = (fdtab (ctx (ks s)))(nat newfd \<mapsto> (f, b)))"
    by (rule wp_bindI [OF close_slot_wp [OF inv n(1,4)]]) (rule step, auto)
  ultimately show ?thesis unfolding dup_into_def by simp
qed

lemma unlock_sys_wp:
  assumes "fd_inv iext dext ext (ks s1)" "sys_frame (s\<lparr>ks := (ks s)\<lparr>ctx := (ctx (ks s))\<lparr>fdlock := True\<rparr>\<rparr>\<rparr>) s1"
    "sys_inv iext' dext' ext' s"
  shows "wp (unlock_sys s1) (\<lambda>s'. sys_inv iext dext ext s' \<and> sys_frame s s' \<and> fdtab (ctx (ks s')) = fdtab (ctx (ks s1)))"
  using assms by (simp add: unlock_sys_def wp_simps sys_inv_def unlocked_def sys_frame_def ctx_frame_def)

lemma grown_frame: "grown c c' \<Longrightarrow> ctx_frame c c'"
  by (simp add: grown_def)

lemma enlarge_sys_wp:
  assumes inv: "fd_inv iext dext ext k1" and n: "nat newfd \<le> INT_MAX" "nat newfd \<noteq> file_desc_entries (ctx k1)"
  shows "wp (if file_desc_entries (ctx k1) < nat newfd
       then enlarge_file_descriptor_table E (nat newfd + 1) k1 else Some (0, k1))
    (\<lambda>(st, k2). fd_inv iext dext ext k2 \<and> same_files k1 k2 \<and> ctx_frame (ctx k1) (ctx k2) \<and> fdtab (ctx k2) = fdtab (ctx k1) \<and>
       (0 \<le> st \<longrightarrow> nat newfd < file_desc_entries (ctx k2)))"
proof (cases "file_desc_entries (ctx k1) < nat newfd")
  case True
  have wf: "ctx_wf (ctx k1)" "fds_filled (ctx k1)" using inv by (auto simp: fd_inv_def)
  have n': "file_desc_entries (ctx k1) \<le> nat newfd + 1" "nat newfd + 1 \<le> INT_MAX + 1" using True n(1) by auto
  have "wp (enlarge_file_descriptor_table E (nat newfd + 1) k1) (\<lambda>(st, k2). fd_inv iext dext ext k2 \<and> same_files k1 k2 \<and>
      ctx_frame (ctx k1) (ctx k2) \<and> fdtab (ctx k2) = fdtab (ctx k1) \<and> (0 \<le> st \<longrightarrow> nat newfd < file_desc_entries (ctx k2)))"
  proof (rule wp_mono [OF enlarge_wp [OF inv n']], clarify, goal_cases)
    case (1 st k2)
    then show ?case using grown_fdtab(1) [OF wf, of "ctx k2"] grown_frame [of "ctx k1" "ctx k2"] by (auto split: if_splits)
  qed
  then show ?thesis using True by simp
next
  case False
  then show ?thesis using inv n by (simp add: wp_simps)
qed

lemma dup_locked_wp:
  assumes inv: "sys_inv iext dext ext s" and n: "0 \<le> newfd" "0 \<le> oldfd" "oldfd \<noteq> newfd" "nat newfd \<le> INT_MAX"
    "nat newfd \<noteq> file_desc_entries (ctx (ks s))"
  shows "wp (dup_locked E oldfd newfd same b s) (\<lambda>(r, s'). sys_inv iext dext ext s' \<and> sys_frame s s' \<and>
     (case fd_lookup (ctx (ks s)) oldfd of
        None \<Rightarrow> r = - EBADF \<and> fdtab (ctx (ks s')) = fdtab (ctx (ks s))
      | Some (f, b') \<Rightarrow>
          if r < 0 then fdtab (ctx (ks s')) = fdtab (ctx (ks s))
          else r = newfd \<and> fdtab (ctx (ks s')) = (fdtab (ctx (ks s)))(nat newfd \<mapsto> (f, b))))" (is "wp _ ?Q")
proof -
  let ?k = "(ks s)\<lparr>ctx := (ctx (ks s))\<lparr>fdlock := True\<rparr>\<rparr>"
  let ?s = "s\<lparr>ks := ?k\<rparr>"
  have inv': "fd_inv iext dext ext ?k" and lock: "lock_fds (ks s) = Some ?k"
    using sys_invD [OF inv] by (simp_all add: lock_fds_def spin_lock_fd_def)
  show ?thesis
  proof (cases "fd_lookup (ctx (ks s)) oldfd")
    case None
    then have get: "get_file_description_unlocked oldfd ?k = Some (Inl EBADF, ?k)"
      using get_file_description_unlocked_wp [OF inv', of oldfd] by (auto simp: wp_iff)
    have "wp (unlock_sys (?s\<lparr>errno := EBADF\<rparr>)) (\<lambda>s'. sys_inv iext dext ext s' \<and> sys_frame s s' \<and>
        fdtab (ctx (ks s')) = fdtab (ctx (ks (?s\<lparr>errno := EBADF\<rparr>))))"
      by (rule unlock_sys_wp [OF _ _ inv]) (use inv' in simp_all)
    then show ?thesis using None lock get by (auto simp: dup_locked_def wp_simps elim!: wp_mono)
  next
    case (Some fb)
    then obtain f b' where fb: "fd_lookup (ctx (ks s)) oldfd = Some (f, b')" by (cases fb) auto
    obtain k1 where k1: "get_file_description_unlocked oldfd ?k = Some (Inr f, k1)" "ctx k1 = ctx ?k" "same_files ?k k1"
        "fd_inv iext dext (held f ext) k1"
      using get_file_description_unlocked_wp [OF inv', of oldfd] fb by (auto simp: wp_iff held_def)
    have tail: "wp (if st < 0 then do { s3 \<leftarrow> put_fd f (s\<lparr>ks := k2\<rparr>); s4 \<leftarrow> unlock_sys s3; Some (st, s4) }
         else do { s3 \<leftarrow> dup_into oldfd newfd b (s\<lparr>ks := k2\<rparr>); s4 \<leftarrow> unlock_sys s3; Some (newfd, s4) }) ?Q"
      if k2: "fd_inv iext dext (held f ext) k2" "same_files k1 k2" "ctx_frame (ctx k1) (ctx k2)"
        "fdtab (ctx k2) = fdtab (ctx k1)" "0 \<le> st \<longrightarrow> nat newfd < file_desc_entries (ctx k2)" for st k2
    proof -
      have fr: "sys_frame ?s (s\<lparr>ks := k2\<rparr>)" and tab: "fdtab (ctx k2) = fdtab (ctx (ks s))"
        using k1 k2 by (auto simp: sys_frame_def intro: same_files_trans)
      have old: "fdtab (ctx k2) (nat oldfd) = Some (f, b')" using fb tab n(2) by (simp add: fd_lookup_def)
      have fin: "wp (unlock_sys s3) (\<lambda>s4. ?Q (ret, s4))"
        if "fd_inv iext dext ext (ks s3)" "sys_frame (s\<lparr>ks := k2\<rparr>) s3"
          "if ret < 0 then fdtab (ctx (ks s3)) = fdtab (ctx (ks s))
           else ret = newfd \<and> fdtab (ctx (ks s3)) = (fdtab (ctx (ks s)))(nat newfd \<mapsto> (f, b))" for ret s3
        by (rule wp_mono [OF unlock_sys_wp [OF that(1) sys_frame_trans [OF fr that(2)] inv]]) (use fb that(3) in simp)
      show ?thesis
      proof (cases "st < 0")
        case True
        have "wp (put_fd f (s\<lparr>ks := k2\<rparr>)) (\<lambda>s3. wp (unlock_sys s3) (\<lambda>s4. ?Q (st, s4)))"
        proof (rule wp_mono [OF put_fd_wp])
          fix s3 assume s3: "fd_inv iext dext ext (ks s3) \<and> refs_only (s\<lparr>ks := k2\<rparr>) s3"
          then show "wp (unlock_sys s3) (\<lambda>s4. ?Q (st, s4))"
            using True tab refs_only_ctx [of "s\<lparr>ks := k2\<rparr>" s3] by (intro fin) (auto intro: refs_only_frame)
        qed (use k2(1) in simp)
        then show ?thesis using True by (simp add: wp_simps)
      next
        case False
        have "wp (dup_into oldfd newfd b (s\<lparr>ks := k2\<rparr>)) (\<lambda>s3. wp (unlock_sys s3) (\<lambda>s4. ?Q (newfd, s4)))"
        proof (rule wp_mono [OF dup_into_wp [of iext dext f ext _ oldfd b']])
          fix s3 assume s3: "fd_inv iext dext ext (ks s3) \<and> sys_frame (s\<lparr>ks := k2\<rparr>) s3 \<and>
            fdtab (ctx (ks s3)) = (fdtab (ctx (ks (s\<lparr>ks := k2\<rparr>))))(nat newfd \<mapsto> (f, b))"
          then show "wp (unlock_sys s3) (\<lambda>s4. ?Q (newfd, s4))" using tab n(1) by (intro fin) auto
        qed (use False old k2(1,5) n in auto)
        then show ?thesis using False by (simp add: wp_simps)
      qed
    qed
    have "wp (Option.bind (if file_desc_entries (ctx k1) < nat newfd
           then enlarge_file_descriptor_table (se_k E) (nat newfd + 1) k1 else Some (0, k1))
        (\<lambda>(st, k2). if st < 0 then do { s3 \<leftarrow> put_fd f (s\<lparr>ks := k2\<rparr>); s4 \<leftarrow> unlock_sys s3; Some (st, s4) }
         else do { s3 \<leftarrow> dup_into oldfd newfd b (s\<lparr>ks := k2\<rparr>); s4 \<leftarrow> unlock_sys s3; Some (newfd, s4) })) ?Q"
      by (rule wp_bindI [OF enlarge_sys_wp [OF k1(4) n(4)]]) (use k1(2) n(5) in simp, clarify, rule tail, auto)
    then show ?thesis using lock k1(1) n(3) by (simp add: dup_locked_def Let_def cong: if_cong)
  qed
qed

subsection \<open>The close-on-exec flag\<close>

lemma set_cloexec_wp:
  assumes inv: "fd_inv iext dext ext (ks s)" and tab: "fdtab (ctx (ks s)) (nat fd) = Some (f, b0)"
  shows "wp (set_cloexec fd b s) (\<lambda>s'. fd_inv iext dext ext (ks s') \<and> sys_frame s s' \<and>
     fdtab (ctx (ks s')) = (fdtab (ctx (ks s)))(nat fd \<mapsto> (f, b)))"
proof -
  let ?c = "ctx (ks s)"
  have wf: "ctx_wf ?c" "fds_filled ?c" and v: "vfs_inv iext dext (ks s)" using inv by (auto simp: fd_inv_def)
  have n: "nat fd < file_desc_entries ?c" using tab by (rule fdtab_bound)
  have o: "fd_is_open (nat fd) ?c = Some True" "file_desc ?c ! nat fd = Some f"
    using tab by (auto simp: fdtab_def split: if_splits)
  have "wp (fd_set_cloexec (nat fd) b ?c) (\<lambda>c'. fd_inv iext dext ext ((ks s)\<lparr>ctx := c'\<rparr>) \<and> ctx_frame ?c c' \<and>
      fdtab c' = (fdtab ?c)(nat fd \<mapsto> (f, b)))"
  proof (rule wp_mono [OF wp_fd_set_cloexec [OF wf(1) n]])
    fix c' assume c': "ctx_wf c' \<and> file_desc c' = file_desc ?c \<and> file_desc_entries c' = file_desc_entries ?c \<and>
      ctx_frame ?c c' \<and> (\<forall>j. fd_is_open j c' = fd_is_open j ?c) \<and>
      (\<forall>j. fd_is_cloexec j c' = (if j = nat fd then Some b else fd_is_cloexec j ?c))"
    then have "fdtab c' (nat fd) = Some (f, b)" using n o by (simp add: fdtab_def)
    then have t: "fdtab c' = (fdtab ?c)(nat fd \<mapsto> (f, b))" using c' fdtab_local [of c' ?c "nat fd"] by simp
    have "fds_filled c'" by (rule fds_filled_local [OF _ wf(2) t]) (use c' in auto)
    moreover have "cwd c' = cwd ?c" using c' by (simp add: ctx_frame_def)
    ultimately have "fd_inv iext dext ext ((ks s)\<lparr>ctx := c'\<rparr>)"
      using c' t by (intro fd_inv_slot [OF inv v]) (auto simp: holders_slot [OF tab])
    then show "fd_inv iext dext ext ((ks s)\<lparr>ctx := c'\<rparr>) \<and> ctx_frame ?c c' \<and> fdtab c' = (fdtab ?c)(nat fd \<mapsto> (f, b))"
      using c' t by simp
  qed
  then show ?thesis by (auto simp: set_cloexec_def set_ctx_def wp_simps sys_frame_def elim!: wp_mono)
qed

lemma fd_is_cloexec_tab:
  assumes "ctx_wf c" "fdtab c n = Some (f, b)"
  shows "fd_is_cloexec n c = Some b"
proof -
  have "n < 64 * length (cloexec_fds c)" using assms fdtab_bound [OF assms(2)] by (simp add: ctx_wf_def)
  then show ?thesis using assms(2) cloexec_bits.rd_in [of n c] by (auto simp: fdtab_def split: if_splits)
qed

text \<open>The frame of \<open>fcntl\<close>'s commands on the flag: lock, check the descriptor, act, unlock.\<close>

lemma lock_sys:
  assumes "sys_inv iext dext ext s"
  shows "lock_fds (ks s) = Some ((ks s)\<lparr>ctx := (ctx (ks s))\<lparr>fdlock := True\<rparr>\<rparr>)"
    "validate_fd_number fd ((ctx (ks s))\<lparr>fdlock := True\<rparr>) = Some (fd_lookup (ctx (ks s)) fd \<noteq> None)"
proof -
  have "ctx_wf ((ctx (ks s))\<lparr>fdlock := True\<rparr>)" "fds_filled ((ctx (ks s))\<lparr>fdlock := True\<rparr>)"
    using sys_invD(5,6) [OF assms] by (simp_all add: ctx_wf_def fds_filled_def)
  then show "validate_fd_number fd ((ctx (ks s))\<lparr>fdlock := True\<rparr>) = Some (fd_lookup (ctx (ks s)) fd \<noteq> None)"
    by (simp add: validate_fd_number_eq)
qed (use sys_invD(2) [OF assms] in \<open>simp add: lock_fds_def spin_lock_fd_def\<close>)

lemma unlock_locked:
  assumes "sys_inv iext dext ext s"
  shows "unlock_sys (s\<lparr>ks := (ks s)\<lparr>ctx := (ctx (ks s))\<lparr>fdlock := True\<rparr>\<rparr>\<rparr>) = Some s"
  using sys_invD(2) [OF assms]
  by (cases s; cases "ks s"; cases "ctx (ks s)") (simp add: unlock_sys_def unlock_fds_def spin_unlock_fd_def)

lemma fcntl_f_getfd_eq:
  assumes inv: "sys_inv iext dext ext s"
  shows "fcntl_f_getfd fd s = Some (case fd_lookup (ctx (ks s)) fd of None \<Rightarrow> - EBADF
     | Some (f, b) \<Rightarrow> if b then FD_CLOEXEC else 0, s)"
proof (cases "fd_lookup (ctx (ks s)) fd")
  case None
  then show ?thesis using lock_sys [OF inv] unlock_locked [OF inv] by (simp add: fcntl_f_getfd_def)
next
  case (Some fb)
  obtain f b where fb: "fb = (f, b)" by (cases fb)
  have "fd_is_cloexec (nat fd) (ctx (ks s)) = Some b"
    using Some fb fd_is_cloexec_tab [OF sys_invD(5) [OF inv], of "nat fd" f b] by (simp add: fd_lookup_def split: if_splits)
  then show ?thesis using Some fb lock_sys [OF inv] unlock_locked [OF inv] by (simp add: fcntl_f_getfd_def)
qed

lemma fcntl_f_setfd_wp:
  assumes inv: "sys_inv iext dext ext s"
  shows "wp (fcntl_f_setfd fd arg s) (\<lambda>(r, s'). sys_inv iext dext ext s' \<and> sys_frame s s' \<and>
     (case fd_lookup (ctx (ks s)) fd of None \<Rightarrow> r = - EBADF \<and> s' = s
      | Some (f, b) \<Rightarrow> r = 0 \<and> fdtab (ctx (ks s')) = (fdtab (ctx (ks s)))(nat fd \<mapsto> (f, bit arg 0))))" (is "wp _ ?Q")
proof (cases "fd_lookup (ctx (ks s)) fd")
  case None
  then show ?thesis using lock_sys [OF inv] unlock_locked [OF inv] inv by (simp add: fcntl_f_setfd_def wp_simps)
next
  case (Some fb)
  obtain f b where fb: "fb = (f, b)" by (cases fb)
  let ?s = "s\<lparr>ks := (ks s)\<lparr>ctx := (ctx (ks s))\<lparr>fdlock := True\<rparr>\<rparr>\<rparr>"
  have bit: "arg AND 1 \<noteq> 0 \<longleftrightarrow> bit arg 0"
    using bit_iff_and_push_bit_not_eq_0 [of arg 0] by simp
  have i: "fd_inv iext dext ext (ks ?s)" and t: "fdtab (ctx (ks ?s)) (nat fd) = Some (f, b)"
    using sys_invD(1) [OF inv] Some fb by (auto simp: fd_lookup_def split: if_splits)
  have "wp (set_cloexec fd (bit arg 0) ?s) (\<lambda>s2. wp (unlock_sys s2) (\<lambda>s3. ?Q (0, s3)))"
  proof (rule wp_mono [OF set_cloexec_wp [OF i t]])
    fix s2 assume s2: "fd_inv iext dext ext (ks s2) \<and> sys_frame ?s s2 \<and>
      fdtab (ctx (ks s2)) = (fdtab (ctx (ks ?s)))(nat fd \<mapsto> (f, bit arg 0))"
    show "wp (unlock_sys s2) (\<lambda>s3. ?Q (0, s3))"
      using s2 Some fb by (intro wp_mono [OF unlock_sys_wp [OF _ _ inv]]) auto
  qed
  then show ?thesis using Some fb lock_sys [OF inv] by (simp add: fcntl_f_setfd_def wp_simps bit)
qed

subsection \<open>Calls that change a field of a file or an inode\<close>

lemma set_file_inv:
  assumes "fd_inv iext dext ext (ks s)" "files (ks s) f = Some fl" "f_refcount fl' = f_refcount fl" "f_ino fl' = f_ino fl"
    "f_dentry fl' = f_dentry fl"
  shows "fd_inv iext dext ext (ks (set_file f fl' s))"
proof -
  let ?k = "(ks s)\<lparr>files := (files (ks s))(f \<mapsto> fl')\<rparr>"
  have "vfs_inv iext dext (ks s)" and cnt: "\<And>g. fcount (ks s) g = ext g + ctx_refs (ctx (ks s)) g"
    using assms(1) by (auto simp: fd_inv_def)
  moreover have "0 < f_refcount fl" using assms(1,2) by (auto simp: fd_inv_def vfs_inv_def)
  ultimately have "vfs_inv iext dext ?k" using assms by (intro vfs_inv_upd_file) auto
  moreover have "fcount ?k = fcount (ks s)" using assms(2,3) by (auto simp: fcount_def)
  ultimately show ?thesis using assms(1) by (simp add: fd_inv_def set_file_def)
qed

lemma set_inode_inv:
  assumes "fd_inv iext dext ext (ks s)" "inodes (ks s) i = Some ino" "i_refc ino' = i_refc ino"
  shows "fd_inv iext dext ext (ks (set_inode i ino' s))"
proof -
  let ?k = "(ks s)\<lparr>inodes := (inodes (ks s))(i \<mapsto> ino')\<rparr>"
  have "vfs_inv iext dext ?k"
    using assms by (auto simp: fd_inv_def vfs_inv_def ino_users_def dentry_users_def dcount_def)
  moreover have "fcount ?k = fcount (ks s)" by (simp add: fcount_def fun_eq_iff)
  ultimately show ?thesis using assms(1) by (simp add: fd_inv_def set_inode_def)
qed

lemma log_sys_inv [simp]: "fd_inv iext dext ext (ks (log_sys e s)) = fd_inv iext dext ext (ks s)"
proof -
  have "vfs_inv iext dext (log_event e k) = vfs_inv iext dext k" "fcount (log_event e k) = fcount k"
    "ctx (log_event e k) = ctx k" for k :: kst
    by (simp_all add: vfs_inv_def fcount_def fun_eq_iff ino_users_def dentry_users_def dcount_def log_event_def)
  then show ?thesis by (simp add: fd_inv_def log_sys_def)
qed

lemma update_refc [simp]:
  "i_refc (fst (inode_mark_dirty ino)) = i_refc ino"
  "i_refc (fst (inode_update_ctime now ino)) = i_refc ino"
  "i_refc (fst (inode_update_atime now ino)) = i_refc ino"
  "i_refc (fst (inode_update_mtime now ino)) = i_refc ino"
proof -
  have m: "i_refc (fst (inode_mark_dirty ino)) = i_refc ino" for ino using mark_dirty_frame [of ino] by auto
  then show "i_refc (fst (inode_mark_dirty ino)) = i_refc ino" "i_refc (fst (inode_update_ctime now ino)) = i_refc ino"
      "i_refc (fst (inode_update_atime now ino)) = i_refc ino" "i_refc (fst (inode_update_mtime now ino)) = i_refc ino"
    by (simp_all add: inode_update_ctime_def inode_update_atime_def inode_update_mtime_def)
qed

lemma set_dirty_inv:
  assumes "fd_inv iext dext ext (ks s)" "inodes (ks s) i = Some ino" "i_refc (fst x) = i_refc ino"
  shows "fd_inv iext dext ext (ks (set_dirty i x s))"
  using set_inode_inv [OF assms] by (cases x) (simp add: set_dirty_def)

text \<open>The file a descriptor refers to, and its inode, are there.\<close>

lemma inv_file_inode:
  assumes "fd_inv iext dext (held f ext) (ks s)"
  obtains fl ino where "files (ks s) f = Some fl" "inodes (ks s) (f_ino fl) = Some ino" "file_inode f s = Some (fl, ino)"
proof -
  have "0 < fcount (ks s) f" using assms by (auto simp: fd_inv_def held_def)
  then obtain fl where fl: "files (ks s) f = Some fl" by (auto simp: fcount_def split: option.splits)
  moreover from fl have "inodes (ks s) (f_ino fl) \<noteq> None"
    using assms unfolding fd_inv_def vfs_inv_def by blast
  then obtain ino where "inodes (ks s) (f_ino fl) = Some ino" by blast
  then show thesis using fl by (intro that) (simp_all add: file_inode_def)
qed

lemma field_simps_sys [simp]:
  "ctx (ks (set_file f fl s)) = ctx (ks s)" "ctx (ks (set_inode i ino s)) = ctx (ks s)" "ctx (ks (log_sys e s)) = ctx (ks s)"
  "ctx (ks (set_dirty i x s)) = ctx (ks s)"
  "cr (set_file f fl s) = cr s" "cr (set_inode i ino s) = cr s" "cr (log_sys e s) = cr s" "cr (set_dirty i x s) = cr s"
  "um (set_file f fl s) = um s" "um (set_inode i ino s) = um s" "um (log_sys e s) = um s" "um (set_dirty i x s) = um s"
  by (simp_all add: set_file_def set_inode_def log_sys_def set_dirty_def log_event_def split: prod.split)

lemma ks_upd_simps [simp]:
  "ks (set_file f fl (s\<lparr>cr := c\<rparr>)) = ks (set_file f fl s)" "ks (set_inode i ino (s\<lparr>cr := c\<rparr>)) = ks (set_inode i ino s)"
  "ks (set_file f fl (s\<lparr>errno := e\<rparr>)) = ks (set_file f fl s)" "ks (set_inode i ino (s\<lparr>errno := e\<rparr>)) = ks (set_inode i ino s)"
  by (simp_all add: set_file_def set_inode_def)

text \<open>A call whose body keeps the invariant, the table and the credentials' lock keeps \<open>sys_inv\<close> and the table.\<close>

lemma with_fd_inv:
  assumes inv: "sys_inv iext dext ext s"
    and body: "\<And>f b s1. fd_lookup (ctx (ks s)) fd = Some (f, b) \<Longrightarrow> fd_inv iext dext (held f ext) (ks s1) \<Longrightarrow>
      ctx (ks s1) = ctx (ks s) \<Longrightarrow> cr s1 = cr s \<Longrightarrow>
      wp (body f s1) (\<lambda>(r, s2). fd_inv iext dext (held f ext) (ks s2) \<and> unlocked (ks s2) \<and> c_lock (cr s2) = 0 \<and>
        cwd (ctx (ks s2)) \<noteq> None \<and> P r (ctx (ks s2)))"
    and bad: "fd_lookup (ctx (ks s)) fd = None \<Longrightarrow> P (- EBADF) (ctx (ks s))"
  shows "wp (with_fd fd body s) (\<lambda>(r, s'). sys_inv iext dext ext s' \<and> P r (ctx (ks s')))"
proof (rule with_fd_wp [OF sys_invD(1,2) [OF inv]], goal_cases)
  case 1
  then show ?case using inv bad by simp
next
  case (2 f b s1)
  have "cr s1 = cr s" using 2(3) by (cases s; cases s1) (simp add: refs_only_def)
  then have b: "wp (body f s1) (\<lambda>(r, s2). fd_inv iext dext (held f ext) (ks s2) \<and> unlocked (ks s2) \<and> c_lock (cr s2) = 0 \<and>
        cwd (ctx (ks s2)) \<noteq> None \<and> P r (ctx (ks s2)))" by (intro body [OF 2(1,2) refs_only_ctx [OF 2(3)]])
  have "sys_inv iext dext ext s3 \<and> P r (ctx (ks s3))"
    if "unlocked (ks s2)" "c_lock (cr s2) = 0" "P r (ctx (ks s2))" "fd_inv iext dext ext (ks s3)" "refs_only s2 s3"
      "cwd (ctx (ks s2)) \<noteq> None" for r s2 s3
  proof -
    have "cr s3 = cr s2" using that(5) by (cases s2; cases s3) (simp add: refs_only_def)
    then show ?thesis using that refs_only_ctx [OF that(5)] by (simp add: sys_inv_def unlocked_def)
  qed
  then show ?case by (intro wp_mono [OF b]) auto
qed

lemma unlocked_inv: "sys_inv iext dext ext s \<Longrightarrow> ctx (ks s1) = ctx (ks s) \<Longrightarrow> cr s1 = cr s \<Longrightarrow>
    unlocked (ks s1) \<and> c_lock (cr s1) = 0 \<and> cwd (ctx (ks s1)) \<noteq> None"
  by (auto simp: sys_inv_def unlocked_def)

lemma fcntl_f_getfl_wp:
  assumes inv: "sys_inv iext dext ext s"
  shows "wp (fcntl_f_getfl fd s) (\<lambda>(r, s'). sys_inv iext dext ext s' \<and> ctx (ks s') = ctx (ks s) \<and>
     (fd_lookup (ctx (ks s)) fd = None \<longrightarrow> r = - EBADF))"
proof (cases "fd_lookup (ctx (ks s)) fd")
  case None
  then show ?thesis using lock_sys [OF inv] unlock_locked [OF inv] inv by (simp add: fcntl_f_getfl_def wp_simps)
next
  case (Some fb)
  obtain f b where fb: "fb = (f, b)" by (cases fb)
  have clo: "fd_is_cloexec (nat fd) (ctx (ks s)) = Some b"
    using Some fb fd_is_cloexec_tab [OF sys_invD(5) [OF inv], of "nat fd" f b] by (simp add: fd_lookup_def split: if_splits)
  have "wp (with_fd fd (\<lambda>f s. do { fl \<leftarrow> files (ks s) f; Some (sint (f_flags fl OR (if b then O_CLOEXEC else 0)), s) }) s)
      (\<lambda>(r, s'). sys_inv iext dext ext s' \<and> ctx (ks s') = ctx (ks s))"
  proof (rule with_fd_inv [OF inv], goal_cases)
    case (1 f b s1)
    obtain fl where "files (ks s1) f = Some fl" by (rule inv_file_inode [OF 1(2)])
    then show ?case using 1 unlocked_inv [OF inv 1(3,4)] by (simp add: wp_simps)
  qed simp
  then show ?thesis
    using Some fb clo lock_sys [OF inv] unlock_locked [OF inv] by (auto simp: fcntl_f_getfl_def elim!: wp_mono)
qed

lemma may_noatime_eq: "c_lock c = 0 \<Longrightarrow> may_noatime ino c = Some (euid c = 0 \<or> i_uid ino = euid c, c)"
  by (simp add: may_noatime_def creds_get_def rwslock_lock_read_def)

lemma fcntl_f_setfl_wp:
  assumes inv: "sys_inv iext dext ext s"
  shows "wp (fcntl_f_setfl fd arg s) (\<lambda>(r, s'). sys_inv iext dext ext s' \<and> ctx (ks s') = ctx (ks s))"
  unfolding fcntl_f_setfl_def
proof (rule with_fd_inv [OF inv], goal_cases)
  case (1 f b s1)
  obtain fl ino where f: "files (ks s1) f = Some fl" "inodes (ks s1) (f_ino fl) = Some ino" "file_inode f s1 = Some (fl, ino)"
    by (rule inv_file_inode [OF 1(2)])
  have "s1\<lparr>cr := cr s1\<rparr> = s1" by (cases s1) simp
  then show ?case
    using 1 f unlocked_inv [OF inv 1(3,4)] set_file_inv [OF 1(2) f(1)]
    by (auto simp: wp_simps Let_def may_noatime_eq unlocked_def)
qed simp

lemma sys_lseek_wp:
  assumes inv: "sys_inv iext dext ext s"
  shows "wp (sys_lseek fd offset whence s) (\<lambda>(r, s'). sys_inv iext dext ext s' \<and> ctx (ks s') = ctx (ks s))"
  unfolding sys_lseek_def
proof (rule with_fd_inv [OF inv], goal_cases)
  case (1 f b s1)
  obtain fl ino where f: "files (ks s1) f = Some fl" "inodes (ks s1) (f_ino fl) = Some ino" "file_inode f s1 = Some (fl, ino)"
    by (rule inv_file_inode [OF 1(2)])
  then show ?case
    using 1 unlocked_inv [OF inv 1(3,4)] set_file_inv [OF 1(2) f(1)]
    by (auto simp: wp_simps Let_def add_seek_def set_seek_def unlocked_def)
qed simp

lemma chmod_file_wp:
  assumes "fd_inv iext dext (held f ext) (ks s)"
  shows "wp (chmod_file E f mode s) (\<lambda>(r, s'). r = 0 \<and> fd_inv iext dext (held f ext) (ks s') \<and> ctx (ks s') = ctx (ks s) \<and>
     cr s' = cr s)"
proof -
  obtain fl ino where f: "files (ks s) f = Some fl" "inodes (ks s) (f_ino fl) = Some ino" "file_inode f s = Some (fl, ino)"
    by (rule inv_file_inode [OF assms])
  then show ?thesis
    using set_dirty_inv [OF assms f(2)] by (simp add: chmod_file_def chmod_vfs_def wp_simps)
qed

lemma sys_fchmod_wp:
  assumes inv: "sys_inv iext dext ext s"
  shows "wp (sys_fchmod E fd mode s) (\<lambda>(r, s'). sys_inv iext dext ext s' \<and> ctx (ks s') = ctx (ks s))"
  unfolding sys_fchmod_def
proof (rule with_fd_inv [OF inv], goal_cases)
  case (1 f b s1)
  then show ?case using unlocked_inv [OF inv]
    by (intro wp_mono [OF chmod_file_wp [OF 1(2)]]) (auto simp: unlocked_def)
qed simp

subsection \<open>fcntl(F_DUPFD)\<close>

lemma do_dupfd_wp:
  assumes inv: "sys_inv iext dext ext s" and s1: "fd_inv iext dext (held f ext) (ks s1)" "ctx (ks s1) = ctx (ks s)" "cr s1 = cr s"
  shows "wp (do_dupfd E f fdbase b s1) (\<lambda>(r, s'). fd_inv iext dext (held f ext) (ks s') \<and> unlocked (ks s') \<and>
     c_lock (cr s') = 0 \<and> cwd (ctx (ks s')) \<noteq> None \<and>
     (if r < 0 then fdtab (ctx (ks s')) = fdtab (ctx (ks s))
      else nat fdbase \<le> nat r \<and> fdtab (ctx (ks s)) (nat r) = None \<and>
        (\<forall>fd'. nat fdbase \<le> fd' \<and> fd' < nat r \<longrightarrow> fdtab (ctx (ks s)) fd' \<noteq> None) \<and>
        fdtab (ctx (ks s')) = (fdtab (ctx (ks s)))(nat r \<mapsto> (f, b))))" (is "wp _ ?Q")
proof (cases "fdbase < 0")
  case True
  then show ?thesis using s1 unlocked_inv [OF inv s1(2,3)] by (simp add: do_dupfd_def wp_simps)
next
  case False
  have lock: "\<not> fdlock (ctx (ks s1))" using s1(2) sys_invD(2) [OF inv] by simp
  have u: "cwd_lock (ctx (ks s)) = False" "c_lock (cr s) = 0" "cwd (ctx (ks s)) \<noteq> None" using sys_invD [OF inv] by auto
  have "wp (Option.bind (alloc_fd (se_k E) fdbase (ks s1)) (\<lambda>(r, k1). (\<lambda>new_fd s1.
       if new_fd < 0 then Some (new_fd, s1)
       else do { s2 \<leftarrow> set_slot new_fd (Some f) s1; k3 \<leftarrow> fd_get f (ks s2);
         s4 \<leftarrow> set_cloexec new_fd b (s2\<lparr>ks := k3\<rparr>); s5 \<leftarrow> unlock_sys s4; Some (new_fd, s5) }) r (s1\<lparr>ks := k1\<rparr>))) ?Q"
  proof (rule alloc_sys_bindI [OF s1(1) lock], goal_cases)
    case (1 r s2)
    then show ?case using u s1(2,3) lock by (auto simp: wp_simps unlocked_def sys_frame_def ctx_frame_def)
  next
    case (2 n s2)
    let ?kl = "(ks s1)\<lparr>ctx := (ctx (ks s1))\<lparr>fdlock := True\<rparr>\<rparr>"
    let ?c = "(ctx (ks s2))\<lparr>file_desc := (file_desc (ctx (ks s2)))[n := Some f]\<rparr>"
    let ?k = "(ks s2)\<lparr>ctx := ?c\<rparr>"
    note slot = reserved_slot [OF 2(6)]
    have inv0: "fd_inv iext dext (held f ext) ?kl" and res: "reserved (ctx ?kl) n (ctx (ks s2))" using s1(1) 2(6) by auto
    note fill = reserved_fill [OF res refl, of f]
    have pos: "0 < fcount ?k f" using s1(1) 2(3) by (simp add: fd_inv_def held_def)
    have "wp (fd_get f ?k) (\<lambda>k3. fd_inv iext dext (held f ext) k3 \<and> ctx k3 = ?c)"
    proof (rule wp_mono [OF fd_get_wp [of iext dext ?k f]])
      fix k3 assume k3: "vfs_inv iext dext k3 \<and> fcount k3 = (fcount ?k)(f := fcount ?k f + 1) \<and> refs_frame ?k k3"
      have c3: "ctx k3 = ?c" using refs_frame_kst(1) [of ?k k3] k3 by simp
      have "fd_inv iext dext (held f ext) (k3\<lparr>ctx := ?c\<rparr>)"
        by (rule fd_inv_fill [OF inv0 res]) (use k3 2(3) in auto)
      then show "fd_inv iext dext (held f ext) k3 \<and> ctx k3 = ?c" using c3 by (cases k3) simp
    qed (use 2(2) pos in auto)
    then have "wp (fd_get f ?k) (\<lambda>k3. wp (set_cloexec (int n) b (s2\<lparr>ks := k3\<rparr>)) (\<lambda>s4. wp (unlock_sys s4) (\<lambda>s5. ?Q (int n, s5))))"
    proof (rule wp_mono)
      fix k3 assume k3: "fd_inv iext dext (held f ext) k3 \<and> ctx k3 = ?c"
      have t: "fdtab (ctx (ks (s2\<lparr>ks := k3\<rparr>))) (nat (int n)) = Some (f, False)" using k3 fill(3) by simp
      show "wp (set_cloexec (int n) b (s2\<lparr>ks := k3\<rparr>)) (\<lambda>s4. wp (unlock_sys s4) (\<lambda>s5. ?Q (int n, s5)))"
        by (rule wp_mono [OF set_cloexec_wp [OF _ t]])
          (use k3 fill slot 2 s1(2,3) u in \<open>auto simp: unlock_sys_def wp_simps unlocked_def sys_frame_def ctx_frame_def\<close>)
    qed
    then show ?case using slot(1) by (simp add: wp_simps set_slot_def set_ctx_def)
  qed
  then show ?thesis using False by (simp add: do_dupfd_def Let_def)
qed

subsection \<open>The working directory\<close>

lemma fdtab_cwd [simp]: "fdtab (c\<lparr>cwd := p\<rparr>) = fdtab c" "fdtab (c\<lparr>umask := u\<rparr>) = fdtab c"
  by (simp_all add: fdtab_def fun_eq_iff)

lemma fd_inv_cwd:
  assumes "fd_inv iext dext (held f ext) k" "cwd (ctx k) = Some g"
  shows "fd_inv iext dext (held g ext) (k\<lparr>ctx := (ctx k)\<lparr>cwd := Some f\<rparr>\<rparr>)"
proof -
  have "holders ((ctx k)\<lparr>cwd := Some f\<rparr>) = holders (ctx k)" by (simp add: holders_def fun_eq_iff)
  moreover have "fcount k h = held f ext h + ctx_refs (ctx k) h" for h using assms(1) by (simp add: fd_inv_def)
  ultimately have "fcount k h = held g ext h + ctx_refs ((ctx k)\<lparr>cwd := Some f\<rparr>) h" for h
    using assms(2) by (simp add: ctx_refs_def held_def)
  then show ?thesis using assms(1) by (simp add: fd_inv_def ctx_wf_def fds_filled_def)
qed

lemma swap_cwd_wp:
  assumes inv: "sys_inv iext dext ext s" and s1: "fd_inv iext dext (held f ext) (ks s1)" "ctx (ks s1) = ctx (ks s)" "cr s1 = cr s"
  shows "wp (swap_cwd f s1) (\<lambda>s'. sys_inv iext dext ext s' \<and> ctx (ks s') = (ctx (ks s))\<lparr>cwd := Some f\<rparr>)"
proof -
  obtain g where g: "cwd (ctx (ks s)) = Some g" using sys_invD(7) [OF inv] by auto
  have u: "\<not> cwd_lock (ctx (ks s))" "\<not> fdlock (ctx (ks s))" "c_lock (cr s) = 0" using sys_invD [OF inv] by auto
  let ?s = "s1\<lparr>ks := (ks s1)\<lparr>ctx := (ctx (ks s))\<lparr>cwd := Some f\<rparr>\<rparr>\<rparr>"
  have c: "(ctx (ks s))\<lparr>cwd := Some f, cwd_lock := False\<rparr> = (ctx (ks s))\<lparr>cwd := Some f\<rparr>"
    using u(1) by (cases "ctx (ks s)") simp
  have "fd_inv iext dext (held g ext) (ks ?s)" using fd_inv_cwd [OF s1(1)] g s1(2) by simp
  then have "wp (put_fd g ?s) (\<lambda>s'. sys_inv iext dext ext s' \<and> ctx (ks s') = (ctx (ks s))\<lparr>cwd := Some f\<rparr>)"
  proof (intro wp_mono [OF put_fd_wp])
    fix s' assume s': "fd_inv iext dext ext (ks s') \<and> refs_only ?s s'"
    then have "cr s' = cr s1" by (cases s1; cases s') (simp add: refs_only_def)
    then show "sys_inv iext dext ext s' \<and> ctx (ks s') = (ctx (ks s))\<lparr>cwd := Some f\<rparr>"
      using s' u s1(3) refs_only_ctx [of ?s s'] by (simp add: sys_inv_def unlocked_def)
  qed
  moreover have "swap_cwd f s1 = put_fd g (s1\<lparr>ks := (ks s1)\<lparr>ctx := (ctx (ks s))\<lparr>cwd := Some f, cwd_lock := False\<rparr>\<rparr>\<rparr>)"
    using s1(2) g u(1) by (simp add: swap_cwd_def lock_cwd_def unlock_cwd_def set_ctx_def Let_def)
  then have "swap_cwd f s1 = put_fd g ?s" by (simp only: c)
  ultimately show ?thesis by simp
qed

lemma sys_fchdir_wp:
  assumes inv: "sys_inv iext dext ext s"
  shows "wp (sys_fchdir fd s) (\<lambda>(r, s'). sys_inv iext dext ext s' \<and> fdtab (ctx (ks s')) = fdtab (ctx (ks s)) \<and>
     (case fd_lookup (ctx (ks s)) fd of None \<Rightarrow> r = - EBADF \<and> cwd (ctx (ks s')) = cwd (ctx (ks s))
      | Some (f, b) \<Rightarrow> if r = 0 then cwd (ctx (ks s')) = Some f else r = - ENOTDIR \<and> cwd (ctx (ks s')) = cwd (ctx (ks s))))"
    (is "wp _ ?Q")
  unfolding sys_fchdir_def
proof (rule wp_bindI [OF get_fd_wp [OF sys_invD(1,2) [OF inv]]], clarify)
  fix r s1 assume r: "case fd_lookup (ctx (ks s)) fd of None \<Rightarrow> r = None \<and> s1 = s\<lparr>errno := EBADF\<rparr>
    | Some (f, b) \<Rightarrow> r = Some f \<and> fd_inv iext dext (held f ext) (ks s1) \<and> refs_only s s1"
  show "wp (case r of None \<Rightarrow> Some (- errno s1, s1)
     | Some f \<Rightarrow> Option.bind (file_inode f s1) (\<lambda>(fl, ino).
         if \<not> S_ISDIR (i_mode ino) then Option.bind (put_fd f s1) (\<lambda>s2. Some (- ENOTDIR, s2))
         else Option.bind (swap_cwd f s1) (\<lambda>s2. Some (0, s2)))) ?Q"
  proof (cases "fd_lookup (ctx (ks s)) fd")
    case None
    then show ?thesis using r inv by (simp add: wp_simps)
  next
    case (Some fb)
    then obtain f b where fb: "fd_lookup (ctx (ks s)) fd = Some (f, b)" by (cases fb) auto
    then have 1: "r = Some f" "fd_inv iext dext (held f ext) (ks s1)" "refs_only s s1" using r by auto
    have c: "ctx (ks s1) = ctx (ks s)" "cr s1 = cr s"
      using 1(3) by (cases s; cases s1; simp add: refs_only_def)+
    obtain fl ino where ino: "file_inode f s1 = Some (fl, ino)" by (rule inv_file_inode [OF 1(2)])
    have "wp (put_fd f s1) (\<lambda>s2. ?Q (- ENOTDIR, s2))"
    proof (rule wp_mono [OF put_fd_wp [OF 1(2)]])
      fix s2 assume s2: "fd_inv iext dext ext (ks s2) \<and> refs_only s1 s2"
      then have "sys_frame s s2" using refs_only_frame 1(3) sys_frame_trans by blast
      then show "?Q (- ENOTDIR, s2)"
        using s2 fb sys_invI [OF inv] refs_only_ctx [of s1 s2] c by auto
    qed
    moreover have "wp (swap_cwd f s1) (\<lambda>s2. ?Q (0, s2))"
      by (rule wp_mono [OF swap_cwd_wp [OF inv 1(2) c]]) (use fb in auto)
    ultimately show ?thesis using 1(1) ino by (simp add: wp_simps)
  qed
qed

lemma sys_umask_inv: "sys_inv iext dext ext s \<Longrightarrow> sys_inv iext dext ext (snd (sys_umask msk s))"
  by (auto simp: sys_umask_def set_ctx_def sys_inv_def unlocked_def Let_def fd_inv_def ctx_wf_def fds_filled_def
      ctx_refs_def holders_def)

end
