(* ===== verification/Tmpfs.thy ===== *)
theory Tmpfs
  imports Page_Cache
begin

text \<open>
  The in-memory file system \<open>kernel/kernel/fs/tmpfs.cpp\<close>, whose files live in the page cache only: its
  page operations, and truncation through \<open>vmo_truncate\<close>.
  It is the instance of \<open>cache_backend\<close>: a page that is not in the cache is a page of zeros, and preparing
  a write always succeeds.

  The properties say that a tmpfs file is an array of bytes: writes overwrite and extend it, with zeros in
  a gap, reads return it, and truncation cuts it or extends it with zeros.
\<close>

unbundle bit_operations_syntax

section \<open>The operations\<close>

definition tmpfs_readpage :: "nat \<Rightarrow> inode \<Rightarrow> int \<times> u8 list" where
  "tmpfs_readpage offset ino = (int PAGE_SIZE, replicate PAGE_SIZE 0)"

definition tmpfs_writepage :: "nat \<Rightarrow> inode \<Rightarrow> int" where
  "tmpfs_writepage offset ino = int PAGE_SIZE"

definition tmpfs_prepare_write :: "inode \<Rightarrow> nat \<Rightarrow> nat \<Rightarrow> nat \<Rightarrow> int" where
  "tmpfs_prepare_write ino page_off offset len = 0"

text \<open>The function table of a tmpfs inode, as the flags the generic code tests.\<close>

definition tmpfs_fops :: "inode \<Rightarrow> inode" where
  "tmpfs_fops ino = ino\<lparr>i_fops_read := False, i_fops_write := False, i_fops_close := True, i_fops_ioctl := False,
     i_fops_ftruncate := True, i_fops_fallocate := False, i_fops_readpage := True, i_fops_writepage := True\<rparr>"

text \<open>The page cache over tmpfs while memory lasts; \<open>err\<close> is the caller's \<open>errno\<close>.\<close>

definition tmpfs_penv :: "int \<Rightarrow> penv" where
  "tmpfs_penv err = \<lparr>pe_page_ok = \<lambda>_ _. True, pe_block_ok = \<lambda>_ _. True, pe_tree_ok = \<lambda>_ _. True,
     pe_readpage = tmpfs_readpage, pe_prepare_write = tmpfs_prepare_write, pe_errno = err\<rparr>"

definition tmpfs_ftruncate :: "nat \<Rightarrow> inode \<Rightarrow> int \<times> inode" where
  "tmpfs_ftruncate len ino =
     (let (st, ino1) = vmo_truncate len False ino
      in if st < 0 then (st, ino1) else (0, ino1\<lparr>i_size := of_nat len\<rparr>))"

section \<open>A tmpfs file is an array of bytes\<close>

abbreviation zero_pages :: "nat \<Rightarrow> u8 list" where
  "zero_pages \<equiv> (\<lambda>_. replicate 4096 0)"

interpretation tmpfs: cache_backend "tmpfs_penv err" zero_pages for err
  by unfold_locales
    (simp_all add: tmpfs_penv_def tmpfs_readpage_def tmpfs_prepare_write_def PAGE_SIZE_def)

text \<open>The contents of a tmpfs file, the invariant of its cache, and writing into an array of bytes.\<close>

definition tmpfs_contents :: "inode \<Rightarrow> u8 list" where
  "tmpfs_contents ino = map (byte_at zero_pages ino) [0..<i_len ino]"

definition tmpfs_wf :: "inode \<Rightarrow> bool" where
  "tmpfs_wf ino \<longleftrightarrow> cache_wf zero_pages ino \<and> i_fops_readpage ino"

definition bytes_write :: "u8 list \<Rightarrow> nat \<Rightarrow> u8 list \<Rightarrow> u8 list" where
  "bytes_write xs off bs =
     (if bs = [] then xs
      else take off xs @ replicate (off - length xs) 0 @ bs @ drop (off + length bs) xs)"

lemma length_contents [simp]: "length (tmpfs_contents ino) = i_len ino"
  by (simp add: tmpfs_contents_def)

lemma nth_contents: "p < i_len ino \<Longrightarrow> tmpfs_contents ino ! p = byte_at zero_pages ino p"
  by (simp add: tmpfs_contents_def)

lemma contents_slice:
  "map (byte_at zero_pages ino) [off..<off + min n (i_len ino - off)] = take n (drop off (tmpfs_contents ino))"
  by (rule nth_equalityI) (auto simp: nth_contents)

lemma nth_bytes_write:
  assumes "bs \<noteq> []" "p < max (length xs) (off + length bs)"
  shows "bytes_write xs off bs ! p =
    (if off \<le> p \<and> p < off + length bs then bs ! (p - off) else if p < length xs then xs ! p else 0)"
  using assms by (auto simp: bytes_write_def nth_append min_def)

lemma length_bytes_write: "length (bytes_write xs off bs) = (if bs = [] then length xs else max (length xs) (off + length bs))"
  by (auto simp: bytes_write_def)

lemma written_contents:
  assumes "written zero_pages ino off bs ino'" "cache_wf zero_pages ino"
  shows "tmpfs_contents ino' = bytes_write (tmpfs_contents ino) off bs"
proof (rule nth_equalityI)
  show len: "length (tmpfs_contents ino') = length (bytes_write (tmpfs_contents ino) off bs)"
    using assms(1) by (simp add: written_def length_bytes_write)
  fix p assume p: "p < length (tmpfs_contents ino')"
  have out: "byte_at zero_pages ino p = 0" if "i_len ino \<le> p" using that assms(2) by (simp add: cache_wf_def)
  show "tmpfs_contents ino' ! p = bytes_write (tmpfs_contents ino) off bs ! p"
  proof (cases "bs = []")
    case True
    then show ?thesis using assms(1) p by (auto simp: written_def nth_contents bytes_write_def)
  next
    case False
    have "p < max (i_len ino) (off + length bs)" using p len False by (simp add: length_bytes_write)
    then show ?thesis
      using False assms(1) p out by (auto simp: written_def nth_contents nth_bytes_write)
  qed
qed

lemma written_wf: "written zero_pages ino off bs ino' \<Longrightarrow> i_fops_readpage ino \<Longrightarrow> tmpfs_wf ino'"
  by (auto simp: written_def tmpfs_wf_def)

lemma read_frame_contents:
  assumes "read_frame zero_pages ino ino'"
  shows "tmpfs_contents ino' = tmpfs_contents ino" "i_fops_readpage ino \<Longrightarrow> tmpfs_wf ino'"
  using assms by (auto simp: read_frame_def tmpfs_contents_def tmpfs_wf_def i_len_def)

lemma tmpfs_write_wp:
  assumes "tmpfs_wf ino" "i_rwlock ino = 0" "user_bytes m buffer bs" "offset + length bs < 2 ^ 63"
  shows "wp (file_write_cache (tmpfs_penv e0) m buffer (length bs) offset ino)
    (\<lambda>(n, err, ino'). n = int (length bs) \<and> tmpfs_wf ino' \<and> i_rwlock ino' = 0 \<and>
       tmpfs_contents ino' = bytes_write (tmpfs_contents ino) offset bs \<and>
       i_mode ino' = i_mode ino \<and> i_uid ino' = i_uid ino \<and> i_gid ino' = i_gid ino \<and> i_page_pins ino' = i_page_pins ino)"
proof -
  have wf: "cache_wf zero_pages ino" "i_fops_readpage ino" using assms(1) by (auto simp: tmpfs_wf_def)
  have "i_rwlock ino' = 0 \<and> i_mode ino' = i_mode ino \<and> i_uid ino' = i_uid ino \<and> i_gid ino' = i_gid ino \<and>
      i_page_pins ino' = i_page_pins ino"
    if "written zero_pages ino offset bs ino'" for ino' using that assms(2) by (auto simp: written_def)
  then show ?thesis
    using tmpfs.file_write_cache_wp [OF wf assms(2-4), of e0]
    by (auto elim!: wp_mono intro: written_contents [OF _ wf(1)] written_wf [OF _ wf(2)])
qed

lemma tmpfs_read_wp:
  assumes "tmpfs_wf ino" "user_mapped m buffer len"
  shows "wp (file_read_cache (tmpfs_penv e0) buffer len offset m ino) (\<lambda>(n, err, m', ino').
     n = int (length (take len (drop offset (tmpfs_contents ino)))) \<and>
     m' = user_write m buffer (take len (drop offset (tmpfs_contents ino))) \<and>
     tmpfs_wf ino' \<and> tmpfs_contents ino' = tmpfs_contents ino)"
proof -
  have wf: "cache_wf zero_pages ino" "i_fops_readpage ino" using assms(1) by (auto simp: tmpfs_wf_def)
  have n: "length (take len (drop offset (tmpfs_contents ino))) = min len (i_len ino - offset)" by simp
  show ?thesis
    using tmpfs.file_read_cache_wp [OF wf assms(2) refl, of e0] unfolding contents_slice n
    by (rule wp_mono) (auto dest: read_frame_contents simp: wf)
qed

section \<open>Truncation\<close>

lemma cache_page: "cache_wf disk ino \<Longrightarrow> i_pages ino off = Some page \<Longrightarrow>
    off mod 4096 = 0 \<and> length page = 4096 \<and> off < i_vmo_size ino"
  unfolding cache_wf_def pages_wf_def by blast

lemma purge_bytes:
  assumes "cache_wf zero_pages ino" "sz mod 4096 = 0" "sz < i_vmo_size ino"
    and "ino1 = vmo_purge_pages sz (sz + (i_vmo_size ino - sz)) False ino"
  shows "byte_at zero_pages ino1 p = (if p < sz then byte_at zero_pages ino p else 0)"
    "\<And>off page. i_pages ino1 off = Some page \<Longrightarrow> off mod 4096 = 0 \<and> length page = 4096 \<and> off < sz"
proof -
  have pages: "i_pages ino1 off = (if sz \<le> off \<and> off < i_vmo_size ino then None else i_pages ino off)" for off
    using assms(3,4) by (simp add: vmo_purge_pages_def is_included_def)
  have wf: "off mod 4096 = 0 \<and> length page = 4096 \<and> off < i_vmo_size ino" if "i_pages ino off = Some page" for off page
    using that by (rule cache_page [OF assms(1)])
  show "\<And>off page. i_pages ino1 off = Some page \<Longrightarrow> off mod 4096 = 0 \<and> length page = 4096 \<and> off < sz"
    using wf pages by (metis linorder_not_le option.distinct(1))
  have "page_of p < sz \<longleftrightarrow> p < sz"
    using page_of_le [of p] aligned_less [OF page_of_mod assms(2), of p] by linarith
  moreover have "i_pages ino (page_of p) = None" if "i_vmo_size ino \<le> page_of p"
    using wf that by (metis linorder_not_le not_Some_eq)
  ultimately show "byte_at zero_pages ino1 p = (if p < sz then byte_at zero_pages ino p else 0)"
    using pages [of "page_of p"] by (auto simp: byte_at_def split: option.split)
qed

lemma truncate_bytes:
  assumes wf: "cache_wf zero_pages ino" and len: "len < 2 ^ 63" and tr: "tmpfs_ftruncate len ino = (st, ino')"
  shows "st = 0" "cache_wf zero_pages ino'" "i_len ino' = len"
    "byte_at zero_pages ino' p = (if p < len then byte_at zero_pages ino p else 0)"
    "\<exists>pages dp. ino' = ino\<lparr>i_pages := pages, i_dirty_pages := dp, i_vmo_size := align_up2 len, i_size := of_nat len\<rparr>"
proof -
  let ?sz = "align_up2 len" and ?A = "page_of len" and ?co = "len mod 4096"
  define ino1 where "ino1 = (if ?sz < i_vmo_size ino
    then vmo_purge_pages ?sz (?sz + (i_vmo_size ino - ?sz)) False ino else ino)"
  have zero: "byte_at zero_pages ino p = 0" if "i_len ino \<le> p" for p using wf that by (simp add: cache_wf_def)
  have b1: "byte_at zero_pages ino1 p = (if p < ?sz then byte_at zero_pages ino p else 0)" for p
    using purge_bytes(1) [OF wf align_up2_props(3) _ refl, of len p] zero [of p] wf align_up2_props(1) [of "i_len ino"]
    by (auto simp: ino1_def cache_wf_def)
  have w1: "off mod 4096 = 0 \<and> length page = 4096 \<and> off < ?sz" if "i_pages ino1 off = Some page" for off page
    using that purge_bytes(2) [OF wf align_up2_props(3) _ refl, of len off page] cache_page [OF wf, of off page]
    by (auto simp: ino1_def split: if_splits)
  define ino2 where "ino2 = (case i_pages ino1 ?A of None \<Rightarrow> ino1
    | Some page \<Rightarrow> ino1\<lparr>i_pages := (i_pages ino1)(?A \<mapsto> splice ?co (replicate (?sz - len) 0) page)\<rparr>)"
  have room: "?co + length (replicate (?sz - len) (0::u8)) \<le> 4096" "?A + ?co = len" "?sz \<le> ?A + 4096"
    using page_of_le [of len] align_up2_page [of len] by auto
  have b2: "byte_at zero_pages ino2 p = (if len \<le> p \<and> p < ?sz then 0 else byte_at zero_pages ino1 p)" for p
  proof (cases "i_pages ino1 ?A")
    case None
    then have "byte_at zero_pages ino1 p = 0" if "len \<le> p" "p < ?sz"
      using that room page_of_eq(1) [OF page_of_mod, of len p] page_of_le(1) [of len] by (simp add: byte_at_def)
    then show ?thesis using None by (auto simp: ino2_def)
  next
    case (Some page)
    then show ?thesis
      using byte_at_store [OF page_of_mod Some _ room(1), of ino2 zero_pages p] w1 [OF Some] room(2) align_up2_props(1) [of len]
      by (auto simp: ino2_def)
  qed
  have w2: "off mod 4096 = 0 \<and> length page = 4096 \<and> off < ?sz" if "i_pages ino2 off = Some page" for off page
    using that w1 [of off] w1 [of ?A] room(1)
    by (cases "i_pages ino1 ?A") (auto simp: ino2_def splice_props split: if_splits)
  have "tmpfs_ftruncate len ino = (0, ino2\<lparr>i_vmo_size := ?sz, i_size := of_nat len\<rparr>)"
    unfolding ino2_def ino1_def tmpfs_ftruncate_def vmo_truncate_def PAGE_SIZE_4096
    by (simp only: Let_def prod.case simp_thms less_irrefl if_False)
  then have ino': "st = 0" "ino' = ino2\<lparr>i_vmo_size := ?sz, i_size := of_nat len\<rparr>" using tr by simp_all
  show "st = 0" by fact
  show l: "i_len ino' = len" using ino'(2) unat_word_of_nat [OF len] by (simp add: i_len_def)
  have b': "byte_at zero_pages ino' p = (if p < len then byte_at zero_pages ino p else 0)" for p
    using ino'(2) b2 [of p] b1 [of p] align_up2_props(1) [of len] by (auto simp: byte_at_def)
  then show "byte_at zero_pages ino' p = (if p < len then byte_at zero_pages ino p else 0)" .
  show "cache_wf zero_pages ino'"
    using w2 b' l len ino'(2) by (simp add: cache_wf_def pages_wf_def)
  have "ino1 = ino\<lparr>i_pages := i_pages ino1, i_dirty_pages := i_dirty_pages ino1\<rparr>"
    by (cases ino) (simp add: ino1_def vmo_purge_pages_def)
  then have "ino2 = ino\<lparr>i_pages := i_pages ino2, i_dirty_pages := i_dirty_pages ino2\<rparr>"
    unfolding ino2_def by (cases ino; cases ino1) (simp split: option.split)
  then have "\<exists>pages dp. ino2 = ino\<lparr>i_pages := pages, i_dirty_pages := dp\<rparr>" by (intro exI)
  then show "\<exists>pages dp. ino' = ino\<lparr>i_pages := pages, i_dirty_pages := dp, i_vmo_size := ?sz, i_size := of_nat len\<rparr>"
    using ino'(2) by auto
qed

section \<open>Properties\<close>

definition demo_tmpfs :: inode where
  "demo_tmpfs = tmpfs_fops (demo_inode\<lparr>i_size := 0, i_vmo_size := 0, i_pages := (\<lambda>_. None), i_rwlock := 0\<rparr>)"

definition demo_umem :: umem where
  "demo_umem = (\<lambda>a. if a < 100 then Some (of_nat a) else None)"

lemma demo_tmpfs_wf: "tmpfs_wf demo_tmpfs" "i_rwlock demo_tmpfs = 0" "tmpfs_contents demo_tmpfs = []"
  by (simp_all add: demo_tmpfs_def tmpfs_fops_def tmpfs_wf_def cache_wf_def pages_wf_def i_len_def align_up2_def
      PAGE_SIZE_def byte_at_def tmpfs_contents_def)

lemma demo_umem_bytes: "user_bytes demo_umem 7 [7, 8]" "user_mapped demo_umem 20 9"
  by (auto simp: user_bytes_def demo_umem_def user_mapped_def less_Suc_eq)

lemma demo_write: "length [7, 8 :: u8] = 2" "bytes_write [] 3 [7, 8] = [0, 0, 0, 7, 8]"
  by (simp_all add: bytes_write_def numeral_3_eq_3)

text \<open>
  C24. Writing to a tmpfs file. Whenever the inode's lock is free, the user's buffer is readable and the end
  of the write is below \<open>2 ^ 63\<close>, the write returns (the lock is obtained and given back, the loop over the
  pages ends) with the full length, and the contents of the file are those before with the bytes written
  over them: a gap between the old end and the offset is filled with zeros, and everything beyond the
  bytes written is kept. The pins of the pages are given back, and the invariant of the cache is kept.
\<close>

theorem tmpfs_write_overwrites:
  assumes "tmpfs_wf ino" "i_rwlock ino = 0" "user_bytes m buffer bs" "offset + length bs < 2 ^ 63"
  shows "\<exists>err ino'. file_write_cache (tmpfs_penv e0) m buffer (length bs) offset ino = Some (int (length bs), err, ino') \<and>
    tmpfs_wf ino' \<and> i_rwlock ino' = 0 \<and> tmpfs_contents ino' = bytes_write (tmpfs_contents ino) offset bs \<and>
    i_mode ino' = i_mode ino \<and> i_uid ino' = i_uid ino \<and> i_gid ino' = i_gid ino \<and> i_page_pins ino' = i_page_pins ino"
  using tmpfs_write_wp [OF assms, of e0] by (auto simp: wp_iff)

theorem tmpfs_write_overwrites_witness:
  "\<exists>err ino'. file_write_cache (tmpfs_penv 0) demo_umem 7 2 3 demo_tmpfs = Some (2, err, ino') \<and>
     tmpfs_contents ino' = [0, 0, 0, 7, 8]"
  using tmpfs_write_overwrites [OF demo_tmpfs_wf(1,2) demo_umem_bytes(1), of 3 0, unfolded demo_write]
  by (auto simp: demo_tmpfs_wf demo_write)

text \<open>
  C25. What was written to a tmpfs file is read back: a write followed by a read of the same range into
  mapped memory returns the same bytes there, and leaves the rest of the memory alone.
\<close>

theorem tmpfs_write_read:
  assumes "tmpfs_wf ino" "i_rwlock ino = 0" "user_bytes m buffer bs" "offset + length bs < 2 ^ 63"
    and "user_mapped m dst (length bs)"
  shows "\<exists>ino1 e err ino2. file_write_cache (tmpfs_penv e0) m buffer (length bs) offset ino = Some (int (length bs), e, ino1) \<and>
    file_read_cache (tmpfs_penv e0) dst (length bs) offset m ino1 =
      Some (int (length bs), err, user_write m dst bs, ino2) \<and> tmpfs_contents ino2 = tmpfs_contents ino1"
proof -
  obtain e ino1 where 1: "file_write_cache (tmpfs_penv e0) m buffer (length bs) offset ino = Some (int (length bs), e, ino1)"
    "tmpfs_wf ino1" "tmpfs_contents ino1 = bytes_write (tmpfs_contents ino) offset bs"
    using tmpfs_write_wp [OF assms(1-4), of e0] by (auto simp: wp_iff)
  have "take (length bs) (drop offset (tmpfs_contents ino1)) = bs"
    unfolding 1 by (simp add: bytes_write_def)
  then show ?thesis using tmpfs_read_wp [OF 1(2) assms(5), of e0 offset] 1(1) by (auto simp: wp_iff)
qed

theorem tmpfs_write_read_witness:
  "\<exists>ino1 e err ino2. file_write_cache (tmpfs_penv 0) demo_umem 7 2 3 demo_tmpfs = Some (2, e, ino1) \<and>
     file_read_cache (tmpfs_penv 0) 20 2 3 demo_umem ino1 = Some (2, err, user_write demo_umem 20 [7, 8], ino2)"
  using tmpfs_write_read [OF demo_tmpfs_wf(1,2) demo_umem_bytes(1), of 3 20 0, unfolded demo_write]
    user_mapped_sub [OF demo_umem_bytes(2), of 0 2]
  by auto

text \<open>
  C26. Truncating a tmpfs file to \<open>len\<close> bytes cuts its contents to their first \<open>len\<close> bytes or extends them
  with zeros, also where the last page is cut in the middle and the file is extended again later: the cache
  keeps no byte beyond the end.
\<close>

theorem tmpfs_truncate_cuts:
  assumes "tmpfs_wf ino" "len < 2 ^ 63"
  shows "\<exists>ino'. tmpfs_ftruncate len ino = (0, ino') \<and> tmpfs_wf ino' \<and>
    tmpfs_contents ino' = take len (tmpfs_contents ino) @ replicate (len - length (tmpfs_contents ino)) 0"
proof -
  obtain st ino' where tr: "tmpfs_ftruncate len ino = (st, ino')" by (cases "tmpfs_ftruncate len ino")
  have wf: "cache_wf zero_pages ino" "i_fops_readpage ino" using assms(1) by (simp_all add: tmpfs_wf_def)
  note t = truncate_bytes [OF wf(1) assms(2) tr]
  have zero: "byte_at zero_pages ino p = 0" if "i_len ino \<le> p" for p using wf that by (simp add: cache_wf_def)
  have "tmpfs_contents ino' = take len (tmpfs_contents ino) @ replicate (len - length (tmpfs_contents ino)) 0"
    using t(3) by (intro nth_equalityI) (auto simp: nth_contents nth_append t(4) zero)
  moreover have "tmpfs_wf ino'" using t(2,5) wf(2) by (auto simp: tmpfs_wf_def)
  ultimately show ?thesis using tr t(1) by simp
qed

theorem tmpfs_truncate_cuts_witness:
  "\<exists>ino'. tmpfs_ftruncate 4 demo_tmpfs = (0, ino') \<and> tmpfs_contents ino' = [0, 0, 0, 0]"
proof -
  have "replicate 4 (0::u8) = [0, 0, 0, 0]" by (simp add: numeral_eq_Suc)
  then show ?thesis using tmpfs_truncate_cuts [OF demo_tmpfs_wf(1), of 4] by (auto simp: demo_tmpfs_wf)
qed

end
