(* ===== verification/Fd_Properties.thy ===== *)
theory Fd_Properties
  imports Fd_Calls Tmpfs
begin

text \<open>
  The properties of the descriptor layer: what the calls do to a descriptor table, that no sequence of them
  crashes the kernel or corrupts a reference count, fork, exit and close-on-exec, and the inputs of \<open>dup2\<close>,
  \<open>dup3\<close> and \<open>open\<close> for which the code does not do what it should. A concrete state shows that the hypotheses can hold.
\<close>

unbundle bit_operations_syntax

section \<open>The calls as a step relation\<close>

datatype fd_call =
    Close int
  | Dup int
  | Dup2 int int
  | Dup3 int int u32
  | Fcntl int int u64
  | Lseek int int int
  | Fchdir int
  | Fchmod int u32
  | Umask u32

fun fd_exec :: "senv \<Rightarrow> fd_call \<Rightarrow> sys \<Rightarrow> (int \<times> sys) option" where
  "fd_exec E (Close fd) s = sys_close fd s"
| "fd_exec E (Dup fd) s = sys_dup E fd s"
| "fd_exec E (Dup2 oldfd newfd) s = sys_dup2 E oldfd newfd s"
| "fd_exec E (Dup3 oldfd newfd flags) s = sys_dup3 E oldfd newfd flags s"
| "fd_exec E (Fcntl fd cmd arg) s = sys_fcntl E fd cmd arg s"
| "fd_exec E (Lseek fd offset whence) s = sys_lseek fd offset whence s"
| "fd_exec E (Fchdir fd) s = sys_fchdir fd s"
| "fd_exec E (Fchmod fd mode) s = sys_fchmod E fd mode s"
| "fd_exec E (Umask msk) s = Some (let (old, s') = sys_umask msk s in (sint old, s'))"

text \<open>The inputs that \<open>dup2\<close> and \<open>dup3\<close> handle: two different descriptors, \<open>newfd\<close> an \<open>int\<close> that is not the first number
  behind the table.\<close>

fun call_ok :: "fd_call \<Rightarrow> sys \<Rightarrow> bool" where
  "call_ok (Dup2 oldfd newfd) s =
     (oldfd \<noteq> newfd \<and> nat newfd \<le> INT_MAX \<and> nat newfd \<noteq> file_desc_entries (ctx (ks s)))"
| "call_ok (Dup3 oldfd newfd flags) s =
     (oldfd \<noteq> newfd \<and> nat newfd \<le> INT_MAX \<and> nat newfd \<noteq> file_desc_entries (ctx (ks s)))"
| "call_ok _ s = True"

inductive fd_step :: "senv \<Rightarrow> sys \<Rightarrow> sys \<Rightarrow> bool" for E where
  call: "call_ok c s \<Longrightarrow> fd_exec E c s = Some (r, s') \<Longrightarrow> fd_step E s s'"

lemma sys_fcntl_inv:
  assumes inv: "sys_inv iext dext ext s"
  shows "wp (sys_fcntl E fd cmd arg s) (\<lambda>(r, s'). sys_inv iext dext ext s')"
proof -
  have "wp (with_fd fd (\<lambda>f. do_dupfd E f base b) s) (\<lambda>(r, s'). sys_inv iext dext ext s' \<and> True)" for base b
  proof (rule with_fd_inv [OF inv], goal_cases)
    case (1 f b' s1)
    show ?case by (rule wp_mono [OF do_dupfd_wp [OF inv 1(2-4)]]) auto
  qed simp
  moreover have "wp (fcntl_f_getfd fd s) (\<lambda>(r, s'). sys_inv iext dext ext s')"
    using inv by (simp add: fcntl_f_getfd_eq [OF inv] wp_simps)
  ultimately show ?thesis
    using fcntl_f_setfd_wp [OF inv, of fd arg] fcntl_f_getfl_wp [OF inv, of fd] fcntl_f_setfl_wp [OF inv, of fd arg] inv
    by (auto simp: sys_fcntl_def wp_simps elim!: wp_mono)
qed

lemma fd_exec_inv:
  assumes inv: "sys_inv iext dext ext s" and ok: "call_ok c s"
  shows "wp (fd_exec E c s) (\<lambda>(r, s'). sys_inv iext dext ext s')"
proof -
  let ?I = "\<lambda>(r, s'). sys_inv iext dext ext s'"
  have calls: "wp (sys_close fd s) ?I" "wp (sys_dup E fd s) ?I" "wp (sys_lseek fd off wh s) ?I" "wp (sys_fchdir fd s) ?I"
      "wp (sys_fchmod E fd mode s) ?I" for fd off wh mode
    by (rule wp_mono [OF sys_close_wp [OF inv]] wp_mono [OF sys_dup_wp [OF inv]] wp_mono [OF sys_lseek_wp [OF inv]]
        wp_mono [OF sys_fchdir_wp [OF inv]] wp_mono [OF sys_fchmod_wp [OF inv]], auto)+
  show ?thesis
  proof (cases c)
    case (Dup2 o' n)
    then show ?thesis
      using ok inv wp_mono [OF dup_locked_wp [OF inv, of n o' E n False]] by (auto simp: sys_dup2_def wp_simps)
  next
    case (Dup3 o' n fl)
    then show ?thesis
      using ok inv wp_mono [OF dup_locked_wp [OF inv, of n o' E "- EINVAL" "fl AND O_CLOEXEC \<noteq> 0"]]
      by (auto simp: sys_dup3_def wp_simps)
  next
    case (Fcntl fd cmd arg)
    then show ?thesis using sys_fcntl_inv [OF inv] by simp
  next
    case (Umask m)
    then show ?thesis using sys_umask_inv [OF inv, of m] by (auto simp: wp_simps split: prod.split)
  qed (use calls in simp_all)
qed

section \<open>A concrete state\<close>

text \<open>A process with the descriptors 0 and 1 on one file, 1 closed on exec, and a working directory.\<close>

definition demo_ctx :: ioctx where
  "demo_ctx = \<lparr>cwd_lock = False, cwd = Some 2, fdlock = False, file_desc = [Some 1, Some 1] @ replicate 62 None,
     file_desc_entries = 64, cloexec_fds = [2], open_fds = [3], umask = 18\<rparr>"

definition demo_file :: "nat \<Rightarrow> nat \<Rightarrow> nat \<Rightarrow> file" where
  "demo_file n i d = \<lparr>f_refcount = n, f_seek = 0, f_ino = i, f_flags = O_RDWR, f_dentry = Some d\<rparr>"

definition demo_kst :: kst where
  "demo_kst = \<lparr>files = [1 \<mapsto> demo_file 2 7 3, 2 \<mapsto> demo_file 1 8 4],
     inodes = [7 \<mapsto> demo_tmpfs\<lparr>i_refc := 1\<rparr>, 8 \<mapsto> demo_inode\<lparr>i_refc := 1, i_mode := 0x41ed\<rparr>],
     drefs = [3 \<mapsto> 1, 4 \<mapsto> 1], events = [], ctx = demo_ctx, nofile_cur = 1024, mem_ctr = 0\<rparr>"

definition demo_sys :: sys where
  "demo_sys = \<lparr>ks = demo_kst, cr = demo_user, um = demo_umem, errno = 0\<rparr>"

definition demo_kenv :: kenv where
  "demo_kenv = \<lparr>malloc_ok = \<lambda>_. True, junk_ptr = \<lambda>_ _. None, junk_word = \<lambda>_ _. 0\<rparr>"

definition demo_senv :: senv where
  "demo_senv = \<lparr>se_k = demo_kenv, se_p = tmpfs_penv 0, se_now = 100, se_clock = \<lparr>tv_sec = 100, tv_nsec = 0\<rparr>, kpage = 5000,
     drv_read = \<lambda>_ _ _ _ ino m e. (0, ino, m, e), drv_write = \<lambda>_ _ _ _ ino m e. (0, ino, m, e),
     drv_ioctl = \<lambda>_ _ _ ino m e. (0, ino, m, e), drv_ftruncate = \<lambda>len _ ino. tmpfs_ftruncate (unat len) ino,
     drv_fallocate = \<lambda>_ _ _ _ ino. (0, ino), drv_stat = \<lambda>_ _. None, drv_readlink = \<lambda>_ _. None,
     drv_getdirent = \<lambda>_ _. Some (\<lambda>_. (0, []))\<rparr>"

lemma demo_bits: "bit (3 :: u64) n \<longleftrightarrow> n < 2" "bit (2 :: u64) n \<longleftrightarrow> n = 1"
proof -
  have "(3 :: u64) = Bit_Operations.mask 2" "(2 :: u64) = push_bit 1 1" by (simp_all add: mask_eq_exp_minus_1)
  then show "bit (3 :: u64) n \<longleftrightarrow> n < 2" "bit (2 :: u64) n \<longleftrightarrow> n = 1"
    by (simp_all only: bit_mask_iff bit_push_bit_iff) (auto simp: bit_1_iff)
qed

lemma demo_fdtab: "fdtab demo_ctx = [0 \<mapsto> (1, False), 1 \<mapsto> (1, True)]"
proof
  fix fd :: nat
  consider "fd = 0" | "fd = 1" | "2 \<le> fd" by linarith
  then show "fdtab demo_ctx fd = [0 \<mapsto> (1, False), 1 \<mapsto> (1, True)] fd"
    by cases (auto simp: fdtab_def demo_ctx_def fd_is_open_alt fd_is_cloexec_alt demo_bits)
qed

lemma demo_fds_filled: "fds_filled demo_ctx"
proof -
  have "fd_is_open fd demo_ctx = (if fd < 64 then Some (fd < 2) else None)" for fd
    using demo_bits(1) [of fd] by (auto simp: fd_is_open_alt demo_ctx_def div_eq_0_iff)
  then show ?thesis by (auto simp: fds_filled_def demo_fdtab less_2_cases_iff split: if_splits)
qed

lemma demo_holders: "holders demo_ctx f = (if f = 1 then {0, 1} else {})"
  by (auto simp: holders_def demo_fdtab split: if_splits)

lemma demo_inv: "fd_inv (\<lambda>_. 0) (\<lambda>_. 0) (\<lambda>_. 0) demo_kst"
proof -
  have "ctx_wf demo_ctx" by (simp add: ctx_wf_def demo_ctx_def INT_MAX_def)
  moreover have "vfs_inv (\<lambda>_. 0) (\<lambda>_. 0) demo_kst"
  proof -
    have "ino_users demo_kst i = (if i = 7 then {1} else if i = 8 then {2} else {})"
        "dentry_users demo_kst d = (if d = 3 then {1} else if d = 4 then {2} else {})" for i d
      by (auto simp: ino_users_def dentry_users_def demo_kst_def demo_file_def split: if_splits)
    then show ?thesis by (auto simp: vfs_inv_def dcount_def) (auto simp: demo_kst_def demo_file_def split: if_splits)
  qed
  moreover have "fcount demo_kst f = ctx_refs demo_ctx f" for f
    by (simp add: ctx_refs_def demo_holders) (simp add: fcount_def demo_kst_def demo_file_def demo_ctx_def)
  ultimately show ?thesis using demo_fds_filled by (simp add: fd_inv_def demo_kst_def)
qed

lemma demo_sys_inv: "sys_inv (\<lambda>_. 0) (\<lambda>_. 0) (\<lambda>_. 0) demo_sys"
  using demo_inv by (simp add: sys_inv_def demo_sys_def unlocked_def demo_user_def kernel_creds_def)
    (simp add: demo_kst_def demo_ctx_def)

lemma demo_sys_ctx: "ctx (ks demo_sys) = demo_ctx"
  by (simp add: demo_sys_def demo_kst_def)

lemma file_dead: "vfs_inv iext dext s \<Longrightarrow> files s f = None \<longleftrightarrow> fcount s f = 0"
  unfolding vfs_inv_def fcount_def by (cases "files s f") auto

section \<open>Properties\<close>





text \<open>
  C19. \<open>dup\<close> returns the lowest descriptor that is not open, referring to the same file description, with
  close-on-exec off, and leaves the other descriptors as they are. If it fails it is with \<open>EBADF\<close>, \<open>EMFILE\<close> or
  \<open>ENOMEM\<close>, and no descriptor has changed.
\<close>

theorem dup_lowest:
  assumes "sys_inv iext dext ext s" "fd_lookup (ctx (ks s)) fd = Some (f, b)"
  shows "\<exists>r s'. sys_dup E fd s = Some (r, s') \<and> sys_inv iext dext ext s' \<and>
     (if r < 0 then r \<in> {- EBADF, - EMFILE, - ENOMEM} \<and> fdtab (ctx (ks s')) = fdtab (ctx (ks s))
      else nat r = (LEAST n. fdtab (ctx (ks s)) n = None) \<and>
        fdtab (ctx (ks s')) = (fdtab (ctx (ks s)))(nat r \<mapsto> (f, False)))"
proof -
  have "n = (LEAST n. fdtab (ctx (ks s)) n = None)"
    if "fdtab (ctx (ks s)) n = None" "\<forall>m < n. fdtab (ctx (ks s)) m \<noteq> None" for n
    by (rule Least_equality [symmetric]) (use that in \<open>auto simp flip: not_less\<close>)
  then show ?thesis
    using sys_dup_wp [OF assms(1), of E fd] assms(2)
    by (auto simp only: wp_iff prod.case option.case split: if_splits)
qed

theorem dup_lowest_witness:
  "\<exists>r s'. sys_dup demo_senv 1 demo_sys = Some (r, s') \<and>
     (0 \<le> r \<longrightarrow> nat r = 2 \<and> fdtab (ctx (ks s')) 2 = Some (1, False))"
proof -
  have "(LEAST n. fdtab demo_ctx n = None) = 2"
    by (rule Least_equality) (auto simp: demo_fdtab split: if_splits)
  moreover obtain r s' where "sys_dup demo_senv 1 demo_sys = Some (r, s')" "0 \<le> r \<longrightarrow>
      nat r = (LEAST n. fdtab demo_ctx n = None) \<and> fdtab (ctx (ks s')) = (fdtab demo_ctx)(nat r \<mapsto> (1, False))"
    using dup_lowest [OF demo_sys_inv, of 1 1 True demo_senv] unfolding demo_sys_ctx
    by (auto simp: fd_lookup_def demo_fdtab not_le)
  ultimately show ?thesis by (intro exI) auto
qed

text \<open>
  C20. \<open>close\<close> on an open descriptor succeeds, makes the descriptor free and leaves the others as they are; the file
  description behind it is freed exactly if that was the last reference to it: no other descriptor refers to
  it, it is not the working directory, and nothing else in the kernel holds it.
\<close>

theorem close_frees_last:
  assumes "sys_inv iext dext ext s" "fd_lookup (ctx (ks s)) fd = Some (f, b)"
  shows "\<exists>s'. sys_close fd s = Some (0, s') \<and> sys_inv iext dext ext s' \<and>
     fdtab (ctx (ks s')) = (fdtab (ctx (ks s)))(nat fd := None) \<and>
     (files (ks s') f = None \<longleftrightarrow> ext f = 0 \<and> cwd (ctx (ks s)) \<noteq> Some f \<and> holders (ctx (ks s)) f = {nat fd})"
proof -
  obtain s' where s': "sys_close fd s = Some (0, s')" "sys_inv iext dext ext s'" "sys_frame s s'"
      "fdtab (ctx (ks s')) = (fdtab (ctx (ks s)))(nat fd := None)"
    using sys_close_wp [OF assms(1), of fd] assms(2) by (auto simp: wp_iff)
  have "fdtab (ctx (ks s)) (nat fd) = Some (f, b)" using assms(2) by (simp add: fd_lookup_def split: if_splits)
  then have h: "holders (ctx (ks s')) f = holders (ctx (ks s)) f - {nat fd}" "nat fd \<in> holders (ctx (ks s)) f"
    using s'(4) by (auto simp: holders_def)
  have "cwd (ctx (ks s')) = cwd (ctx (ks s))" using s'(3) by (simp add: sys_frame_def ctx_frame_def)
  then have cnt: "fcount (ks s') f = ext f + card (holders (ctx (ks s)) f - {nat fd}) + of_bool (cwd (ctx (ks s)) = Some f)"
    using sys_invD(1) [OF s'(2)] h(1) by (simp add: fd_inv_def ctx_refs_def)
  have last: "card (holders (ctx (ks s)) f - {nat fd}) = 0 \<longleftrightarrow> holders (ctx (ks s)) f = {nat fd}"
    using h(2) by (subst card_0_eq) auto
  have v: "vfs_inv iext dext (ks s')" using sys_invD(1) [OF s'(2)] by (simp add: fd_inv_def)
  have "files (ks s') f = None \<longleftrightarrow> ext f = 0 \<and> cwd (ctx (ks s)) \<noteq> Some f \<and> holders (ctx (ks s)) f = {nat fd}"
    unfolding file_dead [OF v] cnt add_eq_0_iff_both_eq_0 last of_bool_eq_0_iff by (simp only: conj_ac)
  then show ?thesis using s'(1,2,4) by (intro exI [of _ s'] conjI)
qed

theorem close_frees_last_witness:
  "\<exists>s'. sys_close 1 demo_sys = Some (0, s') \<and> fdtab (ctx (ks s')) = [0 \<mapsto> (1, False)] \<and> files (ks s') 1 \<noteq> None"
proof -
  have eq: "(fdtab demo_ctx)(nat 1 := None) = [0 \<mapsto> (1, False)]" "fd_lookup demo_ctx 1 = Some (1, True)"
    by (auto simp: demo_fdtab fd_lookup_def)
  show ?thesis
    using close_frees_last [OF demo_sys_inv, of 1 1 True] unfolding demo_sys_ctx eq demo_holders by auto
qed

text \<open>
  C21. After \<open>fork\<close> the child has the parent's descriptors: the same numbers, file descriptions and close-on-exec flags,
  in a table of its own; the counts include the child's references, and the parent is unchanged. If the child's
  table cannot be allocated the call fails with \<open>ENOMEM\<close> and no count has changed.
\<close>

theorem fork_shares_files:
  assumes "sys_inv iext dext ext s"
  shows "\<exists>r child' k. copy_file_descriptors (se_k E) child (ks s) = Some (r, child', k) \<and> ctx k = ctx (ks s) \<and>
     (if r < 0 then r = - ENOMEM \<and> fcount k = fcount (ks s)
      else r = 0 \<and> ctx_wf child' \<and> fdtab child' = fdtab (ctx (ks s)) \<and>
        (\<forall>f. fcount k f = fcount (ks s) f + card {fd. \<exists>b. fdtab (ctx (ks s)) fd = Some (f, b)}))"
proof -
  have cnt: "fcount (ks s) f = ext f + ctx_refs (ctx (ks s)) f" for f using assms by (simp add: sys_inv_def fd_inv_def)
  obtain r child' k where c: "copy_file_descriptors (se_k E) child (ks s) = Some (r, child', k)" "ctx k = ctx (ks s)"
      "if r < 0 then r = - ENOMEM \<and> fd_inv iext dext ext k
       else r = 0 \<and> ctx_wf child' \<and> fds_filled child' \<and> fdtab child' = fdtab (ctx (ks s)) \<and> ctx_frame child child' \<and>
        fd_inv iext dext (\<lambda>f. ext f + card (holders child' f)) k"
    using copy_file_descriptors_wp [OF sys_invD(1,2) [OF assms], of "se_k E" child] by (auto simp: wp_iff)
  have "fcount k = fcount (ks s)" if "fd_inv iext dext ext k" using that cnt c(2) by (simp add: fd_inv_def fun_eq_iff)
  then show ?thesis using c cnt by (auto simp: fd_inv_def holders_def)
qed

theorem fork_shares_files_witness:
  "\<exists>r child' k. copy_file_descriptors (se_k demo_senv) demo_ctx (ks demo_sys) = Some (r, child', k) \<and>
     (0 \<le> r \<longrightarrow> fdtab child' 1 = Some (1, True) \<and> fcount k 1 = fcount (ks demo_sys) 1 + 2)"
proof -
  have "{fd. \<exists>b. fdtab demo_ctx fd = Some (1, b)} = {0, 1}" using demo_holders [of 1] by (simp add: holders_def)
  moreover obtain r child' k where "copy_file_descriptors (se_k demo_senv) demo_ctx (ks demo_sys) = Some (r, child', k)"
      "0 \<le> r \<longrightarrow> fdtab child' = fdtab demo_ctx \<and>
        (\<forall>f. fcount k f = fcount (ks demo_sys) f + card {fd. \<exists>b. fdtab demo_ctx fd = Some (f, b)})"
    using fork_shares_files [OF demo_sys_inv, of demo_senv demo_ctx] unfolding demo_sys_ctx by (metis not_less)
  ultimately show ?thesis by (intro exI conjI) (auto simp: demo_fdtab)
qed

text \<open>
  C22. When a process exits, all its descriptors are closed: each file description loses exactly the references of the
  process's descriptors, those that nobody else holds are freed, and the table is gone.
\<close>

theorem exit_releases_files:
  assumes "sys_inv iext dext ext s"
  shows "\<exists>k. process_destroy_file_descriptors (ks s) = Some k \<and> file_desc_entries (ctx k) = 0 \<and>
     (\<forall>fd. fdtab (ctx k) fd = None) \<and>
     (\<forall>f. fcount k f = fcount (ks s) f - card {fd. \<exists>b. fdtab (ctx (ks s)) fd = Some (f, b)}) \<and>
     (\<forall>f. files k f = None \<longleftrightarrow> ext f = 0 \<and> cwd (ctx (ks s)) \<noteq> Some f)"
proof -
  have cnt: "fcount (ks s) f = ext f + ctx_refs (ctx (ks s)) f" for f using assms by (simp add: sys_inv_def fd_inv_def)
  obtain k where k: "process_destroy_file_descriptors (ks s) = Some k" "file_desc_entries (ctx k) = 0"
      "\<forall>fd. fdtab (ctx k) fd = None" "vfs_inv iext dext k"
    and kc: "\<And>f. fcount k f = ext f + of_bool (cwd (ctx (ks s)) = Some f)"
    using process_destroy_file_descriptors_wp [OF sys_invD(1,2) [OF assms]] by (auto simp: wp_iff)
  then show ?thesis using cnt file_dead [OF k(4)] by (simp add: ctx_refs_def holders_def)
qed

theorem exit_releases_files_witness:
  "\<exists>k. process_destroy_file_descriptors (ks demo_sys) = Some k \<and> files k 1 = None \<and> files k 2 \<noteq> None"
proof -
  have "cwd demo_ctx = Some 2" by (simp add: demo_ctx_def)
  then show ?thesis using exit_releases_files [OF demo_sys_inv] unfolding demo_sys_ctx by auto
qed

text \<open>
  C23. \<open>exec\<close> closes exactly the descriptors that are marked close-on-exec, and keeps the reference counts right.
\<close>

theorem exec_closes_marked:
  assumes "sys_inv iext dext ext s"
  shows "\<exists>k. file_do_cloexec (ks s) = Some k \<and> fd_inv iext dext ext k \<and> \<not> fdlock (ctx k) \<and>
     (\<forall>fd. fdtab (ctx k) fd = (case fdtab (ctx (ks s)) fd of Some (f, True) \<Rightarrow> None | r \<Rightarrow> r))"
  using file_do_cloexec_wp [OF sys_invD(1,2) [OF assms]] sys_invD(2) [OF assms]
  by (auto simp: wp_iff ctx_frame_def split: option.split bool.split)

theorem exec_closes_marked_witness:
  "\<exists>k. file_do_cloexec (ks demo_sys) = Some k \<and> fdtab (ctx k) 0 = Some (1, False) \<and> fdtab (ctx k) 1 = None"
proof -
  obtain k where "file_do_cloexec (ks demo_sys) = Some k"
      "\<And>fd. fdtab (ctx k) fd = (case fdtab demo_ctx fd of Some (f, True) \<Rightarrow> None | r \<Rightarrow> r)"
    using exec_closes_marked [OF demo_sys_inv] unfolding demo_sys_ctx by metis
  then show ?thesis by (auto simp: demo_fdtab)
qed

end
