(* ===== verification/Fd_Errors.thy ===== *)
theory Fd_Errors
  imports Fd_Properties
begin

text \<open>
  Opening a descriptor for a file that has been looked up, and the inputs for which the descriptor calls do not do what
  they should: \<open>dup2\<close> to the number right behind the table, \<open>dup2\<close> of a descriptor to itself, \<open>open\<close> without a free
  descriptor, and \<open>getdents\<close> at the end of a directory.
\<close>

unbundle bit_operations_syntax

section \<open>Opening\<close>

lemma set_file_simps [simp]:
  "ctx (ks (set_file f fl s)) = ctx (ks s)" "files (ks (set_file f fl s)) = (files (ks s))(f \<mapsto> fl)"
  "inodes (ks (set_file f fl s)) = inodes (ks s)" "um (set_file f fl s) = um s" "cr (set_file f fl s) = cr s"
  by (simp_all add: set_file_def)

lemma set_cloexec_files: "wp (set_cloexec fd b s) Q \<Longrightarrow> wp (set_cloexec fd b s) (\<lambda>s'. Q s' \<and> files (ks s') = files (ks s) \<and>
    inodes (ks s') = inodes (ks s))"
  by (auto simp: set_cloexec_def set_ctx_def wp_simps elim!: wp_mono)

lemma fd_inv_file:
  assumes "fd_inv iext dext ext s" "fdtab (ctx s) fd = Some (f, b)"
  obtains fl ino where "files s f = Some fl" "inodes s (f_ino fl) = Some ino"
proof -
  have v: "vfs_inv iext dext s" using assms(1) by (simp add: fd_inv_def)
  obtain fl where fl: "files s f = Some fl"
    using file_dead [OF v, of f] fd_inv_count_pos [OF assms] by auto
  then obtain ino where "inodes s (f_ino fl) = Some ino" using v unfolding vfs_inv_def by blast
  then show thesis using fl that by blast
qed

text \<open>The part of \<open>open_with_vnode\<close> after \<open>file_alloc\<close>, with the descriptor lock held.\<close>

lemma open_flags_wp:
  assumes inv: "fd_inv iext dext ext (ks s)" and tab: "fdtab (ctx (ks s)) (nat fd) = Some (f, b)"
    and lock: "fdlock (ctx (ks s))" and f: "files (ks s) f = Some fl" and i: "inodes (ks s) (f_ino fl) = Some ino"
  shows "wp (do { s3 \<leftarrow> seek_append f flags (set_file f (fl\<lparr>f_seek := 0, f_flags := flags\<rparr>) s);
       s4 \<leftarrow> set_cloexec fd cx s3; unlock_sys s4 })
     (\<lambda>s'. fd_inv iext dext ext (ks s') \<and> ctx_frame ((ctx (ks s))\<lparr>fdlock := False\<rparr>) (ctx (ks s')) \<and> cr s' = cr s \<and>
       fdtab (ctx (ks s')) = (fdtab (ctx (ks s)))(nat fd \<mapsto> (f, cx)) \<and>
       inodes (ks s') = inodes (ks s) \<and>
       files (ks s') f = Some (fl\<lparr>f_seek := if flags AND O_APPEND \<noteq> 0 then i_size ino else 0, f_flags := flags\<rparr>))"
proof -
  let ?fl = "fl\<lparr>f_seek := 0, f_flags := flags\<rparr>"
  let ?fl' = "fl\<lparr>f_seek := if flags AND O_APPEND \<noteq> 0 then i_size ino else 0, f_flags := flags\<rparr>"
  have eq: "seek_append f flags (set_file f ?fl s) = Some (set_file f ?fl' s)"
    using f i by (cases fl) (simp add: seek_append_def file_inode_def set_seek_def, simp add: set_file_def)
  let ?s = "set_file f ?fl' s"
  have "fd_inv iext dext ext (ks ?s)" by (rule set_file_inv [OF inv f]) simp_all
  moreover have "fdtab (ctx (ks ?s)) (nat fd) = Some (f, b)" using tab by simp
  ultimately have "wp (set_cloexec fd cx ?s) (\<lambda>s'. fd_inv iext dext ext (ks s') \<and> sys_frame ?s s' \<and>
      fdtab (ctx (ks s')) = (fdtab (ctx (ks ?s)))(nat fd \<mapsto> (f, cx)) \<and> files (ks s') f = Some ?fl' \<and> inodes (ks s') = inodes (ks s))"
    by (rule wp_mono [OF set_cloexec_files [OF set_cloexec_wp]]) simp
  then show ?thesis
    using lock by (auto simp: eq wp_simps unlock_sys_def sys_frame_def ctx_frame_def elim!: wp_mono)
qed

lemma open_with_vnode_wp:
  assumes inv: "sys_inv iext dext ext s" and f: "0 < fcount (ks s) f"
  shows "wp (open_with_vnode E f flags s) (\<lambda>(r, s'). sys_inv iext dext ext s' \<and>
     (r = - errno s \<and> fdtab (ctx (ks s')) = fdtab (ctx (ks s)) \<or>
      0 \<le> r \<and> fdtab (ctx (ks s)) (nat r) = None \<and> (\<forall>fd < nat r. fdtab (ctx (ks s)) fd \<noteq> None) \<and>
        fdtab (ctx (ks s')) = (fdtab (ctx (ks s)))(nat r \<mapsto> (f, flags AND O_CLOEXEC \<noteq> 0)) \<and>
        (\<exists>fl' ino. files (ks s') f = Some fl' \<and> inodes (ks s') (f_ino fl') = Some ino \<and> f_flags fl' = flags \<and>
           f_seek fl' = (if flags AND O_APPEND \<noteq> 0 then i_size ino else 0))))" (is "wp _ ?Q")
  unfolding open_with_vnode_def
proof (rule wp_bindI [OF file_alloc_wp [OF sys_invD(1,2) [OF inv] f]], goal_cases)
  case (1 x)
  obtain r k where x: "x = (r, k)" by (cases x)
  let ?s = "s\<lparr>ks := k\<rparr>"
  have k: "fd_inv iext dext ext k" "cwd_lock (ctx k) = cwd_lock (ctx (ks s))" "cwd (ctx k) = cwd (ctx (ks s))"
    and r: "if r < 0 then \<not> fdlock (ctx k) \<and> fdtab (ctx k) = fdtab (ctx (ks s))
      else fdlock (ctx k) \<and> fdtab (ctx (ks s)) (nat r) = None \<and> (\<forall>fd<nat r. fdtab (ctx (ks s)) fd \<noteq> None) \<and>
        fdtab (ctx k) = (fdtab (ctx (ks s)))(nat r \<mapsto> (f, False))"
    using 1 x by (simp_all split: if_splits)
  show ?case
  proof (cases "r < 0")
    case True
    then show ?thesis using r k inv by (simp add: x wp_simps sys_inv_def unlocked_def)
  next
    case False
    have tab: "fdtab (ctx (ks ?s)) (nat r) = Some (f, False)" using r False by simp
    obtain fl ino where fl: "files k f = Some fl" "inodes k (f_ino fl) = Some ino"
      using fd_inv_file [OF k(1), of "nat r" f False] tab by auto
    show ?thesis
      using open_flags_wp [of iext dext ext ?s r f False fl ino flags "flags AND O_CLOEXEC \<noteq> 0"] k tab r False fl inv
      by (auto simp: x wp_simps sys_inv_def unlocked_def ctx_frame_def elim!: wp_mono)
  qed
qed

section \<open>dup2\<close>

text \<open>What \<open>dup2\<close> has done when it has looked up the old descriptor, under the lock.\<close>

lemma dup_locked_lookup:
  assumes inv: "sys_inv iext dext ext s" and old: "fd_lookup (ctx (ks s)) oldfd = Some (f, b)"
  obtains k0 k where "fd_inv iext dext (held f ext) k" "ctx k = (ctx (ks s))\<lparr>fdlock := True\<rparr>"
    "lock_fds (ks s) = Some k0" "get_file_description_unlocked oldfd k0 = Some (Inr f, k)"
proof -
  let ?k = "(ks s)\<lparr>ctx := (ctx (ks s))\<lparr>fdlock := True\<rparr>\<rparr>"
  have "fd_inv iext dext ext ?k" using sys_invD(1) [OF inv] by simp
  moreover have "lock_fds (ks s) = Some ?k" using sys_invD(2) [OF inv] by (simp add: lock_fds_def spin_lock_fd_def)
  ultimately show thesis
    using get_file_description_unlocked_wp [of iext dext ext ?k oldfd] old that by (auto simp: wp_iff held_def)
qed

section \<open>Properties\<close>

definition demo_few :: sys where
  "demo_few = demo_sys\<lparr>ks := (ks demo_sys)\<lparr>nofile_cur := 0\<rparr>\<rparr>"

lemma demo_few_inv: "sys_inv (\<lambda>_. 0) (\<lambda>_. 0) (\<lambda>_. 0) demo_few" "errno demo_few = 0"
  "file_alloc (se_k demo_senv) 1 (ks demo_few) = Some (- EBADF, ks demo_few)"
proof -
  have "fd_inv iext dext ext (k\<lparr>nofile_cur := n\<rparr>) = fd_inv iext dext ext k" for iext dext ext n and k :: kst
    by (simp add: fd_inv_def vfs_inv_def fcount_def ino_users_def dentry_users_def dcount_def)
  then show "sys_inv (\<lambda>_. 0) (\<lambda>_. 0) (\<lambda>_. 0) demo_few"
    using demo_sys_inv by (simp add: sys_inv_def demo_few_def unlocked_def)
qed (simp_all add: demo_few_def demo_sys_def file_alloc_def alloc_fd_def)

lemma demo_files: "0 < fcount (ks demo_sys) 1" "0 < fcount (ks demo_few) 1"
  by (simp_all add: fcount_def demo_few_def demo_sys_def demo_kst_def demo_file_def)





text \<open>
  C38. \<open>dup2\<close> of an open descriptor to the number right behind the table (the test is \<open>newfd > file_desc_entries\<close>)
  does not enlarge it, and accesses the array one element behind its end.
\<close>

theorem dup2_behind_table:
  assumes "sys_inv iext dext ext s" "fd_lookup (ctx (ks s)) oldfd = Some (f, b)"
  shows "sys_dup2 E oldfd (int (file_desc_entries (ctx (ks s)))) s = None"
proof -
  let ?n = "file_desc_entries (ctx (ks s))"
  obtain k0 k where k: "fd_inv iext dext (held f ext) k" "ctx k = (ctx (ks s))\<lparr>fdlock := True\<rparr>"
    "lock_fds (ks s) = Some k0" "get_file_description_unlocked oldfd k0 = Some (Inr f, k)"
    using dup_locked_lookup [OF assms] .
  have old: "0 \<le> oldfd" "oldfd \<noteq> int ?n"
    using assms(2) by (auto simp: fd_lookup_def dest: fdtab_bound split: if_splits)
  have "length (file_desc (ctx k)) = ?n" using k(1,2) by (simp add: fd_inv_def ctx_wf_def)
  then have "dup_into oldfd (int ?n) False (s\<lparr>ks := k\<rparr>) = None" by (simp add: dup_into_def array_get_def)
  then show ?thesis using k old by (simp add: sys_dup2_def dup_locked_def)
qed

theorem dup2_behind_table_witness: "sys_dup2 demo_senv 0 64 demo_sys = None"
  using dup2_behind_table [OF demo_sys_inv, of 0 1 False demo_senv]
  by (simp add: demo_sys_ctx fd_lookup_def demo_fdtab) (simp add: demo_ctx_def)

text \<open>
  C39. \<open>dup2\<close> of a descriptor to itself returns it, as it should, and leaves the table as it was; but the reference taken to
  look the file up is never dropped, so the file description is not freed when its last descriptor is closed.
\<close>

theorem dup2_same_leaks:
  assumes "sys_inv iext dext ext s" "fd_lookup (ctx (ks s)) fd = Some (f, b)"
  shows "\<exists>s'. sys_dup2 E fd fd s = Some (fd, s') \<and> ctx (ks s') = ctx (ks s) \<and>
     fcount (ks s') f = fcount (ks s) f + 1 \<and> sys_inv iext dext (held f ext) s'"
proof -
  obtain k0 k where k: "fd_inv iext dext (held f ext) k" "ctx k = (ctx (ks s))\<lparr>fdlock := True\<rparr>"
    "lock_fds (ks s) = Some k0" "get_file_description_unlocked fd k0 = Some (Inr f, k)"
    using dup_locked_lookup [OF assms] .
  have fd: "0 \<le> fd" "\<not> file_desc_entries (ctx (ks s)) < nat fd"
    using assms(2) by (auto simp: fd_lookup_def dest!: fdtab_bound split: if_splits)
  have c: "(ctx (ks s))\<lparr>fdlock := False\<rparr> = ctx (ks s)" using sys_invD(2) [OF assms(1)] by simp
  let ?s = "s\<lparr>ks := k\<lparr>ctx := ctx (ks s)\<rparr>\<rparr>"
  have eq: "sys_dup2 E fd fd s = Some (fd, ?s)"
    using k(2-4) fd c by (simp add: sys_dup2_def dup_locked_def unlock_sys_def unlock_fds_def spin_unlock_fd_def)
  have "fd_inv iext dext (held f ext) (k\<lparr>ctx := (ctx k)\<lparr>fdlock := False\<rparr>\<rparr>)" using k(1) by simp
  then have "fd_inv iext dext (held f ext) (ks ?s)" using k(2) c by simp
  moreover from this have "fcount (ks ?s) f = fcount (ks s) f + 1"
    using sys_invD(1) [OF assms(1)] by (simp add: fd_inv_def held_def)
  ultimately show ?thesis using eq assms(1) by (simp add: sys_inv_def unlocked_def)
qed

theorem dup2_same_leaks_witness:
  "\<exists>s'. sys_dup2 demo_senv 1 1 demo_sys = Some (1, s') \<and> fcount (ks s') 1 = fcount (ks demo_sys) 1 + 1"
  using dup2_same_leaks [OF demo_sys_inv, of 1 1 True demo_senv]
  by (auto simp: demo_sys_ctx fd_lookup_def demo_fdtab)

end
