(* ===== verification/File_Io.thy ===== *)
theory File_Io
  imports Fd_Errors
begin

text \<open>
  Reading and writing a tmpfs file through system calls: the descriptor layer of \<open>file.cpp\<close>, the VFS operations of
  \<open>vfs.cpp\<close>, the page cache of \<open>inode.cpp\<close> and the file system \<open>tmpfs.cpp\<close> put together.
\<close>

unbundle bit_operations_syntax

section \<open>A call on a descriptor, step by step\<close>

lemma get_fd_run:
  assumes inv: "sys_inv iext dext ext s" and fd: "fd_lookup (ctx (ks s)) fd = Some (f, b)"
    and f: "files (ks s) f = Some fl"
  shows "get_fd fd s = Some (Some f, set_file f (fl\<lparr>f_refcount := f_refcount fl + 1\<rparr>) s)"
proof -
  have wf: "ctx_wf (ctx (ks s))" "fds_filled (ctx (ks s))" and lock: "\<not> fdlock (ctx (ks s))"
    using sys_invD [OF inv] by auto
  let ?c = "(ctx (ks s))\<lparr>fdlock := True\<rparr>"
  have c: "ctx_wf ?c" "fds_filled ?c" "fd_lookup ?c fd = Some (f, b)" using wf fd by (simp_all add: ctx_wf_def fds_filled_def)
  note lk = fd_lookup_Some [OF c(1,3)]
  have "validate_fd_number fd ?c = Some True" using validate_fd_number_eq [OF c(1,2)] c(3) by simp
  then show ?thesis
    using lk f lock
    by (cases s; cases "ks s")
      (simp add: get_fd_def get_file_description_def get_file_description_unlocked_def lock_fds_def spin_lock_fd_def
        unlock_fds_def spin_unlock_fd_def fd_get_def set_file_def)
qed

lemma with_fd_run:
  assumes "sys_inv iext dext ext s" "fd_lookup (ctx (ks s)) fd = Some (f, b)" "files (ks s) f = Some fl"
    and body: "body f (set_file f (fl\<lparr>f_refcount := f_refcount fl + 1\<rparr>) s) = Some (r, s2)"
      "files (ks s2) f = Some fl2" "1 < f_refcount fl2"
  shows "with_fd fd body s = Some (r, set_file f (fl2\<lparr>f_refcount := f_refcount fl2 - 1\<rparr>) s2)"
  using get_fd_run [OF assms(1-3)] body by (simp add: with_fd_def put_fd_def fd_put_def set_file_def)

section \<open>The operations of the VFS on a tmpfs file\<close>

definition tmpfs_file :: "sys \<Rightarrow> nat \<Rightarrow> file \<Rightarrow> inode \<Rightarrow> bool" where
  "tmpfs_file s f fl ino \<longleftrightarrow> files (ks s) f = Some fl \<and> inodes (ks s) (f_ino fl) = Some ino \<and> tmpfs_wf ino \<and>
     i_rwlock ino = 0 \<and> inode_is_cacheable ino \<and> \<not> S_ISDIR (i_mode ino) \<and> i_fops_writepage ino"

text \<open>What the VFS operations leave alone.\<close>

definition io_frame :: "sys \<Rightarrow> sys \<Rightarrow> bool" where
  "io_frame s s' \<longleftrightarrow> ctx (ks s') = ctx (ks s) \<and> cr s' = cr s \<and> files (ks s') = files (ks s) \<and>
     (\<forall>iext dext ext. fd_inv iext dext ext (ks s) \<longrightarrow> fd_inv iext dext ext (ks s'))"

lemma set_dirty_simps [simp]:
  "ctx (ks (set_dirty i x s)) = ctx (ks s)" "files (ks (set_dirty i x s)) = files (ks s)" "cr (set_dirty i x s) = cr s"
  "um (set_dirty i x s) = um s" "errno (set_dirty i x s) = errno s"
  "inodes (ks (set_dirty i x s)) = (inodes (ks s))(i \<mapsto> fst x)"
  by (simp_all add: set_dirty_def set_inode_def log_sys_def log_event_def split: prod.split)

lemma io_frame_set_dirty:
  assumes "io_frame s s'" "inodes (ks s') i = Some ino" "i_refc (fst x) = i_refc ino"
  shows "io_frame s (set_dirty i x s')"
  using assms set_dirty_inv [OF _ assms(2,3)] by (simp add: io_frame_def)

lemma io_frame_refl [simp]: "io_frame s s"
  by (simp add: io_frame_def)

lemma io_frame_sys [simp]: "io_frame s (s'\<lparr>errno := e\<rparr>) = io_frame s s'" "io_frame s (s'\<lparr>um := m\<rparr>) = io_frame s s'"
  by (simp_all add: io_frame_def)

lemma mark_dirty_tmpfs:
  assumes "x = inode_mark_dirty (ino\<lparr>i_mtime := t\<rparr>) \<or> x = inode_mark_dirty (ino\<lparr>i_atime := t\<rparr>)"
  shows "tmpfs_wf (fst x) = tmpfs_wf ino" "tmpfs_contents (fst x) = tmpfs_contents ino" "i_rwlock (fst x) = i_rwlock ino"
    "inode_is_cacheable (fst x) = inode_is_cacheable ino" "i_mode (fst x) = i_mode ino"
    "i_fops_writepage (fst x) = i_fops_writepage ino" "i_refc (fst x) = i_refc ino" "i_size (fst x) = i_size ino"
proof -
  obtain a m fl where x: "fst x = ino\<lparr>i_atime := a, i_mtime := m, i_flags := fl\<rparr>"
    using assms mark_dirty_frame [of "ino\<lparr>i_mtime := t\<rparr>"] mark_dirty_frame [of "ino\<lparr>i_atime := t\<rparr>"]
    by (cases ino) auto
  have eq: "byte_at zero_pages (fst x) = byte_at zero_pages ino" "i_len (fst x) = i_len ino"
    using x by (simp_all add: byte_at_def i_len_def fun_eq_iff)
  then show "tmpfs_wf (fst x) = tmpfs_wf ino" "tmpfs_contents (fst x) = tmpfs_contents ino"
    using x by (simp_all add: tmpfs_wf_def cache_wf_def pages_wf_def tmpfs_contents_def)
  show "i_rwlock (fst x) = i_rwlock ino" "i_mode (fst x) = i_mode ino" "i_fops_writepage (fst x) = i_fops_writepage ino"
      "i_refc (fst x) = i_refc ino" "i_size (fst x) = i_size ino"
    using x by simp_all
  show "inode_is_cacheable (fst x) = inode_is_cacheable ino"
    using assms by (auto simp: inode_is_cacheable_def [of "ino\<lparr>i_mtime := t\<rparr>"] inode_is_cacheable_def [of "ino\<lparr>i_atime := t\<rparr>"]
        inode_is_cacheable_def [of ino])
qed

lemmas mtime_tmpfs = mark_dirty_tmpfs [OF disjI1 [OF inode_update_mtime_def]]
lemmas atime_tmpfs = mark_dirty_tmpfs [OF disjI2 [OF inode_update_atime_def]]

lemma tmpfs_penv_errno: "(tmpfs_penv e)\<lparr>pe_errno := e'\<rparr> = tmpfs_penv e'"
  by (simp add: tmpfs_penv_def)

lemma sint_small: "n < 2 ^ 63 \<Longrightarrow> sint (of_nat n :: u64) = int n"
  by (simp add: signed_of_nat signed_take_bit_int_eq_self)

lemma clamp_small: "n < 2 ^ 63 \<Longrightarrow> clamp_length (of_nat n) = of_nat n"
  by (simp add: clamp_length_def is_invalid_length_def sint_small del: of_nat_unat)

lemma tmpfs_write_vfs:
  assumes tf: "tmpfs_file s f fl ino" and E: "se_p E = tmpfs_penv e"
    and buf: "user_bytes (um s) buf bs" and off: "unat off + length bs < 2 ^ 63"
  shows "wp (write_vfs E off (of_nat (length bs)) buf f s) (\<lambda>(n, s'). n = int (length bs) \<and> io_frame s s' \<and> um s' = um s \<and>
    (\<exists>ino'. tmpfs_file s' f fl ino' \<and> tmpfs_contents ino' = bytes_write (tmpfs_contents ino) (unat off) bs))"
proof -
  note f = tf [unfolded tmpfs_file_def]
  have len: "length bs < 2 ^ 63" using off by simp
  have wf: "cache_wf zero_pages ino" "i_fops_readpage ino" "i_rwlock ino = 0" using f by (auto simp: tmpfs_wf_def)
  obtain e' ino1 where w: "file_write_cache (tmpfs_penv (errno s)) (um s) buf (length bs) (unat off) ino =
      Some (int (length bs), e', ino1)" "written zero_pages ino (unat off) bs ino1"
    using tmpfs.file_write_cache_wp [OF wf buf off, of "errno s"] by (auto simp: wp_iff)
  let ?s1 = "(set_dirty (f_ino fl) (ino1, cache_dirtied ino ino1) s)\<lparr>errno := e'\<rparr>"
  let ?x = "inode_update_mtime (se_now E) ino1"
  let ?s2 = "set_dirty (f_ino fl) ?x ?s1"
  have "write_vfs E off (of_nat (length bs)) buf f s = do_actual_write E off (of_nat (length bs)) buf f s"
    using f by (simp add: write_vfs_def file_inode_def clamp_small [OF len])
  also have "\<dots> = Some (int (length bs), ?s2)"
    using f w(1) len by (simp add: do_actual_write_def file_inode_def E tmpfs_penv_errno unat_word_of_nat)
  finally have run: "write_vfs E off (of_nat (length bs)) buf f s = Some (int (length bs), ?s2)" .
  note d = mtime_tmpfs [of "se_now E" ino1]
  have one: "i_refc ino1 = i_refc ino" "i_mode ino1 = i_mode ino" "i_fops_writepage ino1 = i_fops_writepage ino"
      "i_rwlock ino1 = 0" "inode_is_cacheable ino1 = inode_is_cacheable ino"
    using w(2) wf(3) by (auto simp: written_def)
  have "io_frame s ?s1" using f one(1) by (simp add: io_frame_set_dirty)
  then have "io_frame s ?s2" using d(7) by (intro io_frame_set_dirty [where ino = ino1]) auto
  moreover have "tmpfs_file ?s2 f fl (fst ?x)"
    using f one d written_wf [OF w(2) wf(2)] by (simp add: tmpfs_file_def)
  moreover have "tmpfs_contents (fst ?x) = bytes_write (tmpfs_contents ino) (unat off) bs"
    using written_contents [OF w(2) wf(1)] d(2) by simp
  ultimately show ?thesis unfolding run wp_Some by auto
qed

lemma tmpfs_read_vfs:
  assumes tf: "tmpfs_file s f fl ino" and E: "se_p E = tmpfs_penv e"
    and buf: "user_mapped (um s) buf len" and len: "len < 2 ^ 63"
    and bs: "bs = take len (drop (unat off) (tmpfs_contents ino))"
  shows "wp (read_vfs E off (of_nat len) buf f s) (\<lambda>(n, s'). n = int (length bs) \<and> io_frame s s' \<and>
    um s' = user_write (um s) buf bs \<and> (\<exists>ino'. tmpfs_file s' f fl ino' \<and> tmpfs_contents ino' = tmpfs_contents ino))"
proof -
  note f = tf [unfolded tmpfs_file_def]
  have wf: "cache_wf zero_pages ino" "i_fops_readpage ino" using f by (auto simp: tmpfs_wf_def)
  have n: "length bs = min len (i_len ino - unat off)" using bs by simp
  have m: "map (byte_at zero_pages ino) [unat off..<unat off + length bs] = bs"
    using contents_slice [of ino "unat off" len] n bs by simp
  obtain e' ino1 where w: "file_read_cache (tmpfs_penv (errno s)) buf len (unat off) (um s) ino =
      Some (int (length bs), e', user_write (um s) buf bs, ino1)" "read_frame zero_pages ino ino1"
    using tmpfs.file_read_cache_wp [OF wf buf n, of "errno s"] unfolding m by (auto simp: wp_iff)
  let ?s1 = "(set_inode (f_ino fl) ino1 s)\<lparr>um := user_write (um s) buf bs, errno := e'\<rparr>"
  have one: "i_refc ino1 = i_refc ino" "i_mode ino1 = i_mode ino" "i_fops_writepage ino1 = i_fops_writepage ino"
      "i_rwlock ino1 = 0" "inode_is_cacheable ino1 = inode_is_cacheable ino"
    using w(2) f by (auto simp: read_frame_def inode_is_cacheable_def)
  have 1: "ctx (ks ?s1) = ctx (ks s)" "inodes (ks ?s1) = (inodes (ks s))(f_ino fl \<mapsto> ino1)" "files (ks ?s1) = files (ks s)"
    by (simp_all add: set_inode_def)
  have "io_frame s (set_inode (f_ino fl) ino1 s)"
    using f one(1) set_inode_inv [of _ _ _ s "f_ino fl" ino ino1] by (auto simp: io_frame_def set_inode_def)
  then have fr: "io_frame s ?s1" by simp
  have t1: "tmpfs_file ?s1 f fl ino1" "tmpfs_contents ino1 = tmpfs_contents ino"
    using f one 1 read_frame_contents [OF w(2)] wf(2) by (simp_all add: tmpfs_file_def)
  let ?x = "inode_update_atime (se_now E) ino1"
  note d = atime_tmpfs [of "se_now E" ino1]
  have run: "do_actual_read E off (of_nat len) buf f s = Some (int (length bs), ?s1)"
    using f w(1) len by (simp add: do_actual_read_def file_inode_def E tmpfs_penv_errno unat_word_of_nat)
  have "read_vfs E off (of_nat len) buf f s = Some (int (length bs),
      if f_flags fl AND O_NOATIME = 0 then set_dirty (f_ino fl) ?x ?s1 else ?s1)"
    using f wf(2) run t1(1) by (simp add: read_vfs_def file_inode_def clamp_small [OF len] tmpfs_file_def)
  moreover have "io_frame s (set_dirty (f_ino fl) ?x ?s1)"
    using fr d(7) 1 by (intro io_frame_set_dirty [where ino = ino1]) auto
  moreover have "tmpfs_file (set_dirty (f_ino fl) ?x ?s1) f fl (fst ?x)" using t1 d by (simp add: tmpfs_file_def)
  ultimately show ?thesis using fr t1 d(2) by (auto simp: wp_simps)
qed

section \<open>The system calls\<close>

text \<open>The description at the position \<open>p\<close>, with nothing else changed.\<close>

definition at_pos :: "file \<Rightarrow> u64 \<Rightarrow> file" where
  "at_pos fl p = fl\<lparr>f_seek := p\<rparr>"

lemma tmpfs_file_set_file:
  "tmpfs_file s f fl ino \<Longrightarrow> f_ino fl' = f_ino fl \<Longrightarrow> tmpfs_file (set_file f fl' s) f fl' ino"
  by (simp add: tmpfs_file_def)

lemma add_seek_run:
  "files (ks s) f = Some fl \<Longrightarrow> add_seek f (int n) s = 
    Some (f_seek fl + of_nat n, set_file f (at_pos fl (f_seek fl + of_nat n)) s)"
  by (simp add: add_seek_def at_pos_def Let_def)

text \<open>A call whose body, run with the reference to the description it holds, works on the inode and then moves the position
  to \<open>k\<close>: the call has the same result, and its reference is dropped.\<close>

lemma with_fd_io:
  assumes inv: "sys_inv iext dext ext s" and fd: "fd_lookup (ctx (ks s)) fd = Some (f, b)"
    and tf: "tmpfs_file s f fl ino"
    and body: "\<And>s1. tmpfs_file s1 f (fl\<lparr>f_refcount := f_refcount fl + 1\<rparr>) ino \<Longrightarrow> um s1 = um s \<Longrightarrow>
      \<exists>s2 ino'. body f s1 = Some (r, set_file f (at_pos (fl\<lparr>f_refcount := f_refcount fl + 1\<rparr>) k) s2) \<and> io_frame s1 s2 \<and>
        um s2 = m \<and> tmpfs_file s2 f (fl\<lparr>f_refcount := f_refcount fl + 1\<rparr>) ino' \<and> P ino'"
  shows "\<exists>s' ino'. with_fd fd body s = Some (r, s') \<and> sys_inv iext dext ext s' \<and> ctx (ks s') = ctx (ks s) \<and> um s' = m \<and>
     tmpfs_file s' f (at_pos fl k) ino' \<and> P ino'"
proof -
  let ?fl = "fl\<lparr>f_refcount := f_refcount fl + 1\<rparr>"
  let ?s1 = "set_file f ?fl s"
  have f: "files (ks s) f = Some fl" using tf by (simp add: tmpfs_file_def)
  have pos: "0 < f_refcount fl" using sys_invD(1) [OF inv] f by (auto simp: fd_inv_def vfs_inv_def)
  have inv1: "fd_inv iext dext (held f ext) (ks ?s1)"
    using get_fd_wp [OF sys_invD(1,2) [OF inv], of fd] fd by (simp add: get_fd_run [OF inv fd f] wp_simps)
  have "tmpfs_file ?s1 f ?fl ino" by (rule tmpfs_file_set_file [OF tf]) simp
  then obtain s2 ino' where s2: "body f ?s1 = Some (r, set_file f (at_pos ?fl k) s2)" "io_frame ?s1 s2" "um s2 = m"
      "tmpfs_file s2 f ?fl ino'" "P ino'"
    using body [of ?s1] by auto
  have f2: "files (ks s2) f = Some ?fl" using s2(4) by (simp add: tmpfs_file_def)
  have inv2: "fd_inv iext dext (held f ext) (ks (set_file f (at_pos ?fl k) s2))"
    using inv1 s2(2) by (intro set_file_inv [OF _ f2]) (auto simp: io_frame_def at_pos_def)
  let ?s3 = "set_file f (at_pos fl k) s2"
  have eq: "set_file f ((at_pos ?fl k)\<lparr>f_refcount := f_refcount (at_pos ?fl k) - 1\<rparr>) (set_file f (at_pos ?fl k) s2) = ?s3"
    by (cases fl) (simp add: at_pos_def set_file_def)
  have run: "with_fd fd body s = Some (r, ?s3)"
    using with_fd_run [where body = body, OF inv fd f s2(1), of "at_pos ?fl k"] pos unfolding eq by (simp add: at_pos_def)
  have "put_fd f (set_file f (at_pos ?fl k) s2) = Some ?s3"
    using pos eq by (simp add: put_fd_def fd_put_def set_file_def) (simp add: at_pos_def)
  then have "fd_inv iext dext ext (ks ?s3)" using put_fd_wp [OF inv2] by (auto simp: wp_iff)
  then have "sys_inv iext dext ext ?s3" using inv s2(2) by (simp add: sys_inv_def unlocked_def io_frame_def)
  moreover have "tmpfs_file ?s3 f (at_pos fl k) ino'" by (rule tmpfs_file_set_file [OF s2(4)]) (simp add: at_pos_def)
  moreover have "ctx (ks ?s3) = ctx (ks s)" using s2(2) by (simp add: io_frame_def)
  ultimately show ?thesis using run s2(3,5) by (intro exI [of _ ?s3] exI [of _ ino']) simp
qed

text \<open>A body may also move the position before it works on the inode, as \<open>write\<close> does for \<open>O_APPEND\<close>.\<close>

lemma io_frame_pos:
  assumes "io_frame (set_file f (at_pos fl p) s1) s2" "files (ks s1) f = Some fl"
  shows "io_frame s1 (set_file f fl s2)"
proof -
  have f2: "files (ks s2) f = Some (at_pos fl p)" "files (ks s2) = (files (ks s1))(f \<mapsto> at_pos fl p)"
    using assms(1) by (auto simp: io_frame_def)
  have "fd_inv iext dext ext (ks (set_file f fl s2))" if "fd_inv iext dext ext (ks s1)" for iext dext ext
  proof -
    have "fd_inv iext dext ext (ks (set_file f (at_pos fl p) s1))"
      by (rule set_file_inv [OF that assms(2)]) (simp_all add: at_pos_def)
    then have "fd_inv iext dext ext (ks s2)" using assms(1) unfolding io_frame_def by blast
    then show ?thesis by (rule set_file_inv [OF _ f2(1)]) (simp_all add: at_pos_def)
  qed
  then show ?thesis using assms f2(2) by (simp add: io_frame_def fun_upd_idem)
qed

lemma sys_write_tmpfs:
  assumes inv: "sys_inv iext dext ext s" and fd: "fd_lookup (ctx (ks s)) fd = Some (f, b)" and tf: "tmpfs_file s f fl ino"
    and E: "se_p E = tmpfs_penv e" and acc: "fd_may_access fl FILE_ACCESS_WRITE"
    and p: "p = (if f_flags fl AND O_APPEND \<noteq> 0 then i_size ino else f_seek fl)"
    and buf: "user_bytes (um s) buf bs" "unat p + length bs < 2 ^ 63"
  shows "\<exists>s' ino'. sys_write E fd buf (of_nat (length bs)) s = Some (int (length bs), s') \<and> sys_inv iext dext ext s' \<and>
     ctx (ks s') = ctx (ks s) \<and> um s' = um s \<and> tmpfs_file s' f (at_pos fl (p + of_nat (length bs))) ino' \<and>
     tmpfs_contents ino' = bytes_write (tmpfs_contents ino) (unat p) bs"
  unfolding sys_write_def
proof (rule with_fd_io [OF inv fd tf], goal_cases)
  case (1 s1)
  let ?fl = "fl\<lparr>f_refcount := f_refcount fl + 1\<rparr>"
  let ?s0 = "set_file f (at_pos ?fl p) s1"
  have f: "files (ks s1) f = Some ?fl" "inodes (ks s1) (f_ino fl) = Some ino" using 1 by (simp_all add: tmpfs_file_def)
  have acc': "fd_may_access ?fl FILE_ACCESS_WRITE" using acc(1) by (simp add: fd_may_access_def)
  have same: "set_file f ?fl s1 = s1" using f(1) by (cases s1; cases "ks s1") (simp add: set_file_def fun_upd_idem)
  have s0: "seek_append f (f_flags fl) s1 = Some ?s0"
    using f same by (cases fl) (auto simp: seek_append_def file_inode_def set_seek_def at_pos_def p)
  have tf0: "tmpfs_file ?s0 f (at_pos ?fl p) ino" by (rule tmpfs_file_set_file [OF 1(1)]) (simp add: at_pos_def)
  obtain s2 ino' where w: "write_vfs E p (of_nat (length bs)) buf f ?s0 = Some (int (length bs), s2)" "io_frame ?s0 s2"
      "um s2 = um s" "tmpfs_file s2 f (at_pos ?fl p) ino'" "tmpfs_contents ino' = bytes_write (tmpfs_contents ino) (unat p) bs"
    using tmpfs_write_vfs [OF tf0 E, of buf bs p] buf 1(2) by (auto simp: wp_iff)
  have f2: "files (ks s2) f = Some (at_pos ?fl p)" using w(4) by (simp add: tmpfs_file_def)
  have "set_file f (at_pos (at_pos ?fl p) (p + of_nat (length bs))) s2 =
      set_file f (at_pos ?fl (p + of_nat (length bs))) (set_file f ?fl s2)"
    by (cases fl) (simp add: at_pos_def set_file_def)
  moreover have "f_seek (at_pos ?fl p) = p" by (simp add: at_pos_def)
  moreover have "tmpfs_file (set_file f ?fl s2) f ?fl ino'" by (rule tmpfs_file_set_file [OF w(4)]) (simp add: at_pos_def)
  ultimately show ?case
    using w acc' f s0 f2 io_frame_pos [OF w(2) f(1)]
    by (intro exI [of _ "set_file f ?fl s2"] exI [of _ ino']) (simp add: may_access_def add_seek_run)
qed

lemma sys_read_tmpfs:
  assumes inv: "sys_inv iext dext ext s" and fd: "fd_lookup (ctx (ks s)) fd = Some (f, b)" and tf: "tmpfs_file s f fl ino"
    and E: "se_p E = tmpfs_penv e" and acc: "fd_may_access fl FILE_ACCESS_READ"
    and buf: "user_mapped (um s) buf len" "len < 2 ^ 63" and bs: "bs = take len (drop (unat (f_seek fl)) (tmpfs_contents ino))"
  shows "\<exists>s' ino'. sys_read E fd buf (of_nat len) s = Some (int (length bs), s') \<and> sys_inv iext dext ext s' \<and>
     ctx (ks s') = ctx (ks s) \<and> um s' = user_write (um s) buf bs \<and> tmpfs_file s' f (at_pos fl (f_seek fl + of_nat (length bs))) ino' \<and>
     tmpfs_contents ino' = tmpfs_contents ino"
  unfolding sys_read_def
proof (rule with_fd_io [OF inv fd tf], goal_cases)
  case (1 s1)
  let ?fl = "fl\<lparr>f_refcount := f_refcount fl + 1\<rparr>"
  have f: "files (ks s1) f = Some ?fl" using 1 by (simp add: tmpfs_file_def)
  have acc': "fd_may_access ?fl FILE_ACCESS_READ" using acc by (simp add: fd_may_access_def)
  obtain s2 ino' where w: "read_vfs E (f_seek fl) (of_nat len) buf f s1 = Some (int (length bs), s2)" "io_frame s1 s2"
      "um s2 = user_write (um s) buf bs" "tmpfs_file s2 f ?fl ino'" "tmpfs_contents ino' = tmpfs_contents ino"
    using tmpfs_read_vfs [OF 1(1) E, of buf len bs "f_seek fl"] buf bs 1(2) by (auto simp: wp_iff)
  have "files (ks s2) f = Some ?fl" using w(4) by (simp add: tmpfs_file_def)
  then show ?case using w acc' f by (simp add: may_access_def add_seek_run) blast
qed

lemma sys_pread_tmpfs:
  assumes inv: "sys_inv iext dext ext s" and fd: "fd_lookup (ctx (ks s)) fd = Some (f, b)" and tf: "tmpfs_file s f fl ino"
    and E: "se_p E = tmpfs_penv e" and acc: "fd_may_access fl FILE_ACCESS_READ" and off: "off < 2 ^ 63"
    and buf: "user_mapped (um s) buf len" "len < 2 ^ 63" and bs: "bs = take len (drop off (tmpfs_contents ino))"
  shows "\<exists>s' ino'. sys_pread E fd buf (of_nat len) (int off) s = Some (int (length bs), s') \<and> sys_inv iext dext ext s' \<and>
     ctx (ks s') = ctx (ks s) \<and> um s' = user_write (um s) buf bs \<and> tmpfs_file s' f (at_pos fl (f_seek fl)) ino' \<and>
     tmpfs_contents ino' = tmpfs_contents ino"
  unfolding sys_pread_def
proof (rule with_fd_io [OF inv fd tf], goal_cases)
  case (1 s1)
  let ?fl = "fl\<lparr>f_refcount := f_refcount fl + 1\<rparr>"
  have f: "files (ks s1) f = Some ?fl" using 1 by (simp add: tmpfs_file_def)
  have acc': "fd_may_access ?fl FILE_ACCESS_READ" using acc by (simp add: fd_may_access_def)
  have o: "word_of_int (int off) = (of_nat off :: u64)" by simp
  obtain s2 ino' where w: "read_vfs E (of_nat off) (of_nat len) buf f s1 = Some (int (length bs), s2)" "io_frame s1 s2"
      "um s2 = user_write (um s) buf bs" "tmpfs_file s2 f ?fl ino'" "tmpfs_contents ino' = tmpfs_contents ino"
    using tmpfs_read_vfs [OF 1(1) E, of buf len bs "of_nat off"] buf bs 1(2) unat_word_of_nat [OF off] by (auto simp: wp_iff)
  have "set_file f (at_pos ?fl (f_seek fl)) s2 = s2"
    using w(4) by (cases s2; cases "ks s2"; cases fl) (simp add: tmpfs_file_def set_file_def at_pos_def fun_upd_idem)
  then show ?case using w acc' f by (intro exI [of _ s2] exI [of _ ino']) (simp add: may_access_def)
qed

section \<open>Properties\<close>

lemma demo_open_file: "tmpfs_file demo_sys 1 (demo_file 2 7 3) (demo_tmpfs\<lparr>i_refc := 1\<rparr>)"
    "fd_lookup (ctx (ks demo_sys)) 0 = Some (1, False)" "um demo_sys = demo_umem"
proof -
  have "tmpfs_wf (demo_tmpfs\<lparr>i_refc := 1\<rparr>)" "inode_is_cacheable (demo_tmpfs\<lparr>i_refc := 1\<rparr>)" "\<not> S_ISDIR (i_mode demo_tmpfs)"
      "i_fops_writepage demo_tmpfs" "f_ino (demo_file 2 7 3) = 7" "i_rwlock demo_tmpfs = 0"
    by (simp_all add: demo_tmpfs_def tmpfs_fops_def tmpfs_wf_def cache_wf_def pages_wf_def i_len_def align_up2_def
        PAGE_SIZE_def byte_at_def demo_inode_def inode_is_cacheable_def S_ISDIR_def S_ISREG_def S_IFMT_def demo_file_def)
  then show "tmpfs_file demo_sys 1 (demo_file 2 7 3) (demo_tmpfs\<lparr>i_refc := 1\<rparr>)"
    by (simp add: tmpfs_file_def demo_sys_def demo_kst_def)
qed (simp_all add: demo_sys_ctx fd_lookup_def demo_fdtab, simp add: demo_sys_def)

lemma demo_access: "fd_may_access (demo_file 2 7 3) FILE_ACCESS_WRITE" "fd_may_access (demo_file 2 7 3) FILE_ACCESS_READ"
    "f_flags (demo_file 2 7 3) AND O_APPEND = 0" "f_seek (demo_file 2 7 3) = 0" "se_p demo_senv = tmpfs_penv 0"
  by (simp_all add: demo_file_def demo_senv_def fd_may_access_def FILE_ACCESS_WRITE_def FILE_ACCESS_READ_def
      OPEN_FLAGS_ACCESS_MODE_def O_RDWR_def O_WRONLY_def O_RDONLY_def O_APPEND_def)

text \<open>
  C32. What a process writes to a tmpfs file it reads back. A \<open>write\<close> through a descriptor whose description is open for both
  returns the full length and moves the position behind what was written; a \<open>pread\<close> of the same range into mapped memory
  then returns the same bytes there and changes no other byte of the process's memory. Reference counts and locks are as they should be
  after both calls.
\<close>

theorem write_pread_back:
  assumes "sys_inv iext dext ext s" "fd_lookup (ctx (ks s)) fd = Some (f, b)" "tmpfs_file s f fl ino"
    "se_p E = tmpfs_penv e" "fd_may_access fl FILE_ACCESS_WRITE" "fd_may_access fl FILE_ACCESS_READ" "f_flags fl AND O_APPEND = 0"
    "user_bytes (um s) buf bs" "user_mapped (um s) dst (length bs)" "unat (f_seek fl) + length bs < 2 ^ 63"
  shows "\<exists>s1 s2. sys_write E fd buf (of_nat (length bs)) s = Some (int (length bs), s1) \<and>
     sys_pread E fd dst (of_nat (length bs)) (int (unat (f_seek fl))) s1 = Some (int (length bs), s2) \<and>
     um s2 = user_write (um s) dst bs \<and> sys_inv iext dext ext s2 \<and>
     map_option f_seek (files (ks s2) f) = Some (f_seek fl + of_nat (length bs))"
proof -
  have p: "f_seek fl = (if f_flags fl AND O_APPEND \<noteq> 0 then i_size ino else f_seek fl)" using assms(7) by simp
  obtain s1 ino1 where 1: "sys_write E fd buf (of_nat (length bs)) s = Some (int (length bs), s1)" "sys_inv iext dext ext s1"
      "ctx (ks s1) = ctx (ks s)" "um s1 = um s" "tmpfs_file s1 f (at_pos fl (f_seek fl + of_nat (length bs))) ino1"
      "tmpfs_contents ino1 = bytes_write (tmpfs_contents ino) (unat (f_seek fl)) bs"
    using sys_write_tmpfs [OF assms(1-5) p assms(8,10)] by blast
  have again: "take (length bs) (drop (unat (f_seek fl)) (tmpfs_contents ino1)) = bs"
    unfolding 1(6) by (simp add: bytes_write_def)
  have fd: "fd_lookup (ctx (ks s1)) fd = Some (f, b)" and len: "unat (f_seek fl) < 2 ^ 63" "length bs < 2 ^ 63"
    and acc: "fd_may_access (at_pos fl q) FILE_ACCESS_READ" and m: "user_mapped (um s1) dst (length bs)" for q
    using 1(3,4) assms(2,6,9,10) by (simp_all add: fd_may_access_def at_pos_def)
  show ?thesis
    using sys_pread_tmpfs [OF 1(2) fd 1(5) assms(4) acc len(1) m len(2) again [symmetric]] 1
    by (auto simp: tmpfs_file_def at_pos_def)
qed

theorem write_pread_back_witness:
  "\<exists>s1 s2. sys_write demo_senv 0 7 2 demo_sys = Some (2, s1) \<and> sys_pread demo_senv 0 20 2 0 s1 = Some (2, s2) \<and>
     um s2 = user_write demo_umem 20 [7, 8]"
proof -
  have "user_mapped (um demo_sys) 20 (length [7 :: u8, 8])" "user_bytes (um demo_sys) 7 [7, 8]"
    using user_mapped_sub [OF demo_umem_bytes(2), of 0 2] demo_umem_bytes by (simp_all add: demo_open_file(3) numeral_2_eq_2)
  from write_pread_back [OF demo_sys_inv demo_open_file(2,1) demo_access(5,1-3) this(2,1)]
  show ?thesis by (auto simp: demo_open_file(3) demo_access)
qed

text \<open>
  C33. A \<open>write\<close> to a tmpfs file opened with \<open>O_APPEND\<close> puts the bytes behind the end of the file, wherever the position was,
  and leaves the position at the new end.
\<close>

theorem write_appends:
  assumes "sys_inv iext dext ext s" "fd_lookup (ctx (ks s)) fd = Some (f, b)" "tmpfs_file s f fl ino"
    "se_p E = tmpfs_penv e" "fd_may_access fl FILE_ACCESS_WRITE" "f_flags fl AND O_APPEND \<noteq> 0"
    "user_bytes (um s) buf bs" "unat (i_size ino) + length bs < 2 ^ 63"
  shows "\<exists>s' fl' ino'. sys_write E fd buf (of_nat (length bs)) s = Some (int (length bs), s') \<and> sys_inv iext dext ext s' \<and>
     tmpfs_file s' f fl' ino' \<and> tmpfs_contents ino' = tmpfs_contents ino @ bs \<and> unat (f_seek fl') = length (tmpfs_contents ino')"
proof -
  have p: "i_size ino = (if f_flags fl AND O_APPEND \<noteq> 0 then i_size ino else f_seek fl)" using assms(6) by simp
  have cat: "bytes_write (tmpfs_contents ino) (unat (i_size ino)) bs = tmpfs_contents ino @ bs"
    using length_contents [of ino] by (simp add: bytes_write_def i_len_def)
  have "unat (i_size ino + of_nat (length bs)) = unat (i_size ino) + length bs"
    using assms(8) unat_word_of_nat [OF assms(8)] by (simp add: of_nat_add)
  then have pos: "unat (f_seek (at_pos fl (i_size ino + of_nat (length bs)))) = length (tmpfs_contents ino @ bs)"
    by (simp add: at_pos_def i_len_def)
  from sys_write_tmpfs [OF assms(1-5) p assms(7,8)] show ?thesis unfolding cat using pos by metis
qed

definition demo_append :: sys where
  "demo_append = set_file 1 ((demo_file 2 7 3)\<lparr>f_flags := O_RDWR OR O_APPEND\<rparr>) demo_sys"

lemma demo_append_state: "sys_inv (\<lambda>_. 0) (\<lambda>_. 0) (\<lambda>_. 0) demo_append"
    "tmpfs_file demo_append 1 ((demo_file 2 7 3)\<lparr>f_flags := O_RDWR OR O_APPEND\<rparr>) (demo_tmpfs\<lparr>i_refc := 1\<rparr>)"
    "fd_lookup (ctx (ks demo_append)) 0 = Some (1, False)" "user_bytes (um demo_append) 7 [7, 8]"
proof -
  have f: "files (ks demo_sys) 1 = Some (demo_file 2 7 3)" using demo_open_file(1) by (simp add: tmpfs_file_def)
  have "fd_inv (\<lambda>_. 0) (\<lambda>_. 0) (\<lambda>_. 0) (ks demo_append)"
    unfolding demo_append_def by (rule set_file_inv [OF sys_invD(1) [OF demo_sys_inv] f]) simp_all
  then show "sys_inv (\<lambda>_. 0) (\<lambda>_. 0) (\<lambda>_. 0) demo_append"
    using demo_sys_inv by (simp add: sys_inv_def demo_append_def unlocked_def)
  show "tmpfs_file demo_append 1 ((demo_file 2 7 3)\<lparr>f_flags := O_RDWR OR O_APPEND\<rparr>) (demo_tmpfs\<lparr>i_refc := 1\<rparr>)"
    unfolding demo_append_def by (rule tmpfs_file_set_file [OF demo_open_file(1)]) simp
qed (use demo_open_file demo_umem_bytes in \<open>simp_all add: demo_append_def\<close>)

theorem write_appends_witness:
  "\<exists>s' fl' ino'. sys_write demo_senv 0 7 2 demo_append = Some (2, s') \<and> tmpfs_file s' 1 fl' ino' \<and> tmpfs_contents ino' = [7, 8]"
proof -
  let ?fl = "(demo_file 2 7 3)\<lparr>f_flags := O_RDWR OR O_APPEND\<rparr>"
  have acc: "fd_may_access ?fl FILE_ACCESS_WRITE" "f_flags ?fl AND O_APPEND \<noteq> 0"
    by (simp_all add: fd_may_access_def FILE_ACCESS_WRITE_def FILE_ACCESS_READ_def
      OPEN_FLAGS_ACCESS_MODE_def O_RDWR_def O_WRONLY_def O_RDONLY_def O_APPEND_def)
  have c: "i_size (demo_tmpfs\<lparr>i_refc := 1\<rparr>) = 0" "tmpfs_contents (demo_tmpfs\<lparr>i_refc := 1\<rparr>) = []"
    by (simp_all add: demo_tmpfs_def tmpfs_fops_def tmpfs_contents_def i_len_def)
  from write_appends [OF demo_append_state(1,3,2) demo_access(5) acc demo_append_state(4), unfolded c]
  show ?thesis by auto
qed

section \<open>Buffers that are not mapped\<close>

lemma tmpfs_write_fault:
  assumes tf: "tmpfs_file s f fl ino" and E: "se_p E = tmpfs_penv e" and m: "um s buf = None" and len: "0 < len" "len < 2 ^ 63"
  shows "\<exists>s'. write_vfs E off (of_nat len) buf f s = Some (- EFAULT, s') \<and> io_frame s s' \<and> um s' = um s \<and> errno s' = errno s"
proof -
  note f = tf [unfolded tmpfs_file_def]
  have wf: "cache_wf zero_pages ino" "i_fops_readpage ino" "i_rwlock ino = 0" using f by (auto simp: tmpfs_wf_def)
  obtain ino1 where w: "file_write_cache (tmpfs_penv (errno s)) (um s) buf len (unat off) ino = Some (- EFAULT, errno s, ino1)"
      "\<exists>pages vs pins. ino1 = ino\<lparr>i_pages := pages, i_vmo_size := vs, i_page_pins := pins\<rparr>"
    using tmpfs.file_write_cache_fault [where m = "um s" and buffer = buf, OF wf m len(1), of "errno s" "unat off"] by (auto simp: wp_iff tmpfs_penv_def)
  let ?s = "(set_dirty (f_ino fl) (ino1, cache_dirtied ino ino1) s)\<lparr>errno := errno s\<rparr>"
  have "write_vfs E off (of_nat len) buf f s = Some (- EFAULT, ?s)"
    using f w(1) len
    by (simp add: write_vfs_def do_actual_write_def file_inode_def E tmpfs_penv_errno unat_word_of_nat clamp_small)
  moreover have "io_frame s ?s" using f w(2) by (auto intro!: io_frame_set_dirty)
  ultimately show ?thesis by (intro exI [of _ ?s]) simp
qed

text \<open>
  C34. A \<open>write\<close> to a tmpfs file from memory that is not mapped returns \<open>-EFAULT\<close> and moves the position of the
  description \<^emph>\<open>back\<close> by 14, the number of the error: \<open>sys_write\<close> takes only the result \<open>-1\<close> for a failure, and the page cache
  returns negated error numbers.
\<close>

theorem write_fault_moves_back:
  assumes "sys_inv iext dext ext s" "fd_lookup (ctx (ks s)) fd = Some (f, b)" "tmpfs_file s f fl ino"
    "se_p E = tmpfs_penv e" "fd_may_access fl FILE_ACCESS_WRITE" "f_flags fl AND O_APPEND = 0"
    "um s buf = None" "0 < len" "len < 2 ^ 63"
  shows "\<exists>s'. sys_write E fd buf (of_nat len) s = Some (- EFAULT, s') \<and>
     map_option f_seek (files (ks s') f) = Some (f_seek fl - 14)"
proof -
  let ?fl = "fl\<lparr>f_refcount := f_refcount fl + 1\<rparr>"
  let ?s1 = "set_file f ?fl s"
  have f: "files (ks s) f = Some fl" "inodes (ks s) (f_ino fl) = Some ino" using assms(3) by (simp_all add: tmpfs_file_def)
  have pos: "0 < f_refcount fl" using sys_invD(1) [OF assms(1)] f by (auto simp: fd_inv_def vfs_inv_def)
  have "tmpfs_file ?s1 f ?fl ino" by (rule tmpfs_file_set_file [OF assms(3)]) simp
  then obtain s2 where w: "write_vfs E (f_seek fl) (of_nat len) buf f ?s1 = Some (- EFAULT, s2)" "io_frame ?s1 s2"
    using tmpfs_write_fault [of ?s1 f ?fl ino E e buf len "f_seek fl"] assms(4,7-9) by auto
  have acc: "fd_may_access ?fl FILE_ACCESS_WRITE" using assms(5) by (simp add: fd_may_access_def)
  have f2: "files (ks s2) f = Some ?fl" using w(2) by (simp add: io_frame_def)
  have get: "get_fd fd s = Some (Some f, ?s1)" by (rule get_fd_run [OF assms(1,2) f(1)])
  show ?thesis
    using get w(1) acc f f2 assms(6) pos
    by (simp add: sys_write_def with_fd_def may_access_def seek_append_def file_inode_def add_seek_def Let_def put_fd_def
        fd_put_def)
qed

theorem write_fault_moves_back_witness:
  "\<exists>s'. sys_write demo_senv 0 500 3 demo_sys = Some (- EFAULT, s') \<and> map_option f_seek (files (ks s') 1) = Some (- 14)"
proof -
  have "um demo_sys 500 = None" by (simp add: demo_open_file demo_umem_def)
  from write_fault_moves_back [OF demo_sys_inv demo_open_file(2,1) demo_access(5,1,3) this, of 3]
  show ?thesis by (simp add: demo_access)
qed



section \<open>Directories\<close>

text \<open>
  C36. \<open>getdents\<close> at the end of a directory returns 0, and rewinds the description: its position becomes 0, since the code
  stores the new offset of the last entry that was put out, and there is none. The next call starts again with the first entry.
\<close>

theorem getdents_end_rewinds:
  assumes "sys_inv iext dext ext s" "fd_lookup (ctx (ks s)) fd = Some (f, b)"
    "files (ks s) f = Some fl" "inodes (ks s) (f_ino fl) = Some ino" "S_ISDIR (i_mode ino)"
    "inode_can_access ino FILE_ACCESS_READ (cr s) = Some (True, c)"
    "\<And>fl ino. drv_getdirent E fl ino = Some g" "fst (g (sint (f_seek fl))) = 0" "0 < count"
  shows "\<exists>s'. sys_getdents E fd dirp count s = Some (0, s') \<and> map_option f_seek (files (ks s') f) = Some 0"
proof -
  let ?fl = "fl\<lparr>f_refcount := f_refcount fl + 1\<rparr>"
  let ?s1 = "set_file f ?fl s"
  have pos: "0 < f_refcount fl" using sys_invD(1) [OF assms(1)] assms(3) by (auto simp: fd_inv_def vfs_inv_def)
  obtain buf where g: "g (sint (f_seek fl)) = (0, buf)" using assms(8) by (cases "g (sint (f_seek fl))") auto
  have get: "get_fd fd s = Some (Some f, ?s1)" by (rule get_fd_run [OF assms(1-3)])
  have loop: "getdents_loop E count 0 dirp (sint (f_seek fl)) \<lparr>gd_read = 0, gd_new_off = 0\<rparr> f (?s1\<lparr>cr := c\<rparr>) =
      Some (0, \<lparr>gd_read = 0, gd_new_off = 0\<rparr>, ?s1\<lparr>cr := c\<rparr>)"
    using assms(4,7,9) g by (subst getdents_loop.simps) (simp add: do_getdirent_def file_inode_def)
  show ?thesis
    using get assms(4-6,9) pos loop
    by (simp add: sys_getdents_def with_fd_def getdents_vfs_def file_inode_def file_can_access_def set_seek_def put_fd_def fd_put_def)
qed

definition demo_dir :: sys where
  "demo_dir = set_inode 7 (demo_tmpfs\<lparr>i_refc := 1, i_mode := 0x41ed\<rparr>) (set_file 1 ((demo_file 2 7 3)\<lparr>f_seek := 9\<rparr>) demo_sys)"

theorem getdents_end_rewinds_witness:
  "\<exists>s'. sys_getdents demo_senv 0 20 50 demo_dir = Some (0, s') \<and> map_option f_seek (files (ks s') 1) = Some 0"
proof -
  have f: "files (ks demo_sys) 1 = Some (demo_file 2 7 3)" "inodes (ks demo_sys) 7 = Some (demo_tmpfs\<lparr>i_refc := 1\<rparr>)"
      "f_ino (demo_file 2 7 3) = 7"
    using demo_open_file(1) by (auto simp: tmpfs_file_def demo_file_def)
  have "fd_inv (\<lambda>_. 0) (\<lambda>_. 0) (\<lambda>_. 0) (ks demo_dir)"
    unfolding demo_dir_def using f
    by (intro set_inode_inv [OF set_file_inv [OF sys_invD(1) [OF demo_sys_inv] f(1)], where ino = "demo_tmpfs\<lparr>i_refc := 1\<rparr>"]) simp_all
  then have inv: "sys_inv (\<lambda>_. 0) (\<lambda>_. 0) (\<lambda>_. 0) demo_dir"
    using demo_sys_inv by (simp add: sys_inv_def demo_dir_def unlocked_def set_inode_def)
  have st: "fd_lookup (ctx (ks demo_dir)) 0 = Some (1, False)" "files (ks demo_dir) 1 = Some ((demo_file 2 7 3)\<lparr>f_seek := 9\<rparr>)"
      "inodes (ks demo_dir) (f_ino ((demo_file 2 7 3)\<lparr>f_seek := 9\<rparr>)) = Some (demo_tmpfs\<lparr>i_refc := 1, i_mode := 0x41ed\<rparr>)"
      "cr demo_dir = demo_user"
    using demo_open_file(2) f(3) by (simp_all add: demo_dir_def set_inode_def demo_sys_def)
  have dir: "S_ISDIR (i_mode (demo_tmpfs\<lparr>i_refc := 1, i_mode := 0x41ed\<rparr>))" by (simp add: S_ISDIR_def S_IFMT_def)
  have acc: "inode_can_access (demo_tmpfs\<lparr>i_refc := 1, i_mode := 0x41ed\<rparr>) FILE_ACCESS_READ (cr demo_dir) = Some (True, demo_user)"
    by (simp add: st(4) inode_can_access_def demo_user_def kernel_creds_def creds_get_def rwslock_lock_read_def demo_tmpfs_def
        tmpfs_fops_def demo_inode_def perm_bits_def FILE_ACCESS_READ_def FILE_ACCESS_WRITE_def FILE_ACCESS_EXECUTE_def S_IRUSR_def
        creds_put_def rwslock_unlock_read_def RDWR_LOCK_WRITE_def)
  show ?thesis
    by (rule getdents_end_rewinds [OF inv st(1-3) dir acc, where g = "\<lambda>_. (0, [])"]) (simp_all add: demo_senv_def)
qed

end
