(* ===== verification/Pipe.thy ===== *)
theory Pipe
  imports Page_Cache
begin

text \<open>
  Pipes: \<open>kernel/kernel/fs/pipe.cpp\<close> and \<open>kernel/include/onyx/pipe.h\<close>, with the wait queues of
  \<open>kernel/kernel/wait_queue.cpp\<close> and the waiting loop \<open>__wait_for_event\<close> of
  \<open>kernel/include/onyx/wait_queue.h\<close> they sleep in.

  \<open>pipe\<close> is the class, \<open>read_iter\<close> and \<open>write_iter\<close> are one iteration of the loops of \<open>pipe::read\<close> and
  \<open>pipe::write\<close>, and \<open>pipe_step\<close> interleaves any number of threads that read, write and close. A thread holds the
  mutex during an iteration, so an iteration is one step; \<open>eof\<close> and \<open>broken\<close> are set without the mutex, in steps of their
  own. The steps carry labels, the bytes that enter and leave the pipe.

  A pipe refines a queue of bytes of bounded length; writes of at most \<open>PIPE_BUF\<close> bytes enter as a whole; no wake-up is
  lost. A blocking write of at most \<open>PIPE_BUF\<close> bytes that does not fit into a pipe that is not full, though, spins
  with the mutex held.
\<close>

section \<open>The class\<close>

record pipe =
  p_buffer :: "u8 list"
  p_size :: nat
  p_pos :: nat
  p_eof :: bool
  p_broken :: bool
  p_readers :: nat
  p_writers :: nat
  p_refs :: nat

definition default_pipe_size :: nat where "default_pipe_size = 65535"

abbreviation PIPE_BUF :: nat where "PIPE_BUF \<equiv> 4096"

text \<open>The constructor, and the allocation of the buffer (the argument tells whether there is memory).\<close>

definition new_pipe :: pipe where
  "new_pipe = \<lparr>p_buffer = [], p_size = 0, p_pos = 0, p_eof = False, p_broken = False, p_readers = 1, p_writers = 1, p_refs = 2\<rparr>"

definition allocate_pipe_buffer :: "bool \<Rightarrow> nat \<Rightarrow> pipe \<Rightarrow> bool \<times> pipe" where
  "allocate_pipe_buffer mem sz p = (if mem then (True, p\<lparr>p_buffer := replicate sz 0, p_size := sz\<rparr>) else (False, p))"

definition can_read :: "pipe \<Rightarrow> bool" where "can_read p \<longleftrightarrow> p_pos p \<noteq> 0"
definition can_read_or_eof :: "pipe \<Rightarrow> bool" where "can_read_or_eof p \<longleftrightarrow> can_read p \<or> p_eof p"
definition can_write :: "pipe \<Rightarrow> bool" where "can_write p \<longleftrightarrow> p_pos p < p_size p"
definition is_full :: "pipe \<Rightarrow> bool" where "is_full p \<longleftrightarrow> p_size p = p_pos p"
definition available_space :: "pipe \<Rightarrow> nat" where "available_space p = p_size p - p_pos p"

text \<open>
  \<open>poll\<close> gives the events that are there and tells on which queues (of readers, of writers) the poller waits.
\<close>

definition POLLIN :: u16 where "POLLIN = 1"
definition POLLOUT :: u16 where "POLLOUT = 4"

definition pipe_poll :: "u16 \<Rightarrow> pipe \<Rightarrow> u16 \<times> bool \<times> bool" where
  "pipe_poll ev p =
     ((if ev AND POLLIN \<noteq> 0 \<and> can_read p then POLLIN else 0) OR (if ev AND POLLOUT \<noteq> 0 \<and> can_write p then POLLOUT else 0),
      ev AND POLLIN \<noteq> 0 \<and> \<not> can_read p, ev AND POLLOUT \<noteq> 0 \<and> \<not> can_write p)"

text \<open>
  The two inodes of a pipe point to it; the lowest bit of the pointer marks the writing end. Closing an end gives the pipe and
  whether the queue of the other side is woken; the pipe is deleted when \<open>p_refs\<close> gets 0.
\<close>

definition PIPE_WRITEABLE :: u64 where "PIPE_WRITEABLE = 1"

definition get_pipe :: "u64 \<Rightarrow> u64" where
  "get_pipe raw = raw AND NOT PIPE_WRITEABLE"

definition close_write_end :: "pipe \<Rightarrow> pipe \<times> bool" where
  "close_write_end p =
     (let p' = p\<lparr>p_writers := p_writers p - 1\<rparr>
      in if p_writers p' = 0 then (p'\<lparr>p_eof := True\<rparr>, True) else (p', False))"

definition close_read_end :: "pipe \<Rightarrow> pipe \<times> bool" where
  "close_read_end p =
     (let p' = p\<lparr>p_readers := p_readers p - 1\<rparr>
      in if p_readers p' = 0 then (p'\<lparr>p_broken := True\<rparr>, True) else (p', False))"

definition pipe_close :: "u64 \<Rightarrow> pipe \<Rightarrow> pipe \<times> bool" where
  "pipe_close helper p =
     (let (p', w) = (if helper AND PIPE_WRITEABLE \<noteq> 0 then close_write_end p else close_read_end p)
      in (p'\<lparr>p_refs := p_refs p' - 1\<rparr>, w))"

text \<open>The tagged pointer gives the pipe and the end back, and the pipe goes away with its second end.\<close>

lemma pipe_ends:
  assumes "even a"
  shows "get_pipe a = a \<and> a AND PIPE_WRITEABLE = 0" "get_pipe (a OR PIPE_WRITEABLE) = a \<and> (a OR PIPE_WRITEABLE) AND PIPE_WRITEABLE \<noteq> 0"
proof -
  have b: "\<not> bit a 0" "bit a n \<Longrightarrow> n \<noteq> 0" for n using assms by (metis bit_0)+
  then show "get_pipe a = a \<and> a AND PIPE_WRITEABLE = 0"
    by (auto simp: get_pipe_def PIPE_WRITEABLE_def bit_simps intro!: bit_word_eqI)
  have "bit ((a OR PIPE_WRITEABLE) AND PIPE_WRITEABLE) 0" by (simp add: PIPE_WRITEABLE_def bit_simps)
  then have "(a OR PIPE_WRITEABLE) AND PIPE_WRITEABLE \<noteq> 0" by auto
  moreover have "get_pipe (a OR PIPE_WRITEABLE) = a"
    using b by (auto simp: get_pipe_def PIPE_WRITEABLE_def bit_simps intro!: bit_word_eqI)
  ultimately show "get_pipe (a OR PIPE_WRITEABLE) = a \<and> (a OR PIPE_WRITEABLE) AND PIPE_WRITEABLE \<noteq> 0" by simp
qed

lemma pipe_close_both:
  assumes "even a"
  shows "p_refs (fst (pipe_close a new_pipe)) = 1 \<and> \<not> p_eof (fst (pipe_close a new_pipe)) \<and>
    p_refs (fst (pipe_close (a OR PIPE_WRITEABLE) (fst (pipe_close a new_pipe)))) = 0"
  using pipe_ends [OF assms]
  by (simp add: pipe_close_def close_write_end_def close_read_end_def new_pipe_def)

text \<open>A call in progress: its arguments and \<open>been_read\<close> or \<open>written\<close>.\<close>

datatype pipe_op =
    PRead (op_flags: u32) (op_len: nat) (op_buf: nat) (op_done: nat)
  | PWrite (op_flags: u32) (op_len: nat) (op_buf: nat) (op_done: nat)

fun op_add :: "nat \<Rightarrow> pipe_op \<Rightarrow> pipe_op" where
  "op_add n (PRead fl len buf k) = PRead fl len buf (k + n)"
| "op_add n (PWrite fl len buf k) = PWrite fl len buf (k + n)"

definition is_atomic_write :: "pipe_op \<Rightarrow> bool" where
  "is_atomic_write op \<longleftrightarrow> op_len op \<le> PIPE_BUF"

definition op_rest :: "pipe_op \<Rightarrow> nat" where "op_rest op = op_len op - op_done op"

text \<open>What follows an iteration: another one, waiting for the other side, or returning a result.\<close>

datatype pipe_next = Again pipe_op | Wait pipe_op | Return int

text \<open>
  One iteration of \<open>pipe::read\<close>: what follows, the memory of the caller, the pipe, whether \<open>write_queue\<close> is
  woken, and the bytes taken out.
\<close>

definition read_iter :: "pipe_op \<Rightarrow> umem \<Rightarrow> pipe \<Rightarrow> pipe_next \<times> umem \<times> pipe \<times> bool \<times> u8 list" where
  "read_iter op m p =
     (if op_done op = op_len op then (Return (int (op_done op)), m, p, False, [])
      else if can_read p then
        (let to_read = min (op_rest op) (p_pos p);
             bs = take to_read (p_buffer p);
             (st, m') = copy_to_user (op_buf op + op_done op) bs m;
             rest = p_pos p - to_read
         in if st < 0 then (Return (- EFAULT), m', p, op_done op \<noteq> 0, [])
            else (Again (op_add to_read op), m',
                  p\<lparr>p_buffer := (if rest \<noteq> 0 then splice 0 (take rest (drop to_read (p_buffer p))) (p_buffer p) else p_buffer p),
                    p_pos := rest\<rparr>, True, bs))
      else if op_done op \<noteq> 0 \<or> p_eof p then (Return (int (op_done op)), m, p, False, [])
      else if op_flags op AND O_NONBLOCK \<noteq> 0 then (Return (- EAGAIN), m, p, False, [])
      else (Wait op, m, p, False, []))"

definition write_blocks :: "pipe_op \<Rightarrow> pipe \<Rightarrow> bool" where
  "write_blocks op p \<longleftrightarrow> (available_space p < op_rest op \<and> is_atomic_write op) \<or> is_full p"

definition write_ready :: "pipe_op \<Rightarrow> pipe \<Rightarrow> bool" where
  "write_ready op p \<longleftrightarrow> (is_atomic_write op \<and> op_rest op \<le> available_space p) \<or> \<not> is_full p \<or> p_broken p"

text \<open>
  One iteration of \<open>pipe::write\<close>: what follows, the pipe, whether \<open>read_queue\<close> is woken, and the bytes put in. A copy
  that faults may leave bytes in the buffer behind \<open>pos\<close>.
\<close>

definition write_iter :: "pipe_op \<Rightarrow> umem \<Rightarrow> pipe \<Rightarrow> pipe_next \<times> pipe \<times> bool \<times> u8 list" where
  "write_iter op m p =
     (if op_done op = op_len op then (Return (int (op_done op)), p, True, [])
      else if p_broken p then (Return (- EPIPE), p, False, [])
      else if write_blocks op p then
        (if op_flags op AND O_NONBLOCK \<noteq> 0 then Return (- EAGAIN) else Wait op, p, op_done op \<noteq> 0, [])
      else
        (let to_write = min (op_rest op) (available_space p);
             (st, bs) = copy_from_user (op_buf op + op_done op) to_write m;
             p' = p\<lparr>p_buffer := splice (p_pos p) bs (p_buffer p)\<rparr>
         in if st < 0 then (Return (- EFAULT), p', op_done op \<noteq> 0, [])
            else (Again (op_add to_write op), p'\<lparr>p_pos := p_pos p + to_write\<rparr>, False, bs)))"

fun op_ready :: "pipe_op \<Rightarrow> pipe \<Rightarrow> bool" where
  "op_ready (PRead fl len buf k) p = can_read_or_eof p"
| "op_ready (PWrite fl len buf k) p = write_ready (PWrite fl len buf k) p"

section \<open>Interleaving\<close>

text \<open>
  Where a thread is: outside, at the mutex, in the loop, in the waiting loop (before its first test, about to queue itself,
  queued and about to test, about to unlock, off the processor, about to lock again, about to leave the queue), about to return,
  or closing an end (about to set \<open>eof\<close> or \<open>broken\<close>, about to wake the other side).
\<close>

datatype pipe_pc =
    P_Idle
  | P_Lock pipe_op
  | P_Loop pipe_op
  | P_Wait pipe_op
  | P_Add pipe_op
  | P_Test pipe_op
  | P_Unlock pipe_op
  | P_Yield pipe_op
  | P_Relock pipe_op
  | P_Remove pipe_op
  | P_Return int
  | P_Eof
  | P_Eof_Wake
  | P_Broken
  | P_Broken_Wake

record psys =
  pi :: pipe
  pipe_lock :: "nat option"
  read_queue :: "nat list"
  write_queue :: "nat list"
  p_pc :: "nat \<Rightarrow> pipe_pc"
  p_tstate :: "nat \<Rightarrow> thread_state"
  p_signal :: "nat \<Rightarrow> bool"
  p_mem :: "nat \<Rightarrow> umem"

datatype pipe_label = Tau | Got nat "u8 list" | Sent nat "u8 list"

definition pc_goto :: "nat \<Rightarrow> pipe_pc \<Rightarrow> psys \<Rightarrow> psys" where
  "pc_goto t pc s = s\<lparr>p_pc := (p_pc s)(t := pc)\<rparr>"

definition p_set_state :: "nat \<Rightarrow> thread_state \<Rightarrow> psys \<Rightarrow> psys" where
  "p_set_state t st s = s\<lparr>p_tstate := (p_tstate s)(t := st)\<rparr>"

text \<open>\<open>wait_queue_wake_all\<close>: every token is removed and its thread made runnable.\<close>

definition wake_all :: "bool \<Rightarrow> psys \<Rightarrow> psys" where
  "wake_all rd s =
     (let q = (if rd then read_queue s else write_queue s);
          s' = s\<lparr>p_tstate := (\<lambda>t. if t \<in> set q then THREAD_RUNNABLE else p_tstate s t)\<rparr>
      in if rd then s'\<lparr>read_queue := []\<rparr> else s'\<lparr>write_queue := []\<rparr>)"

definition wake_if :: "bool \<Rightarrow> bool \<Rightarrow> psys \<Rightarrow> psys" where
  "wake_if w rd s = (if w then wake_all rd s else s)"

fun wait_queue_add :: "nat \<Rightarrow> pipe_op \<Rightarrow> psys \<Rightarrow> psys" where
  "wait_queue_add t (PRead fl len buf k) s = s\<lparr>read_queue := read_queue s @ [t]\<rparr>"
| "wait_queue_add t (PWrite fl len buf k) s = s\<lparr>write_queue := write_queue s @ [t]\<rparr>"

fun wait_queue_remove :: "nat \<Rightarrow> pipe_op \<Rightarrow> psys \<Rightarrow> psys" where
  "wait_queue_remove t (PRead fl len buf k) s = s\<lparr>read_queue := removeAll t (read_queue s)\<rparr>"
| "wait_queue_remove t (PWrite fl len buf k) s = s\<lparr>write_queue := removeAll t (write_queue s)\<rparr>"

fun next_pc :: "pipe_next \<Rightarrow> pipe_pc" where
  "next_pc (Again op) = P_Loop op"
| "next_pc (Wait op) = P_Wait op"
| "next_pc (Return r) = P_Return r"

inductive pipe_step :: "psys \<Rightarrow> pipe_label \<Rightarrow> psys \<Rightarrow> bool" where
  call: "p_pc s t = P_Idle \<Longrightarrow> op_done op = 0 \<Longrightarrow> pipe_step s Tau (pc_goto t (P_Lock op) s)"
| lock: "p_pc s t = P_Lock op \<Longrightarrow> pipe_lock s = None \<Longrightarrow>
     pipe_step s Tau (pc_goto t (P_Loop op) (s\<lparr>pipe_lock := Some t\<rparr>))"
| do_read: "p_pc s t = P_Loop op \<Longrightarrow> is_PRead op \<Longrightarrow> read_iter op (p_mem s t) (pi s) = (n, m, p, w, bs) \<Longrightarrow>
     pipe_step s (Got t bs) (pc_goto t (next_pc n) (wake_if w False (s\<lparr>pi := p, p_mem := (p_mem s)(t := m)\<rparr>)))"
| do_write: "p_pc s t = P_Loop op \<Longrightarrow> \<not> is_PRead op \<Longrightarrow> write_iter op (p_mem s t) (pi s) = (n, p, w, bs) \<Longrightarrow>
     pipe_step s (Sent t bs) (pc_goto t (next_pc n) (wake_if w True
       (s\<lparr>pi := p, p_signal := (if n = Return (- EPIPE) then (p_signal s)(t := True) else p_signal s)\<rparr>)))"
| wait_now: "p_pc s t = P_Wait op \<Longrightarrow> op_ready op (pi s) \<Longrightarrow> pipe_step s Tau (pc_goto t (P_Loop op) s)"
| wait_sleep: "p_pc s t = P_Wait op \<Longrightarrow> \<not> op_ready op (pi s) \<Longrightarrow>
     pipe_step s Tau (pc_goto t (P_Add op) (p_set_state t THREAD_INTERRUPTIBLE s))"
| add: "p_pc s t = P_Add op \<Longrightarrow> pipe_step s Tau (pc_goto t (P_Test op) (wait_queue_add t op s))"
| test_ready: "p_pc s t = P_Test op \<Longrightarrow> op_ready op (pi s) \<Longrightarrow>
     pipe_step s Tau (pc_goto t (P_Loop op) (p_set_state t THREAD_RUNNABLE (wait_queue_remove t op s)))"
| test_signal: "p_pc s t = P_Test op \<Longrightarrow> \<not> op_ready op (pi s) \<Longrightarrow> p_signal s t \<Longrightarrow>
     pipe_step s Tau (pc_goto t (P_Return (- EINTR)) (p_set_state t THREAD_RUNNABLE (wait_queue_remove t op s)))"
| test_sleep: "p_pc s t = P_Test op \<Longrightarrow> \<not> op_ready op (pi s) \<Longrightarrow> \<not> p_signal s t \<Longrightarrow>
     pipe_step s Tau (pc_goto t (P_Unlock op) s)"
| unlock: "p_pc s t = P_Unlock op \<Longrightarrow> pipe_step s Tau (pc_goto t (P_Yield op) (s\<lparr>pipe_lock := None\<rparr>))"
| yield: "p_pc s t = P_Yield op \<Longrightarrow> p_tstate s t = THREAD_RUNNABLE \<Longrightarrow> pipe_step s Tau (pc_goto t (P_Relock op) s)"
| relock: "p_pc s t = P_Relock op \<Longrightarrow> pipe_lock s = None \<Longrightarrow>
     pipe_step s Tau (pc_goto t (P_Remove op) (s\<lparr>pipe_lock := Some t\<rparr>))"
| remove: "p_pc s t = P_Remove op \<Longrightarrow> pipe_step s Tau (pc_goto t (P_Add op) (wait_queue_remove t op s))"
| return: "p_pc s t = P_Return r \<Longrightarrow> pipe_step s Tau (pc_goto t P_Idle (s\<lparr>pipe_lock := None\<rparr>))"
| close_write: "p_pc s t = P_Idle \<Longrightarrow> 0 < p_writers (pi s) \<Longrightarrow>
     pipe_step s Tau (pc_goto t (if p_writers (pi s) - 1 = 0 then P_Eof else P_Idle)
       (s\<lparr>pi := (pi s)\<lparr>p_writers := p_writers (pi s) - 1\<rparr>\<rparr>))"
| set_eof: "p_pc s t = P_Eof \<Longrightarrow> pipe_step s Tau (pc_goto t P_Eof_Wake (s\<lparr>pi := (pi s)\<lparr>p_eof := True\<rparr>\<rparr>))"
| eof_wake: "p_pc s t = P_Eof_Wake \<Longrightarrow> pipe_step s Tau (pc_goto t P_Idle (wake_all True s))"
| close_read: "p_pc s t = P_Idle \<Longrightarrow> 0 < p_readers (pi s) \<Longrightarrow>
     pipe_step s Tau (pc_goto t (if p_readers (pi s) - 1 = 0 then P_Broken else P_Idle)
       (s\<lparr>pi := (pi s)\<lparr>p_readers := p_readers (pi s) - 1\<rparr>\<rparr>))"
| set_broken: "p_pc s t = P_Broken \<Longrightarrow> pipe_step s Tau (pc_goto t P_Broken_Wake (s\<lparr>pi := (pi s)\<lparr>p_broken := True\<rparr>\<rparr>))"
| broken_wake: "p_pc s t = P_Broken_Wake \<Longrightarrow> pipe_step s Tau (pc_goto t P_Idle (wake_all False s))"
| signal: "pipe_step s Tau ((if p_tstate s t = THREAD_INTERRUPTIBLE then p_set_state t THREAD_RUNNABLE s else s)
       \<lparr>p_signal := (p_signal s)(t := True)\<rparr>)"
| handled: "p_pc s t = P_Idle \<Longrightarrow> pipe_step s Tau (s\<lparr>p_signal := (p_signal s)(t := False)\<rparr>)"
| user: "pipe_step s Tau (s\<lparr>p_mem := (p_mem s)(t := m)\<rparr>)"

definition pipe_init :: "(nat \<Rightarrow> umem) \<Rightarrow> psys" where
  "pipe_init m =
     \<lparr>pi = snd (allocate_pipe_buffer True default_pipe_size new_pipe), pipe_lock = None, read_queue = [], write_queue = [],
      p_pc = (\<lambda>t. P_Idle), p_tstate = (\<lambda>t. THREAD_RUNNABLE), p_signal = (\<lambda>t. False), p_mem = m\<rparr>"

inductive pipe_run :: "psys \<Rightarrow> pipe_label list \<Rightarrow> psys \<Rightarrow> bool" where
  run_Nil: "pipe_run s [] s"
| run_step: "pipe_run s ls s' \<Longrightarrow> pipe_step s' l s'' \<Longrightarrow> pipe_run s (ls @ [l]) s''"

section \<open>A pipe is a queue of bytes\<close>

definition pipe_contents :: "pipe \<Rightarrow> u8 list" where
  "pipe_contents p = take (p_pos p) (p_buffer p)"

definition pipe_wf :: "pipe \<Rightarrow> bool" where
  "pipe_wf p \<longleftrightarrow> length (p_buffer p) = p_size p \<and> p_pos p \<le> p_size p"

fun bytes_sent :: "pipe_label \<Rightarrow> u8 list" where
  "bytes_sent (Sent t bs) = bs"
| "bytes_sent l = []"

fun bytes_got :: "pipe_label \<Rightarrow> u8 list" where
  "bytes_got (Got t bs) = bs"
| "bytes_got l = []"

text \<open>The specification: a bounded queue, whose steps put bytes in at one end and take bytes out at the other.\<close>

definition fifo_step :: "nat \<Rightarrow> u8 list \<Rightarrow> pipe_label \<Rightarrow> u8 list \<Rightarrow> bool" where
  "fifo_step cap q l q' \<longleftrightarrow> q @ bytes_sent l = bytes_got l @ q' \<and> length q' \<le> cap"

text \<open>What the iterations leave alone.\<close>

definition pipe_frame :: "pipe \<Rightarrow> pipe \<Rightarrow> bool" where
  "pipe_frame p p' \<longleftrightarrow> p_size p' = p_size p \<and> p_eof p' = p_eof p \<and> p_broken p' = p_broken p"

lemma copy_from_user_length: "copy_from_user a n m = (st, bs) \<Longrightarrow> length bs \<le> n \<and> (0 \<le> st \<longrightarrow> length bs = n)"
proof (induction a n m arbitrary: st bs rule: copy_from_user.induct)
  case (2 a n m)
  then show ?case by (cases "m a"; cases "copy_from_user (Suc a) n m") auto
qed simp

lemma length_pipe_contents: "pipe_wf p \<Longrightarrow> length (pipe_contents p) = p_pos p"
  by (simp add: pipe_wf_def pipe_contents_def)

lemma read_iter_fifo:
  assumes "pipe_wf p" "read_iter op m p = (n, m', p', w, bs)"
  shows "pipe_wf p' \<and> pipe_contents p = bs @ pipe_contents p' \<and> pipe_frame p p' \<and> (w \<or> p' = p)"
proof -
  define k where "k = min (op_rest op) (p_pos p)"
  obtain st m1 where c: "copy_to_user (op_buf op + op_done op) (take k (p_buffer p)) m = (st, m1)" by fastforce
  have k: "k \<le> p_pos p" "p_pos p \<le> length (p_buffer p)" using assms(1) by (auto simp: k_def pipe_wf_def)
  show ?thesis
  proof (cases "op_done op = op_len op \<or> \<not> can_read p \<or> st < 0")
    case True
    then have "p' = p" "bs = []"
      using assms(2) c by (auto simp: read_iter_def k_def [symmetric] Let_def split: if_splits)
    then show ?thesis using assms(1) by (simp add: pipe_frame_def)
  next
    case False
    have eq: "bs = take k (p_buffer p)" "p_pos p' = p_pos p - k" "w" "pipe_frame p p'"
      "p_buffer p' = (if p_pos p - k \<noteq> 0 then splice 0 (take (p_pos p - k) (drop k (p_buffer p))) (p_buffer p) else p_buffer p)"
      using assms(2) False c by (auto simp: read_iter_def k_def [symmetric] pipe_frame_def Let_def split: if_splits)
    have "pipe_contents p' = take (p_pos p - k) (drop k (p_buffer p))"
      using k by (auto simp: pipe_contents_def eq(2,5) splice_def min_def)
    moreover have "take (p_pos p) (p_buffer p) = take k (p_buffer p) @ take (p_pos p - k) (drop k (p_buffer p))"
      using k(1) by (metis le_add_diff_inverse take_add)
    moreover have "pipe_wf p'" using assms(1) k eq(2,4,5) by (auto simp: pipe_wf_def pipe_frame_def splice_def)
    ultimately show ?thesis using eq(1,3,4) by (simp add: pipe_contents_def)
  qed
qed

lemma write_iter_fifo:
  assumes "pipe_wf p" "write_iter op m p = (n, p', w, bs)"
  shows "pipe_wf p' \<and> pipe_contents p' = pipe_contents p @ bs \<and> pipe_frame p p' \<and> p_pos p \<le> p_pos p'"
proof (cases "op_done op = op_len op \<or> p_broken p \<or> write_blocks op p")
  case True
  then show ?thesis using assms by (auto simp: write_iter_def pipe_frame_def split: if_splits)
next
  case False
  define k where "k = min (op_rest op) (available_space p)"
  obtain st cs where c: "copy_from_user (op_buf op + op_done op) k m = (st, cs)" by fastforce
  have k: "p_pos p + k \<le> length (p_buffer p)" "p_pos p \<le> length (p_buffer p)"
    using assms(1) by (auto simp: k_def pipe_wf_def available_space_def)
  have l: "length cs \<le> k" "0 \<le> st \<Longrightarrow> length cs = k" using copy_from_user_length [OF c] by auto
  have eq: "p' = (if st < 0 then p\<lparr>p_buffer := splice (p_pos p) cs (p_buffer p)\<rparr>
      else p\<lparr>p_buffer := splice (p_pos p) cs (p_buffer p), p_pos := p_pos p + k\<rparr>)" "bs = (if st < 0 then [] else cs)"
    using assms(2) False c by (auto simp: write_iter_def k_def [symmetric] Let_def split: if_splits)
  show ?thesis
    using assms(1) k l by (auto simp: eq pipe_wf_def pipe_contents_def splice_def pipe_frame_def)
qed

lemma queue_simps [simp]:
  "p_pc (wait_queue_add t op s) = p_pc s" "p_pc (wait_queue_remove t op s) = p_pc s"
  "p_tstate (wait_queue_add t op s) = p_tstate s" "p_tstate (wait_queue_remove t op s) = p_tstate s"
  "pipe_lock (wait_queue_add t op s) = pipe_lock s" "pipe_lock (wait_queue_remove t op s) = pipe_lock s"
  "pi (wait_queue_add t op s) = pi s" "pi (wait_queue_remove t op s) = pi s"
  by (cases op; simp)+

lemma state_simps [simp]:
  "p_pc (pc_goto t pc s) = (p_pc s)(t := pc)" "p_tstate (pc_goto t pc s) = p_tstate s" "pipe_lock (pc_goto t pc s) = pipe_lock s"
  "pi (pc_goto t pc s) = pi s" "read_queue (pc_goto t pc s) = read_queue s" "write_queue (pc_goto t pc s) = write_queue s"
  "p_pc (p_set_state t st s) = p_pc s" "p_tstate (p_set_state t st s) = (p_tstate s)(t := st)"
  "pipe_lock (p_set_state t st s) = pipe_lock s" "pi (p_set_state t st s) = pi s"
  "read_queue (p_set_state t st s) = read_queue s" "write_queue (p_set_state t st s) = write_queue s"
  by (simp_all add: pc_goto_def p_set_state_def)

lemma wake_simps [simp]:
  "p_pc (wake_all rd s) = p_pc s" "pipe_lock (wake_all rd s) = pipe_lock s" "pi (wake_all rd s) = pi s"
  "p_pc (wake_if w rd s) = p_pc s" "pipe_lock (wake_if w rd s) = pipe_lock s" "pi (wake_if w rd s) = pi s"
  by (simp_all add: wake_all_def wake_if_def Let_def)

lemma pipe_step_fifo:
  assumes "pipe_step s l s'" "pipe_wf (pi s)"
  shows "pipe_wf (pi s') \<and> fifo_step (p_size (pi s)) (pipe_contents (pi s)) l (pipe_contents (pi s')) \<and> p_size (pi s') = p_size (pi s)"
  using assms
proof cases
  case (do_read t op n m p w bs)
  then show ?thesis using read_iter_fifo [OF assms(2) do_read(5)]
    by (auto simp: fifo_step_def pipe_wf_def pipe_contents_def pipe_frame_def)
next
  case (do_write t op n p w bs)
  then show ?thesis using write_iter_fifo [OF assms(2) do_write(5)] length_pipe_contents [of p]
    by (auto simp: fifo_step_def pipe_wf_def pipe_frame_def)
qed (auto simp: fifo_step_def pipe_wf_def pipe_contents_def)

lemma pipe_run_fifo:
  assumes "pipe_run s ls s'" "pipe_wf (pi s)"
  shows "pipe_wf (pi s') \<and> p_size (pi s') = p_size (pi s) \<and>
    pipe_contents (pi s) @ concat (map bytes_sent ls) = concat (map bytes_got ls) @ pipe_contents (pi s')"
  using assms
proof (induction rule: pipe_run.induct)
  case (run_step s ls s' l s'')
  then show ?case using pipe_step_fifo [OF run_step.hyps(2)] by (simp add: fifo_step_def) (metis append_assoc)
qed simp

lemma pipe_init_wf: "pipe_wf (pi (pipe_init m))" "pipe_contents (pi (pipe_init m)) = []"
  "p_size (pi (pipe_init m)) = default_pipe_size"
  by (simp_all add: pipe_init_def allocate_pipe_buffer_def new_pipe_def pipe_wf_def pipe_contents_def)

section \<open>The protocol\<close>

text \<open>The states in which a thread holds the mutex, and the call it is in.\<close>

fun pc_holds :: "pipe_pc \<Rightarrow> bool" where
  "pc_holds (P_Loop op) = True"
| "pc_holds (P_Wait op) = True"
| "pc_holds (P_Add op) = True"
| "pc_holds (P_Test op) = True"
| "pc_holds (P_Unlock op) = True"
| "pc_holds (P_Remove op) = True"
| "pc_holds (P_Return r) = True"
| "pc_holds pc = False"

fun pc_op :: "pipe_pc \<Rightarrow> pipe_op option" where
  "pc_op (P_Lock op) = Some op"
| "pc_op (P_Loop op) = Some op"
| "pc_op (P_Wait op) = Some op"
| "pc_op (P_Add op) = Some op"
| "pc_op (P_Test op) = Some op"
| "pc_op (P_Unlock op) = Some op"
| "pc_op (P_Yield op) = Some op"
| "pc_op (P_Relock op) = Some op"
| "pc_op (P_Remove op) = Some op"
| "pc_op pc = None"

fun pc_queued :: "pipe_pc \<Rightarrow> pipe_op option" where
  "pc_queued (P_Test op) = Some op"
| "pc_queued (P_Unlock op) = Some op"
| "pc_queued (P_Yield op) = Some op"
| "pc_queued pc = None"

text \<open>A write of at most \<open>PIPE_BUF\<close> bytes has either put in nothing or everything.\<close>

definition op_ok :: "pipe_op \<Rightarrow> bool" where
  "op_ok op \<longleftrightarrow> op_done op \<le> op_len op \<and> (\<not> is_PRead op \<longrightarrow> is_atomic_write op \<longrightarrow> op_done op = 0 \<or> op_done op = op_len op)"

definition op_queue :: "pipe_op \<Rightarrow> psys \<Rightarrow> nat list" where
  "op_queue op s = (if is_PRead op then read_queue s else write_queue s)"

text \<open>Somebody is going to wake the queue of a call: a thread closing the other end, or for readers a thread in the middle of
  a write. (Readers are not woken either when nobody is left to read.)\<close>

definition pc_waker :: "bool \<Rightarrow> pipe_pc \<Rightarrow> bool" where
  "pc_waker rd pc \<longleftrightarrow>
     (if rd then pc = P_Eof_Wake \<or> (\<exists>op. pc = P_Loop op \<and> \<not> is_PRead op \<and> 0 < op_done op) else pc = P_Broken_Wake)"

definition waker :: "pipe_op \<Rightarrow> psys \<Rightarrow> bool" where
  "waker op s \<longleftrightarrow> is_PRead op \<and> p_broken (pi s) \<or> (\<exists>u. pc_waker (is_PRead op) (p_pc s u))"

text \<open>A thread that sleeps, or is about to.\<close>

definition sleeping :: "psys \<Rightarrow> nat \<Rightarrow> pipe_op \<Rightarrow> bool" where
  "sleeping s t op \<longleftrightarrow> (p_pc s t = P_Unlock op \<or> p_pc s t = P_Yield op) \<and> p_tstate s t \<noteq> THREAD_RUNNABLE"

definition pipe_ok :: "psys \<Rightarrow> bool" where
  "pipe_ok s \<longleftrightarrow> pipe_wf (pi s) \<and>
     (\<forall>t. pc_holds (p_pc s t) \<longleftrightarrow> pipe_lock s = Some t) \<and>
     (\<forall>t op. pc_op (p_pc s t) = Some op \<longrightarrow> op_ok op) \<and>
     (\<forall>t op. pc_queued (p_pc s t) = Some op \<longrightarrow> p_tstate s t \<noteq> THREAD_RUNNABLE \<longrightarrow> t \<in> set (op_queue op s)) \<and>
     (\<forall>t op. sleeping s t op \<longrightarrow> op_ready op (pi s) \<longrightarrow> waker op s)"

lemma pipe_okD:
  assumes "pipe_ok s"
  shows "pipe_wf (pi s)" "pc_holds (p_pc s t) \<longleftrightarrow> pipe_lock s = Some t" "pc_op (p_pc s t) = Some op \<Longrightarrow> op_ok op"
    "pc_queued (p_pc s t) = Some op \<Longrightarrow> p_tstate s t \<noteq> THREAD_RUNNABLE \<Longrightarrow> t \<in> set (op_queue op s)"
    "sleeping s t op \<Longrightarrow> op_ready op (pi s) \<Longrightarrow> waker op s"
  using assms unfolding pipe_ok_def by blast+

lemma wake_queue:
  "t \<in> set (op_queue op s) \<Longrightarrow> p_tstate (wake_all rd s) t = THREAD_RUNNABLE \<or> t \<in> set (op_queue op (wake_all rd s))"
  "p_tstate (wake_all rd s) t \<noteq> THREAD_RUNNABLE \<Longrightarrow> p_tstate s t \<noteq> THREAD_RUNNABLE"
  "rd = is_PRead op \<Longrightarrow> p_tstate (wake_all rd s) t \<noteq> THREAD_RUNNABLE \<Longrightarrow> t \<notin> set (op_queue op s)"
  by (auto simp: wake_all_def Let_def op_queue_def split: if_splits)

lemma queue_add [simp]:
  "set (op_queue op (wait_queue_add t op' s)) = set (op_queue op s) \<union> (if is_PRead op = is_PRead op' then {t} else {})"
  "set (op_queue op (wait_queue_remove t op' s)) = set (op_queue op s) - (if is_PRead op = is_PRead op' then {t} else {})"
  by (cases op'; auto simp: op_queue_def)+

lemma op_queue_simps [simp]:
  "op_queue op (pc_goto t pc s) = op_queue op s" "op_queue op (p_set_state t st s) = op_queue op s"
  "op_queue op (s\<lparr>pi := p\<rparr>) = op_queue op s" "op_queue op (s\<lparr>pipe_lock := l\<rparr>) = op_queue op s"
  "op_queue op (s\<lparr>p_mem := m\<rparr>) = op_queue op s" "op_queue op (s\<lparr>p_signal := g\<rparr>) = op_queue op s"
  by (simp_all add: op_queue_def)

lemma next_pc_holds [simp]: "pc_holds (next_pc n)"
  by (cases n) auto

lemma pipe_ok_holds:
  assumes "pipe_step s l s'" and h: "\<And>t. pc_holds (p_pc s t) \<longleftrightarrow> pipe_lock s = Some t"
  shows "pc_holds (p_pc s' u) \<longleftrightarrow> pipe_lock s' = Some u"
proof -
  have d: "p_pc s t = pc \<Longrightarrow> (pipe_lock s = Some t) = pc_holds pc" for t pc using h [of t] by simp
  show ?thesis
    using assms(1) by cases (use h [of u] in \<open>auto dest!: d split: if_splits\<close>)
qed

lemma is_PRead_add [simp]: "is_PRead (op_add n op) = is_PRead op" "op_len (op_add n op) = op_len op"
  "op_done (op_add n op) = op_done op + n"
  by (cases op; simp)+

lemma read_iter_next:
  assumes "read_iter op m p = (n, m', p', w, bs)" "op_ok op" "is_PRead op" "pc_op (next_pc n) = Some op'"
  shows "op_ok op' \<and> is_PRead op'"
  using assms by (auto simp: read_iter_def Let_def op_ok_def op_rest_def split: if_splits prod.splits)

lemma write_iter_cases:
  assumes "write_iter op m p = (n, p', w, bs)"
  obtains (ready) "op_done op = op_len op" "n = Return (int (op_done op))" "p' = p" "w" "bs = []"
    | (epipe) "op_done op \<noteq> op_len op" "p_broken p" "n = Return (- EPIPE)" "p' = p" "bs = []"
    | (blocked) "n = Return (- EAGAIN) \<or> n = Wait op" "p' = p" "w = (op_done op \<noteq> 0)" "bs = []"
    | (fault) "n = Return (- EFAULT)" "pipe_frame p p'" "p_pos p' = p_pos p" "w = (op_done op \<noteq> 0)" "bs = []"
    | (chunk) k where "op_done op \<noteq> op_len op" "\<not> write_blocks op p" "k = min (op_rest op) (available_space p)"
        "n = Again (op_add k op)" "pipe_frame p p'" "p_pos p' = p_pos p + k" "length bs = k"
proof (cases "op_done op = op_len op \<or> p_broken p \<or> write_blocks op p")
  case True
  then show ?thesis using assms ready epipe blocked by (auto simp: write_iter_def split: if_splits)
next
  case False
  define k where "k = min (op_rest op) (available_space p)"
  obtain st cs where c: "copy_from_user (op_buf op + op_done op) k m = (st, cs)" by fastforce
  show ?thesis
    using False assms c fault chunk [of k] copy_from_user_length [OF c]
    by (cases "st < 0") (auto simp: write_iter_def k_def [symmetric] Let_def pipe_frame_def)
qed

lemma write_iter_next:
  assumes "write_iter op m p = (n, p', w, bs)" "op_ok op" "\<not> is_PRead op" "pc_op (next_pc n) = Some op'"
  shows "op_ok op' \<and> \<not> is_PRead op'"
  using assms(1) assms
proof (cases rule: write_iter_cases)
  case (chunk k)
  have "op_done op + k \<le> op_len op" using assms(2) chunk(3) by (auto simp: op_ok_def op_rest_def min_def)
  moreover have "op_done op + k = op_len op" if "is_atomic_write op"
    using that chunk(2,3) assms(2) by (simp add: write_blocks_def op_rest_def op_ok_def)
  ultimately show ?thesis using chunk(4) assms(2-4) by (auto simp: op_ok_def is_atomic_write_def)
qed auto

text \<open>A write in progress either wakes the readers, or has only readers to wake whom it will find in its next iteration.\<close>

lemma write_iter_wakes:
  assumes "write_iter op m p = (n, p', w, bs)" "op_ok op" "\<not> is_PRead op" "pipe_wf p"
  shows "w \<or> p_broken p' \<or> (\<exists>op'. n = Again op' \<and> \<not> is_PRead op' \<and> 0 < op_done op') \<or>
    op_done op = 0 \<and> can_read_or_eof p' = can_read_or_eof p"
  using assms(1)
proof (cases rule: write_iter_cases)
  case (chunk k)
  have "op_done op < op_len op" "p_pos p < p_size p"
    using chunk(1,2) assms(2,4) by (auto simp: op_ok_def write_blocks_def is_full_def pipe_wf_def)
  then have "0 < k" unfolding chunk(3) by (simp add: op_rest_def available_space_def)
  then show ?thesis using chunk(4) assms(3) by auto
qed (auto simp: can_read_or_eof_def can_read_def pipe_frame_def)

lemma write_ready_mono:
  assumes "write_ready op p'" "pipe_frame p p'" "p_pos p \<le> p_pos p'" "pipe_wf p'"
  shows "write_ready op p"
  using assms by (auto simp: write_ready_def is_full_def available_space_def pipe_frame_def pipe_wf_def)

lemma op_ready_alt: "op_ready op p = (if is_PRead op then can_read_or_eof p else write_ready op p)"
  by (cases op) auto

lemma pipe_ok_op:
  assumes "pipe_step s l s'" and o: "\<And>t op. pc_op (p_pc s t) = Some op \<Longrightarrow> op_ok op" and "pc_op (p_pc s' u) = Some op"
  shows "op_ok op"
  using assms(1)
proof cases
  case (do_read t op' n m p w bs)
  then show ?thesis using read_iter_next [OF do_read(5) o [of t]] o [of u] assms(3) by (auto split: if_splits)
next
  case (do_write t op' n p w bs)
  then show ?thesis using write_iter_next [OF do_write(5) o [of t]] o [of u] assms(3) by (auto split: if_splits)
next
  case (call t op')
  then show ?thesis using o [of u] assms(3) by (auto simp: op_ok_def split: if_splits)
next
  case (yield t op')
  then show ?thesis using o [of u] assms(3) by (auto split: if_splits)
qed (use o [of u] assms(3) in \<open>auto split: if_splits\<close>)

lemma queued_wake:
  assumes "p_tstate s t \<noteq> THREAD_RUNNABLE \<Longrightarrow> t \<in> set (op_queue op s)"
  shows "p_tstate (wake_if w rd s) t \<noteq> THREAD_RUNNABLE \<Longrightarrow> t \<in> set (op_queue op (wake_if w rd s))"
    "p_tstate (wake_all rd s) t \<noteq> THREAD_RUNNABLE \<Longrightarrow> t \<in> set (op_queue op (wake_all rd s))"
  using assms wake_queue(1,2) by (metis wake_if_def)+

lemma pipe_ok_queue:
  assumes "pipe_step s l s'"
    and q: "\<And>t op. pc_queued (p_pc s t) = Some op \<Longrightarrow> p_tstate s t \<noteq> THREAD_RUNNABLE \<Longrightarrow> t \<in> set (op_queue op s)"
    and "pc_queued (p_pc s' u) = Some op" "p_tstate s' u \<noteq> THREAD_RUNNABLE"
  shows "u \<in> set (op_queue op s')"
  using assms(1)
proof cases
  case (do_read t op' n m p w bs)
  have "pc_queued (next_pc n) = None" by (cases n) auto
  then have "pc_queued (p_pc s u) = Some op" using do_read(2) assms(3) by (auto split: if_splits)
  then show ?thesis unfolding do_read(2) op_queue_simps
    by (intro queued_wake(1)) (use q [of u op] assms(4) do_read(2) in auto)
next
  case (do_write t op' n p w bs)
  have "pc_queued (next_pc n) = None" by (cases n) auto
  then have "pc_queued (p_pc s u) = Some op" using do_write(2) assms(3) by (auto split: if_splits)
  then show ?thesis unfolding do_write(2) op_queue_simps
    by (intro queued_wake(1)) (use q [of u op] assms(4) do_write(2) in auto)
next
  case (eof_wake t)
  then show ?thesis unfolding eof_wake(2) op_queue_simps
    by (intro queued_wake(2)) (use q [of u op] assms(3,4) eof_wake(2) in \<open>auto split: if_splits\<close>)
next
  case (broken_wake t)
  then show ?thesis unfolding broken_wake(2) op_queue_simps
    by (intro queued_wake(2)) (use q [of u op] assms(3,4) broken_wake(2) in \<open>auto split: if_splits\<close>)
qed (use q [of u op] assms(3,4) in \<open>auto split: if_splits\<close>)

lemma waker_mono:
  assumes "waker op s" "\<And>u. pc_waker (is_PRead op) (p_pc s u) \<Longrightarrow> pc_waker (is_PRead op) (p_pc s' u)"
    "p_broken (pi s) \<longrightarrow> p_broken (pi s')"
  shows "waker op s'"
  using assms unfolding waker_def by blast

lemma sleeping_woken:
  assumes "pipe_ok s" "sleeping s u op" "rd = is_PRead op" "p_pc s1 = p_pc s" "p_tstate s1 = p_tstate s"
    "read_queue s1 = read_queue s" "write_queue s1 = write_queue s"
  shows "p_tstate (wake_all rd s1) u = THREAD_RUNNABLE"
proof -
  have "pc_queued (p_pc s u) = Some op" "p_tstate s u \<noteq> THREAD_RUNNABLE" using assms(2) by (auto simp: sleeping_def)
  then have "u \<in> set (op_queue op s)" using pipe_okD(4) [OF assms(1)] by blast
  then have "u \<in> set (op_queue op s1)" using assms(6,7) by (simp add: op_queue_def split: if_splits)
  then show ?thesis using wake_queue(3) [OF assms(3)] by blast
qed

lemma wake_sleeping:
  assumes "pipe_ok s" "p_tstate (wake_if w rd s1) u \<noteq> THREAD_RUNNABLE" "p_pc s u = P_Unlock op \<or> p_pc s u = P_Yield op"
    "p_pc s1 = p_pc s" "p_tstate s1 = p_tstate s" "read_queue s1 = read_queue s" "write_queue s1 = write_queue s"
  shows "sleeping s u op \<and> (w \<longrightarrow> rd \<noteq> is_PRead op)"
proof -
  have "p_tstate s u \<noteq> THREAD_RUNNABLE"
    using assms(2,5) wake_queue(2) [of rd s1 u] by (cases w) (simp_all add: wake_if_def)
  then have "sleeping s u op" using assms(3) by (simp add: sleeping_def)
  then show ?thesis using sleeping_woken [OF assms(1) _ _ assms(4-7), of u op rd] assms(2) by (cases "rd = is_PRead op") (auto simp: wake_if_def)
qed

lemma pipe_ok_waker_read:
  assumes "pipe_ok s" "p_pc s t = P_Loop op'" "is_PRead op'" "read_iter op' (p_mem s t) (pi s) = (n, m, p, w, bs)"
    and s': "s' = pc_goto t (next_pc n) (wake_if w False (s\<lparr>pi := p, p_mem := (p_mem s)(t := m)\<rparr>))"
    and "sleeping s' u op" "op_ready op (pi s')"
  shows "waker op s'"
proof -
  have fi: "pipe_wf p" "pipe_contents (pi s) = bs @ pipe_contents p" "pipe_frame (pi s) p" "w \<or> p = pi s"
    using read_iter_fifo [OF pipe_okD(1) [OF assms(1)] assms(4)] by auto
  have "pc_queued (next_pc n) = None" by (cases n) auto
  then have u: "u \<noteq> t" "p_pc s u = P_Unlock op \<or> p_pc s u = P_Yield op"
    using assms(6) by (auto simp: s' sleeping_def split: if_splits)
  have sl: "sleeping s u op" "w \<longrightarrow> is_PRead op"
    using wake_sleeping [OF assms(1) _ u(2), of w False "s\<lparr>pi := p, p_mem := (p_mem s)(t := m)\<rparr>"] assms(6)
    by (auto simp: s' sleeping_def)
  have "length (pipe_contents p) \<le> length (pipe_contents (pi s))" using fi(2) by simp
  then have "p_pos p \<le> p_pos (pi s)" using fi(1) pipe_okD(1) [OF assms(1)] by (simp add: length_pipe_contents)
  then have "op_ready op (pi s)"
    using assms(7) sl(2) fi(3,4) by (auto simp: s' op_ready_alt can_read_or_eof_def can_read_def pipe_frame_def split: if_splits)
  then have "waker op s" using pipe_okD(5) [OF assms(1) sl(1)] by blast
  then show ?thesis
    by (rule waker_mono) (use assms(2,3) fi(3) in \<open>auto simp: s' pc_waker_def pipe_frame_def split: if_splits\<close>)
qed

lemma pipe_ok_waker_write:
  assumes "pipe_ok s" "p_pc s t = P_Loop op'" "\<not> is_PRead op'" "write_iter op' (p_mem s t) (pi s) = (n, p, w, bs)"
    and s': "s' = pc_goto t (next_pc n) (wake_if w True (s\<lparr>pi := p, p_signal := g\<rparr>))"
    and "sleeping s' u op" "op_ready op (pi s')"
  shows "waker op s'"
proof -
  have wf: "pipe_wf (pi s)" "op_ok op'" using pipe_okD(1) [OF assms(1)] pipe_okD(3) [OF assms(1), of t] assms(2) by auto
  have fi: "pipe_wf p" "pipe_frame (pi s) p" "p_pos (pi s) \<le> p_pos p" using write_iter_fifo [OF wf(1) assms(4)] by auto
  have "pc_queued (next_pc n) = None" by (cases n) auto
  then have u: "p_pc s u = P_Unlock op \<or> p_pc s u = P_Yield op"
    using assms(6) by (auto simp: s' sleeping_def split: if_splits)
  have sl: "sleeping s u op" "w \<longrightarrow> \<not> is_PRead op"
    using wake_sleeping [OF assms(1) _ u, of w True "s\<lparr>pi := p, p_signal := g\<rparr>"] assms(6)
    by (auto simp: s' sleeping_def)
  have mono: "waker op s'" if r: "op_ready op (pi s)" and d: "is_PRead op \<longrightarrow> op_done op' = 0"
  proof -
    have "waker op s" using pipe_okD(5) [OF assms(1) sl(1)] r by blast
    then show ?thesis
      by (rule waker_mono) (use assms(2) fi(2) d in \<open>auto simp: s' pc_waker_def pipe_frame_def split: if_splits\<close>)
  qed
  show ?thesis
  proof (cases "is_PRead op")
    case True
    then have "\<not> w" using sl(2) by blast
    then consider "p_broken p" | op1 where "n = Again op1" "\<not> is_PRead op1" "0 < op_done op1"
      | "op_done op' = 0" "can_read_or_eof p = can_read_or_eof (pi s)"
      using write_iter_wakes [OF assms(4) wf(2) assms(3) wf(1)] by metis
    then show ?thesis
    proof cases
      case 2
      then have "pc_waker True (p_pc s' t)" by (auto simp: s' pc_waker_def)
      then show ?thesis using True by (auto simp: waker_def)
    qed (use True mono assms(7) in \<open>auto simp: s' waker_def op_ready_alt\<close>)
  next
    case False
    then show ?thesis
      using mono write_ready_mono [OF _ fi(2,3,1)] assms(7) by (simp add: s' op_ready_alt)
  qed
qed

lemma pipe_ok_step:
  assumes "pipe_step s l s'" "pipe_ok s"
  shows "pipe_ok s'"
proof -
  note ok = pipe_okD [OF assms(2)]
  have "waker op s'" if w: "sleeping s' u op" "op_ready op (pi s')" for u op
    using assms(1)
  proof cases
    case (do_read t op n m p w bs)
    then show ?thesis using pipe_ok_waker_read [OF assms(2) do_read(3-5) do_read(2) w] by blast
  next
    case (do_write t op n p w bs)
    then show ?thesis using pipe_ok_waker_write [OF assms(2) do_write(3-5) do_write(2) w] by blast
  next
    case (eof_wake t)
    then have sl: "sleeping s u op \<and> \<not> is_PRead op"
      using wake_sleeping [OF assms(2), of True True s u op] w(1) by (auto simp: sleeping_def wake_if_def split: if_splits)
    show ?thesis
      by (rule waker_mono [OF ok(5) [of u op]]) (use sl w(2) eof_wake(2,3) in \<open>auto simp: pc_waker_def split: if_splits\<close>)
  next
    case (broken_wake t)
    then have sl: "sleeping s u op \<and> is_PRead op"
      using wake_sleeping [OF assms(2), of True False s u op] w(1) by (auto simp: sleeping_def wake_if_def split: if_splits)
    show ?thesis
      by (rule waker_mono [OF ok(5) [of u op]]) (use sl w(2) broken_wake(2,3) in \<open>auto simp: pc_waker_def split: if_splits\<close>)
  next
    case (set_eof t)
    then have k: "pc_waker True (p_pc s' t)" "sleeping s u op"
      using w(1) by (auto simp: pc_waker_def sleeping_def split: if_splits)
    have "waker op s'" if "\<not> is_PRead op"
      by (rule waker_mono [OF ok(5) [OF k(2)]])
        (use w(2) set_eof that in \<open>auto simp: pc_waker_def op_ready_alt write_ready_def is_full_def available_space_def split: if_splits\<close>)
    then show ?thesis using k(1) by (cases "is_PRead op") (auto simp: waker_def)
  next
    case (set_broken t)
    then have k: "pc_waker False (p_pc s' t)" by (simp add: pc_waker_def)
    then show ?thesis using set_broken(2) by (cases "is_PRead op") (auto simp: waker_def)
  next
    case (close_write t)
    show ?thesis
      by (rule waker_mono [OF ok(5) [of u op]])
        (use w close_write in \<open>auto simp: pc_waker_def sleeping_def op_ready_alt can_read_or_eof_def can_read_def
           write_ready_def is_full_def available_space_def split: if_splits\<close>)
  next
    case (close_read t)
    show ?thesis
      by (rule waker_mono [OF ok(5) [of u op]])
        (use w close_read in \<open>auto simp: pc_waker_def sleeping_def op_ready_alt can_read_or_eof_def can_read_def
           write_ready_def is_full_def available_space_def split: if_splits\<close>)
  qed (rule waker_mono [OF ok(5) [of u op]], use w in \<open>auto simp: pc_waker_def sleeping_def split: if_splits\<close>)+
  moreover have "op_ok op" if "pc_op (p_pc s' u) = Some op" for u op
    using pipe_ok_op [OF assms(1) _ that] ok(3) by blast
  moreover have "u \<in> set (op_queue op s')" if "pc_queued (p_pc s' u) = Some op" "p_tstate s' u \<noteq> THREAD_RUNNABLE" for u op
    using pipe_ok_queue [OF assms(1) _ that] ok(4) by blast
  ultimately show ?thesis
    using pipe_ok_holds [OF assms(1) ok(2)] pipe_step_fifo [OF assms(1) ok(1)] unfolding pipe_ok_def by blast
qed

lemma pipe_init_ok: "pipe_ok (pipe_init m)"
  by (simp add: pipe_ok_def pipe_init_wf) (simp add: pipe_init_def sleeping_def)

lemma pipe_run_ok: "pipe_run s ls s' \<Longrightarrow> pipe_ok s \<Longrightarrow> pipe_ok s'"
  by (induction rule: pipe_run.induct) (auto intro: pipe_ok_step)

section \<open>A writer that spins\<close>

definition spins :: "nat \<Rightarrow> pipe_op \<Rightarrow> pipe \<Rightarrow> psys \<Rightarrow> bool" where
  "spins t op p s \<longleftrightarrow> pipe_ok s \<and> (p_pc s t = P_Loop op \<or> p_pc s t = P_Wait op) \<and>
     p_buffer (pi s) = p_buffer p \<and> p_pos (pi s) = p_pos p \<and> p_size (pi s) = p_size p \<and>
     \<not> is_PRead op \<and> op_done op = 0 \<and> is_atomic_write op \<and> op_flags op AND O_NONBLOCK = 0 \<and>
     available_space p < op_len op \<and> \<not> is_full p"

lemma broken_mono:
  assumes "pipe_step s l s'" "pipe_wf (pi s)" "p_broken (pi s)"
  shows "p_broken (pi s')"
  using assms(1)
proof cases
  case (do_read t op n m p w bs)
  then show ?thesis using read_iter_fifo [OF assms(2) do_read(5)] assms(3) by (simp add: pipe_frame_def)
next
  case (do_write t op n p w bs)
  then show ?thesis using write_iter_fifo [OF assms(2) do_write(5)] assms(3) by (simp add: pipe_frame_def)
qed (use assms(3) in auto)

lemma spins_step:
  assumes "pipe_step s l s'" "spins t op p s" "\<not> p_broken (pi s')"
  shows "spins t op p s'"
proof -
  have ok: "pipe_ok s" "pipe_ok s'" using assms(2) pipe_ok_step [OF assms(1)] by (auto simp: spins_def)
  have nb: "\<not> p_broken (pi s)" using broken_mono [OF assms(1) pipe_okD(1) [OF ok(1)]] assms(3) by blast
  have t: "pc_holds (p_pc s t)" using assms(2) by (auto simp: spins_def)
  have "u = t" if "pc_holds (p_pc s u)" for u using that t pipe_okD(2) [OF ok(1)] by simp
  then have lock: "u = t" if "p_pc s u = P_Loop op'" for u op' using that by simp
  have wr: "write_ready op (pi s)" "write_blocks op (pi s)"
    using assms(2) by (auto simp: spins_def write_ready_def write_blocks_def is_full_def available_space_def op_rest_def)
  show ?thesis
    using assms(1)
  proof cases
    case (do_read u op' n m p w bs)
    then show ?thesis using lock [OF do_read(3)] assms(2) by (auto simp: spins_def)
  next
    case (do_write u op' n q w bs)
    then have "u = t" "op' = op" using lock [OF do_write(3)] assms(2) by (auto simp: spins_def)
    moreover have "n = Wait op" "q = pi s"
      using do_write(5) wr(2) nb assms(2) \<open>op' = op\<close> by (auto simp: spins_def write_iter_def split: if_splits)
    ultimately show ?thesis using assms(2) ok(2) do_write(2) by (auto simp: spins_def)
  qed (use assms(2) ok(2) wr(1) in \<open>auto simp: spins_def op_ready_alt split: if_splits\<close>)
qed

lemma spins_run:
  assumes "pipe_run s ls s'" "spins t op p s"
  shows "p_broken (pi s') \<or> spins t op p s'"
  using assms
proof (induction rule: pipe_run.induct)
  case (run_step s ls s' l s'')
  then have "pipe_wf (pi s')" using pipe_run_ok [OF run_step.hyps(1)] pipe_okD(1) by (auto simp: spins_def)
  then show ?case using run_step spins_step broken_mono by blast
qed simp

section \<open>Example runs\<close>

text \<open>Every byte of memory holds the low bits of its address.\<close>

definition demo_mem :: "nat \<Rightarrow> umem" where
  "demo_mem t = (\<lambda>a. Some (of_nat a))"

lemma demo_mem_bytes: "copy_from_user a n (demo_mem t) = (0, map of_nat [a..<a + n])"
proof (induction n arbitrary: a)
  case (Suc n)
  have "[a..<a + Suc n] = a # [Suc a..<Suc a + n]" by (simp add: upt_conv_Cons)
  then show ?case using Suc [of "Suc a"] by (simp add: demo_mem_def)
qed simp

text \<open>A writer that has the mutex; one that has put its bytes in.\<close>

definition demo_entered :: "nat \<Rightarrow> pipe_op \<Rightarrow> psys \<Rightarrow> psys" where
  "demo_entered t op s = pc_goto t (P_Loop op) ((pc_goto t (P_Lock op) s)\<lparr>pipe_lock := Some t\<rparr>)"

lemma demo_enter:
  assumes "p_pc s t = P_Idle" "pipe_lock s = None" "op_done op = 0" "pipe_run s0 ls s"
  shows "pipe_run s0 (ls @ [Tau, Tau]) (demo_entered t op s)"
proof -
  have "pipe_run s0 (ls @ [Tau]) (pc_goto t (P_Lock op) s)" 
    by (rule run_step [OF assms(4)]) (rule pipe_step.call [OF assms(1,3)])
  then have "pipe_run s0 ((ls @ [Tau]) @ [Tau]) (demo_entered t op s)"
    unfolding demo_entered_def by (rule run_step) (rule pipe_step.lock, use assms in auto)
  then show ?thesis by simp
qed

definition demo_chunk :: "nat \<Rightarrow> nat \<Rightarrow> psys \<Rightarrow> psys" where
  "demo_chunk k len s = pc_goto 0 (P_Loop (PWrite 0 len 0 k))
     (s\<lparr>pi := (pi s)\<lparr>p_buffer := splice (p_pos (pi s)) (map of_nat [0..<k]) (p_buffer (pi s)), p_pos := p_pos (pi s) + k\<rparr>\<rparr>)"

lemma demo_pipe_writes:
  assumes "p_pc s 0 = P_Loop (PWrite 0 len 0 0)" "p_mem s = demo_mem" "0 < len" "len \<le> p_size (pi s) - p_pos (pi s)"
    "\<not> p_broken (pi s)" "pipe_run s0 ls s"
  shows "pipe_run s0 (ls @ [Sent 0 (map of_nat [0..<len])]) (demo_chunk len len s)"
    "pipe_step s (Sent 0 (map of_nat [0..<len])) (demo_chunk len len s)"
proof -
  have "write_iter (PWrite 0 len 0 0) (p_mem s 0) (pi s) = (Again (PWrite 0 len 0 len),
      (pi s)\<lparr>p_buffer := splice (p_pos (pi s)) (map of_nat [0..<len]) (p_buffer (pi s)), p_pos := p_pos (pi s) + len\<rparr>, False,
      map of_nat [0..<len])"
    using assms(2-5) demo_mem_bytes [of 0 len 0]
    by (simp add: write_iter_def write_blocks_def op_rest_def available_space_def is_full_def Let_def min_def)
  from do_write [OF assms(1) _ this]
  show "pipe_step s (Sent 0 (map of_nat [0..<len])) (demo_chunk len len s)" by (simp add: demo_chunk_def wake_if_def)
  then show "pipe_run s0 (ls @ [Sent 0 (map of_nat [0..<len])]) (demo_chunk len len s)" by (rule run_step [OF assms(6)])
qed

lemma demo_simps [simp]:
  "p_pc (demo_entered t op s) = (p_pc s)(t := P_Loop op)" "p_mem (demo_entered t op s) = p_mem s" "pi (demo_entered t op s) = pi s"
  "pipe_lock (demo_entered t op s) = Some t"
  "p_pc (demo_chunk k len s) = (p_pc s)(0 := P_Loop (PWrite 0 len 0 k))" "p_mem (demo_chunk k len s) = p_mem s"
  "pipe_lock (demo_chunk k len s) = pipe_lock s" "p_pos (pi (demo_chunk k len s)) = p_pos (pi s) + k"
  "p_size (pi (demo_chunk k len s)) = p_size (pi s)" "p_broken (pi (demo_chunk k len s)) = p_broken (pi s)"
  by (simp_all add: demo_entered_def demo_chunk_def pc_goto_def fun_eq_iff)

lemma pipe_init_simps [simp]:
  "p_pc (pipe_init m) t = P_Idle" "pipe_lock (pipe_init m) = None" "p_mem (pipe_init m) = m" "p_pos (pi (pipe_init m)) = 0"
  "p_size (pi (pipe_init m)) = 65535" "\<not> p_broken (pi (pipe_init m))" "\<not> p_eof (pi (pipe_init m))" "\<not> p_signal (pipe_init m) t"
  "p_writers (pi (pipe_init m)) = 1"
  by (simp_all add: pipe_init_def new_pipe_def allocate_pipe_buffer_def default_pipe_size_def)

lemma demo_written:
  assumes "0 < len" "len \<le> 65535"
  shows "pipe_run (pipe_init demo_mem) [Tau, Tau] (demo_entered 0 (PWrite 0 len 0 0) (pipe_init demo_mem))"
    "pipe_run (pipe_init demo_mem) [Tau, Tau, Sent 0 (map of_nat [0..<len])]
      (demo_chunk len len (demo_entered 0 (PWrite 0 len 0 0) (pipe_init demo_mem)))"
proof -
  show r: "pipe_run (pipe_init demo_mem) [Tau, Tau] (demo_entered 0 (PWrite 0 len 0 0) (pipe_init demo_mem))"
    using demo_enter [OF _ _ _ run_Nil, of "pipe_init demo_mem" 0 "PWrite 0 len 0 0"] by simp
  show "pipe_run (pipe_init demo_mem) [Tau, Tau, Sent 0 (map of_nat [0..<len])]
      (demo_chunk len len (demo_entered 0 (PWrite 0 len 0 0) (pipe_init demo_mem)))"
    using demo_pipe_writes(1) [OF _ _ assms(1) _ _ r] assms(2) by simp
qed

text \<open>A reader goes to sleep; then the writing end is closed.\<close>

lemma demo_asleep:
  "\<exists>ls s. pipe_run (pipe_init demo_mem) ls s \<and> pipe_lock s = None \<and> p_pc s 0 = P_Yield (PRead 0 1 0 0) \<and>
     p_tstate s 0 \<noteq> THREAD_RUNNABLE \<and> p_eof (pi s) \<and> \<not> p_broken (pi s)"
proof -
  let ?op = "PRead 0 1 0 0" and ?init = "pipe_init demo_mem"
  let ?s1 = "demo_entered 0 ?op ?init"
  let ?s2 = "pc_goto 0 (P_Wait ?op) (wake_if False False (?s1\<lparr>pi := pi ?s1, p_mem := (p_mem ?s1)(0 := p_mem ?s1 0)\<rparr>))"
  let ?s3 = "pc_goto 0 (P_Add ?op) (p_set_state 0 THREAD_INTERRUPTIBLE ?s2)"
  let ?s4 = "pc_goto 0 (P_Test ?op) (wait_queue_add 0 ?op ?s3)"
  let ?s5 = "pc_goto 0 (P_Unlock ?op) ?s4"
  let ?s6 = "pc_goto 0 (P_Yield ?op) (?s5\<lparr>pipe_lock := None\<rparr>)"
  let ?s7 = "pc_goto 1 P_Eof (?s6\<lparr>pi := (pi ?s6)\<lparr>p_writers := p_writers (pi ?s6) - 1\<rparr>\<rparr>)"
  let ?s8 = "pc_goto 1 P_Eof_Wake (?s7\<lparr>pi := (pi ?s7)\<lparr>p_eof := True\<rparr>\<rparr>)"
  have r1: "pipe_run ?init ([] @ [Tau, Tau]) ?s1" by (rule demo_enter) (simp_all add: run_Nil)
  have "read_iter ?op (p_mem ?s1 0) (pi ?s1) = (Wait ?op, p_mem ?s1 0, pi ?s1, False, [])"
    by (simp add: read_iter_def can_read_def)
  then have "pipe_step ?s1 (Got 0 []) ?s2" using do_read [of ?s1 0 ?op "Wait ?op" _ _ False] by simp
  note r2 = run_step [OF r1 this]
  have nr: "\<not> op_ready ?op (pi ?s1)" by (simp add: can_read_or_eof_def can_read_def)
  have "pipe_step ?s2 Tau ?s3" using nr by (intro wait_sleep) simp_all
  note r3 = run_step [OF r2 this]
  have "pipe_step ?s3 Tau ?s4" by (intro pipe_step.add) simp
  note r4 = run_step [OF r3 this]
  have "pipe_step ?s4 Tau ?s5"
    using nr by (intro test_sleep) (simp_all add: pc_goto_def p_set_state_def wake_if_def demo_entered_def)
  note r5 = run_step [OF r4 this]
  have "pipe_step ?s5 Tau ?s6" by (intro unlock) simp
  note r6 = run_step [OF r5 this]
  have "pipe_step ?s6 Tau ?s7" using close_write [of ?s6 1] by simp
  note r7 = run_step [OF r6 this]
  have "pipe_step ?s7 Tau ?s8" by (intro set_eof) simp
  note r8 = run_step [OF r7 this]
  show ?thesis by (rule exI, rule exI [of _ ?s8], intro conjI, rule r8) simp_all
qed

text \<open>A writer has filled the pipe but for 535 bytes and left; another writer has the mutex.\<close>

lemma demo_spin:
  "\<exists>ls s. pipe_run (pipe_init demo_mem) ls s \<and> p_pc s 0 = P_Loop (PWrite 0 4096 0 0) \<and> available_space (pi s) = 535 \<and>
     p_size (pi s) = 65535 \<and> \<not> p_broken (pi s)"
proof -
  let ?op = "PWrite 0 65000 0 65000" and ?init = "pipe_init demo_mem"
  let ?s1 = "demo_chunk 65000 65000 (demo_entered 0 (PWrite 0 65000 0 0) ?init)"
  let ?s2 = "pc_goto 0 (P_Return 65000) (wake_if True True (?s1\<lparr>pi := pi ?s1, p_signal := p_signal ?s1\<rparr>))"
  let ?s3 = "pc_goto 0 P_Idle (?s2\<lparr>pipe_lock := None\<rparr>)"
  have r1: "pipe_run ?init [Tau, Tau, Sent 0 (map of_nat [0..<65000])] ?s1" by (rule demo_written(2)) simp_all
  have "write_iter ?op (p_mem ?s1 0) (pi ?s1) = (Return 65000, pi ?s1, True, [])" by (simp add: write_iter_def)
  then have "pipe_step ?s1 (Sent 0 []) ?s2" using do_write [of ?s1 0 ?op] by simp
  note r2 = run_step [OF r1 this]
  have "pipe_step ?s2 Tau ?s3" by (intro pipe_step.return) simp
  note r3 = run_step [OF r2 this]
  have "p_pc ?s3 0 = P_Idle" "pipe_lock ?s3 = None" by simp_all
  note r4 = demo_enter [OF this _ r3, of "PWrite 0 4096 0 0"]
  show ?thesis
    by (rule exI, rule exI [of _ "demo_entered 0 (PWrite 0 4096 0 0) ?s3"], intro conjI, rule r4)
      (simp_all add: available_space_def)
qed

section \<open>Properties\<close>

text \<open>
  C27. A pipe is a queue of bytes. However reads, writes and closes interleave, the bytes that have been written are, in
  order, those that have been read followed by those in the pipe: none is lost, duplicated or reordered. There are never
  more than 65535 bytes in the pipe.
\<close>

theorem pipe_fifo:
  assumes "pipe_run (pipe_init m) ls s"
  shows "concat (map bytes_sent ls) = concat (map bytes_got ls) @ pipe_contents (pi s) \<and>
    length (pipe_contents (pi s)) \<le> default_pipe_size"
  using pipe_run_fifo [OF assms pipe_init_wf(1)] length_pipe_contents [of "pi s"]
  by (auto simp: pipe_init_wf pipe_wf_def default_pipe_size_def)

theorem pipe_fifo_witness:
  "\<exists>s. pipe_run (pipe_init demo_mem) [Tau, Tau, Sent 0 [0, 1, 2]] s \<and> pipe_contents (pi s) = [0, 1, 2]"
proof -
  have "map of_nat [0..<3] = [0, 1, 2 :: u8]" by (simp add: upt_conv_Cons)
  then obtain s where s: "pipe_run (pipe_init demo_mem) [Tau, Tau, Sent 0 [0, 1, 2]] s"
    using demo_written(2) [of 3] by auto
  then show ?thesis using pipe_fifo [OF s] by auto
qed

text \<open>
  C28. Writes of at most \<open>PIPE_BUF\<close> bytes are atomic: if such a write puts bytes into the pipe at all, it puts all its bytes
  in at once, so that they are not interleaved with the bytes of other writers.
\<close>

theorem pipe_write_atomic:
  assumes "pipe_run (pipe_init m) ls s" "pipe_step s (Sent t bs) s'" "p_pc s t = P_Loop op" "op_len op \<le> PIPE_BUF" "bs \<noteq> []"
  shows "op_done op = 0 \<and> length bs = op_len op"
proof -
  have ok: "op_ok op" using pipe_okD(3) [OF pipe_run_ok [OF assms(1) pipe_init_ok], of t op] assms(3) by simp
  obtain n p w where i: "\<not> is_PRead op" "write_iter op (p_mem s t) (pi s) = (n, p, w, bs)"
    using assms(2,3) by cases auto
  show ?thesis
    using i(2)
  proof (cases rule: write_iter_cases)
    case (chunk k)
    then show ?thesis
      using ok i(1) assms(4) by (auto simp: op_ok_def is_atomic_write_def write_blocks_def op_rest_def)
  qed (use assms(5) in auto)
qed

theorem pipe_write_atomic_witness:
  "\<exists>s s' bs. pipe_run (pipe_init demo_mem) [Tau, Tau] s \<and> pipe_step s (Sent 0 bs) s' \<and> length bs = 3"
proof -
  have r: "pipe_run (pipe_init demo_mem) [Tau, Tau] (demo_entered 0 (PWrite 0 3 0 0) (pipe_init demo_mem))"
    using demo_written(1) [of 3] by simp
  have st: "pipe_step (demo_entered 0 (PWrite 0 3 0 0) (pipe_init demo_mem)) (Sent 0 (map of_nat [0..<3]))
      (demo_chunk 3 3 (demo_entered 0 (PWrite 0 3 0 0) (pipe_init demo_mem)))"
    using demo_pipe_writes(2) [OF _ _ _ _ _ r, of 3] by simp
  have "length (map of_nat [0..<3] :: u8 list) = 3" using pipe_write_atomic [OF r st] by simp
  then show ?thesis using r st by blast
qed

text \<open>
  C29. No wake-up is lost. If the mutex is free and a thread is asleep in a call that could go on (there is something to read or
  the writers are gone; there is room to write or the readers are gone), then a thread that closes the other end is about
  to wake it, or it is a reader and the read end is closed.
\<close>

theorem pipe_no_lost_wakeup:
  assumes "pipe_run (pipe_init m) ls s" "pipe_lock s = None" "p_pc s t = P_Yield op" "p_tstate s t \<noteq> THREAD_RUNNABLE"
    "op_ready op (pi s)"
  shows "(\<exists>u. p_pc s u = (if is_PRead op then P_Eof_Wake else P_Broken_Wake)) \<or> is_PRead op \<and> p_broken (pi s)"
proof -
  note ok = pipe_run_ok [OF assms(1) pipe_init_ok]
  have "waker op s" using pipe_okD(5) [OF ok, of t op] assms(3-5) by (simp add: sleeping_def)
  moreover have "p_pc s u \<noteq> P_Loop op'" for u op' using pipe_okD(2) [OF ok, of u] assms(2) by auto
  ultimately show ?thesis by (auto simp: waker_def pc_waker_def split: if_splits)
qed

theorem pipe_no_lost_wakeup_witness:
  "\<exists>ls s. pipe_run (pipe_init demo_mem) ls s \<and> p_pc s 0 = P_Yield (PRead 0 1 0 0) \<and> p_tstate s 0 \<noteq> THREAD_RUNNABLE \<and>
     (\<exists>u. p_pc s u = P_Eof_Wake)"
proof -
  obtain ls s where s: "pipe_run (pipe_init demo_mem) ls s" "pipe_lock s = None" "p_pc s 0 = P_Yield (PRead 0 1 0 0)"
    "p_tstate s 0 \<noteq> THREAD_RUNNABLE" "p_eof (pi s)" "\<not> p_broken (pi s)"
    using demo_asleep by blast
  then show ?thesis using pipe_no_lost_wakeup [OF s(1-4)] by (auto simp: can_read_or_eof_def)
qed

text \<open>
  C30. A blocking write of at most \<open>PIPE_BUF\<close> bytes that finds a pipe with room, but not for all of them, spins: the condition it
  waits for (\<open>!is_full()\<close>) holds already, so it tries again at once, without ever giving up the mutex. Until the last
  reader goes away no byte enters or leaves the pipe, whatever the other threads do.
\<close>

theorem pipe_write_spins:
  assumes "pipe_run s ls s'" "pipe_ok s" "p_pc s t = P_Loop (PWrite fl len buf 0)" "len \<le> PIPE_BUF" "fl AND O_NONBLOCK = 0"
    "available_space (pi s) < len" "\<not> is_full (pi s)" "\<not> p_broken (pi s')"
  shows "(p_pc s' t = P_Loop (PWrite fl len buf 0) \<or> p_pc s' t = P_Wait (PWrite fl len buf 0)) \<and>
    pipe_lock s' = Some t \<and> pipe_contents (pi s') = pipe_contents (pi s)"
proof -
  have "p_broken (pi s') \<or> spins t (PWrite fl len buf 0) (pi s) s'"
    by (rule spins_run [OF assms(1)]) (use assms(2-7) in \<open>auto simp: spins_def is_atomic_write_def\<close>)
  then show ?thesis
    using assms(8) pipe_okD(2) [of s' t] by (auto simp: spins_def pipe_contents_def)
qed

theorem pipe_write_spins_witness:
  "\<exists>ls s s'. pipe_run (pipe_init demo_mem) ls s \<and> pipe_run s [Sent 0 []] s' \<and> pipe_lock s' = Some 0 \<and>
     p_pc s' 0 = P_Wait (PWrite 0 4096 0 0)"
proof -
  let ?op = "PWrite 0 4096 0 0"
  obtain ls s where s: "pipe_run (pipe_init demo_mem) ls s" "p_pc s 0 = P_Loop ?op" "available_space (pi s) = 535"
    "p_size (pi s) = 65535" "\<not> p_broken (pi s)"
    using demo_spin by blast
  let ?s' = "pc_goto 0 (P_Wait ?op) (wake_if False True (s\<lparr>pi := pi s, p_signal := p_signal s\<rparr>))"
  have "write_iter ?op (p_mem s 0) (pi s) = (Wait ?op, pi s, False, [])"
    using s(3,5) by (simp add: write_iter_def write_blocks_def op_rest_def is_atomic_write_def)
  then have "pipe_step s (Sent 0 []) ?s'" using do_write [OF s(2), of "Wait ?op" _ False] by simp
  then have r: "pipe_run s [Sent 0 []] ?s'" using run_step [OF run_Nil] by fastforce
  have f: "\<not> is_full (pi s)" using s(3) by (simp add: is_full_def available_space_def)
  have "pipe_lock ?s' = Some 0"
    using pipe_write_spins [OF r pipe_run_ok [OF s(1) pipe_init_ok] s(2) _ _ _ f] s(3,5) by simp
  then show ?thesis using s(1) r by (intro exI [of _ ls] exI [of _ s] exI [of _ ?s']) simp
qed

end
