(* ===== verification/Dcache.thy ===== *)
theory Dcache
  imports Fd_Syscalls
begin

text \<open>
  The directory cache of \<open>kernel/kernel/fs/dentry.cpp\<close>: dentries, the hash table that finds a dentry by its parent and
  name, their reference counts, the creation of dentries (as pending lookups that are completed or failed), their destruction,
  and the lookup of one name in a directory.

  The state of the name space (\<open>ns\<close>) adds the dentries, the hash table and the root of the file system to the state of a system call.
  The counts \<open>d_ref\<close> are those of \<open>Vfs_Objects\<close>; here the destruction of a dentry, an event there, is carried out. The operations of
  a file system on its directories (\<open>i_fops\<close>) are the parameter \<open>nenv\<close>; those of tmpfs are in \<open>Dentry_Ops\<close>.

  One thread is modelled: the locks of the dentries, of the hash table's buckets and of renaming are left out, and waiting for
  another thread's lookup is waiting for ever (\<open>None\<close>). The addresses of objects are never used again.
\<close>

unbundle bit_operations_syntax

section \<open>Dentries and the name space\<close>

type_synonym name = "u8 list"

record dent =
  d_name :: name
  d_inline :: bool
  d_name_hash :: u32
  d_inode :: "nat option"
  d_parent :: "nat option"
  d_children :: "nat list"
  d_mount_dentry :: "nat option"
  d_flags :: u16

text \<open>\<open>d_name\<close> is the \<open>d_name_length\<close> bytes the pointer of that name points to; \<open>d_inline\<close> says that it points to
  \<open>d_inline_name\<close>.\<close>

definition INLINE_NAME_MAX :: nat where "INLINE_NAME_MAX = 40"

definition DENTRY_FLAG_MOUNTPOINT :: u16 where "DENTRY_FLAG_MOUNTPOINT = 1"
definition DENTRY_FLAG_MOUNT_ROOT :: u16 where "DENTRY_FLAG_MOUNT_ROOT = 2"
definition DENTRY_FLAG_PENDING :: u16 where "DENTRY_FLAG_PENDING = 4"
definition DENTRY_FLAG_FAILED :: u16 where "DENTRY_FLAG_FAILED = 8"

record ns =
  sy :: sys
  dents :: "nat \<rightharpoonup> dent"
  dentry_ht :: "nat \<Rightarrow> nat list"
  fs_root :: nat
  boot_dentry :: "nat option"
  next_obj :: nat
  sb_curr_inode :: "u64 \<Rightarrow> u64"

text \<open>\<open>fs_root\<close> is the open file of the root directory (\<open>get_filesystem_root\<close>), \<open>boot_dentry\<close> the variable
  \<open>root_dentry\<close> (the dentry that was mounted as root last), \<open>next_obj\<close> the address of the next object that is
  allocated, \<open>sb_curr_inode\<close> the counter of inode numbers of the tmpfs on a device (\<open>tmpfs_superblock::curr_inode\<close>).\<close>

text \<open>
  The operations of the file system a directory belongs to. A null inode is \<open>None\<close>; a null function pointer, which the code would call,
  is a function that gives \<open>None\<close>; a null \<open>on_open\<close>, which is not called, gives 0. \<open>ne_special\<close> is \<open>inode_special_init\<close>, which finds the driver of a device node.
\<close>

record nenv =
  ne_s :: senv
  ne_special :: "inode \<Rightarrow> int \<times> inode"
  fs_open :: "nat \<Rightarrow> name \<Rightarrow> ns \<Rightarrow> (nat option \<times> ns) option"
  fs_creat :: "name \<Rightarrow> u32 \<Rightarrow> nat \<Rightarrow> ns \<Rightarrow> (nat option \<times> ns) option"
  fs_mkdir :: "name \<Rightarrow> u32 \<Rightarrow> nat \<Rightarrow> ns \<Rightarrow> (nat option \<times> ns) option"
  fs_mknod :: "name \<Rightarrow> u32 \<Rightarrow> u64 \<Rightarrow> nat \<Rightarrow> ns \<Rightarrow> (nat option \<times> ns) option"
  fs_symlink :: "name \<Rightarrow> name \<Rightarrow> nat \<Rightarrow> ns \<Rightarrow> (nat option \<times> ns) option"
  fs_link :: "nat \<Rightarrow> name \<Rightarrow> nat \<Rightarrow> ns \<Rightarrow> (int \<times> ns) option"
  fs_unlink :: "name \<Rightarrow> u32 \<Rightarrow> nat \<Rightarrow> ns \<Rightarrow> (int \<times> ns) option"
  fs_on_open :: "nat \<Rightarrow> ns \<Rightarrow> (int \<times> ns) option"

definition set_ks :: "kst \<Rightarrow> ns \<Rightarrow> ns" where
  "set_ks k n = n\<lparr>sy := (sy n)\<lparr>ks := k\<rparr>\<rparr>"

definition set_errno :: "int \<Rightarrow> ns \<Rightarrow> ns" where
  "set_errno e n = n\<lparr>sy := (sy n)\<lparr>errno := e\<rparr>\<rparr>"

definition on_ks :: "(kst \<Rightarrow> kst option) \<Rightarrow> ns \<Rightarrow> ns option" where
  "on_ks f n = do { k \<leftarrow> f (ks (sy n)); Some (set_ks k n) }"

definition set_dent :: "nat \<Rightarrow> dent \<Rightarrow> ns \<Rightarrow> ns" where
  "set_dent d de n = n\<lparr>dents := (dents n)(d \<mapsto> de)\<rparr>"

definition upd_dent :: "nat \<Rightarrow> (dent \<Rightarrow> dent) \<Rightarrow> ns \<Rightarrow> ns option" where
  "upd_dent d f n = do { de \<leftarrow> dents n d; Some (set_dent d (f de) n) }"

definition dent_inode :: "nat \<Rightarrow> ns \<Rightarrow> (nat \<times> inode) option" where
  "dent_inode d n = do {
     de \<leftarrow> dents n d;
     i \<leftarrow> d_inode de;
     ino \<leftarrow> inodes (ks (sy n)) i;
     Some (i, ino)
   }"

definition kalloc :: "nenv \<Rightarrow> ns \<Rightarrow> bool \<times> ns" where
  "kalloc E n = (let (b, k) = malloc (se_k (ne_s E)) (ks (sy n)) in (b, set_ks k n))"

section \<open>Hashing\<close>

definition FNV_PRIME :: u32 where "FNV_PRIME = 16777619"
definition FNV_OFFSET_BASIS :: u32 where "FNV_OFFSET_BASIS = 2166136261"

definition fnv_hash_cont :: "u8 list \<Rightarrow> u32 \<Rightarrow> u32" where
  "fnv_hash_cont data hash = foldl (\<lambda>h b. (h * FNV_PRIME) XOR ucast b) hash data"

definition fnv_hash :: "u8 list \<Rightarrow> u32" where
  "fnv_hash data = fnv_hash_cont data FNV_OFFSET_BASIS"

text \<open>The bytes of a pointer in memory.\<close>

definition ptr_bytes :: "nat \<Rightarrow> u8 list" where
  "ptr_bytes p = map (\<lambda>i. ucast (drop_bit (8 * i) (of_nat p :: u64))) [0..<8]"

definition hash_dentry_fields :: "nat \<Rightarrow> name \<Rightarrow> u32" where
  "hash_dentry_fields parent name = fnv_hash_cont name (fnv_hash (ptr_bytes parent))"

definition dentry_ht_index :: "nat \<Rightarrow> name \<Rightarrow> nat" where
  "dentry_ht_index parent name = unat (hash_dentry_fields parent name) mod 1024"

section \<open>References and destruction\<close>

definition dget :: "nat \<Rightarrow> ns \<Rightarrow> ns option" where
  "dget d = on_ks (dentry_get d)"

definition inode_ref :: "nat \<Rightarrow> kst \<Rightarrow> kst option" where
  "inode_ref i k = do { ino \<leftarrow> inodes k i; Some (k\<lparr>inodes := (inodes k)(i \<mapsto> ino\<lparr>i_refc := i_refc ino + 1\<rparr>)\<rparr>) }"

text \<open>
  The node of a dentry in the hash table is taken out of the list it is in. A dentry that was never put into the table has a node
  that was never initialised.
\<close>

definition dentry_remove_from_cache :: "nat \<Rightarrow> ns \<Rightarrow> ns option" where
  "dentry_remove_from_cache d n =
     (if list_ex (\<lambda>i. d \<in> set (dentry_ht n i)) [0..<1024]
      then Some (n\<lparr>dentry_ht := (\<lambda>i. removeAll d (dentry_ht n i))\<rparr>) else None)"

definition remove_child :: "nat \<Rightarrow> nat \<Rightarrow> ns \<Rightarrow> ns option" where
  "remove_child p d = upd_dent p (\<lambda>pe. pe\<lparr>d_children := removeAll d (d_children pe)\<rparr>)"

partial_function (option) dput :: "nat \<Rightarrow> ns \<Rightarrow> ns option" where
  "dput d n = do {
     n1 \<leftarrow> on_ks (dentry_put (Some d)) n;
     if drefs (ks (sy n1)) d \<noteq> None then Some n1
     else do {
       de \<leftarrow> dents n1 d;
       n4 \<leftarrow> (case d_parent de of
                None \<Rightarrow> Some n1
              | Some p \<Rightarrow> do {
                  n2 \<leftarrow> remove_child p d n1;
                  n3 \<leftarrow> dentry_remove_from_cache d n2;
                  dput p n3
                });
       n5 \<leftarrow> (case d_inode de of None \<Rightarrow> Some n4 | Some i \<Rightarrow> on_ks (inode_unref i) n4);
       Some (n5\<lparr>dents := (dents n5)(d := None)\<rparr>)
     }
   }"

definition dentry_destroy :: "nat \<Rightarrow> ns \<Rightarrow> ns option" where
  "dentry_destroy d n = do {
     de \<leftarrow> dents n d;
     n3 \<leftarrow> (case d_parent de of
              None \<Rightarrow> Some n
            | Some p \<Rightarrow> do {
                n1 \<leftarrow> remove_child p d n;
                n2 \<leftarrow> dentry_remove_from_cache d n1;
                dput p n2
              });
     n4 \<leftarrow> (case d_inode de of None \<Rightarrow> Some n3 | Some i \<Rightarrow> on_ks (inode_unref i) n3);
     Some (n4\<lparr>dents := (dents n4)(d := None)\<rparr>)
   }"

text \<open>\<open>dentry_put\<close> as it is written: the last reference destroys the dentry.\<close>

lemma dput_eq:
  "dput d n = do {
     n1 \<leftarrow> on_ks (dentry_put (Some d)) n;
     if drefs (ks (sy n1)) d \<noteq> None then Some n1 else dentry_destroy d n1
   }"
  unfolding dentry_destroy_def by (rule dput.simps)

section \<open>Creation\<close>

definition dentry_is_dir :: "nat \<Rightarrow> ns \<Rightarrow> bool option" where
  "dentry_is_dir d n = do { (i, ino) \<leftarrow> dent_inode d n; Some (S_ISDIR (i_mode ino)) }"

text \<open>The bytes of the name as they are stored: \<open>strlcpy\<close> into the inline buffer of 40 bytes copies at most 39 and terminates them.\<close>

definition stored_name :: "name \<Rightarrow> name" where
  "stored_name nm = (if length nm = INLINE_NAME_MAX then take (INLINE_NAME_MAX - 1) nm @ [0] else nm)"

definition dentry_create :: "nenv \<Rightarrow> name \<Rightarrow> nat option \<Rightarrow> nat option \<Rightarrow> ns \<Rightarrow> (nat option \<times> ns) option" where
  "dentry_create E nm ino parent n = do {
     ok \<leftarrow> (case parent of None \<Rightarrow> Some True | Some p \<Rightarrow> dentry_is_dir p n);
     if \<not> ok then Some (None, set_errno ENOTDIR n)
     else
       (let (m, n1) = kalloc E n;
            (m', n2) = (if m \<and> INLINE_NAME_MAX < length nm then kalloc E n1 else (m, n1))
        in if \<not> m' then Some (None, n2)
           else do {
             let d = next_obj n2;
             let k = (ks (sy n2))\<lparr>drefs := (drefs (ks (sy n2)))(d \<mapsto> 1)\<rparr>;
             let de = \<lparr>d_name = stored_name nm, d_inline = (length nm \<le> INLINE_NAME_MAX), d_name_hash = fnv_hash (stored_name nm),
                       d_inode = ino, d_parent = parent, d_children = [], d_mount_dentry = None, d_flags = 0\<rparr>;
             let n3 = (set_dent d de (set_ks k n2))\<lparr>next_obj := d + 1\<rparr>;
             n4 \<leftarrow> (case ino of None \<Rightarrow> Some n3 | Some i \<Rightarrow> on_ks (inode_ref i) n3);
             n5 \<leftarrow> (case parent of
                      None \<Rightarrow> Some n4
                    | Some p \<Rightarrow> do {
                        n5 \<leftarrow> upd_dent p (\<lambda>pe. pe\<lparr>d_children := d_children pe @ [d]\<rparr>) n4;
                        dget p n5
                      });
             Some (Some d, n5)
           })
   }"

section \<open>Looking up one name\<close>

definition dentry_matches :: "nat \<Rightarrow> name \<Rightarrow> dent \<Rightarrow> bool" where
  "dentry_matches parent nm de \<longleftrightarrow> d_parent de = Some parent \<and> d_name_hash de = fnv_hash nm \<and> d_name de = nm"

fun cache_scan :: "ns \<Rightarrow> nat \<Rightarrow> name \<Rightarrow> nat list \<Rightarrow> nat option option" where
  "cache_scan n parent nm [] = Some None"
| "cache_scan n parent nm (d # ds) = do {
     de \<leftarrow> dents n d;
     if dentry_matches parent nm de then Some (Some d) else cache_scan n parent nm ds
   }"

definition dentry_open_from_cache :: "nat \<Rightarrow> name \<Rightarrow> ns \<Rightarrow> (nat option \<times> ns) option" where
  "dentry_open_from_cache parent nm n = do {
     r \<leftarrow> cache_scan n parent nm (dentry_ht n (dentry_ht_index parent nm));
     case r of
       None \<Rightarrow> Some (None, n)
     | Some d \<Rightarrow> do { n1 \<leftarrow> dget d n; Some (Some d, n1) }
   }"

definition dentry_wait_for_pending :: "nat \<Rightarrow> ns \<Rightarrow> (nat option \<times> ns) option" where
  "dentry_wait_for_pending d n = do {
     de \<leftarrow> dents n d;
     if d_flags de AND DENTRY_FLAG_PENDING \<noteq> 0 then None
     else if d_flags de AND DENTRY_FLAG_FAILED \<noteq> 0 then do { n1 \<leftarrow> dput d n; Some (None, n1) }
     else if d_inode de = None then None
     else Some (Some d, n)
   }"

definition dentry_create_pending_lookup ::
  "nenv \<Rightarrow> name \<Rightarrow> nat option \<Rightarrow> nat \<Rightarrow> bool \<Rightarrow> ns \<Rightarrow> ((int + nat) \<times> ns) option" where
  "dentry_create_pending_lookup E nm ino parent check_existance n = do {
     (r, n1) \<leftarrow> dentry_open_from_cache parent nm n;
     (r', n2) \<leftarrow> (case r of None \<Rightarrow> Some (None, n1) | Some d \<Rightarrow> dentry_wait_for_pending d n1);
     case r' of
       Some d \<Rightarrow> Some (if check_existance then Inl (- EEXIST) else Inr d, n2)
     | None \<Rightarrow> do {
         (c, n3) \<leftarrow> dentry_create E nm ino (Some parent) n2;
         case c of
           None \<Rightarrow> Some (Inl (- ENOMEM), n3)
         | Some d \<Rightarrow> do {
             n4 \<leftarrow> upd_dent d (\<lambda>de. de\<lparr>d_flags := d_flags de OR DENTRY_FLAG_PENDING\<rparr>) n3;
             let i = dentry_ht_index parent nm;
             Some (Inr d, n4\<lparr>dentry_ht := (dentry_ht n4)(i := dentry_ht n4 i @ [d])\<rparr>)
           }
       }
   }"

definition dentry_fail_lookup :: "nat \<Rightarrow> ns \<Rightarrow> ns option" where
  "dentry_fail_lookup d n = do {
     n1 \<leftarrow> dentry_remove_from_cache d n;
     de \<leftarrow> dents n1 d;
     p \<leftarrow> d_parent de;
     n2 \<leftarrow> remove_child p d n1;
     n3 \<leftarrow> dput p n2;
     n4 \<leftarrow> upd_dent d (\<lambda>de. de\<lparr>d_parent := None,
             d_flags := (d_flags de OR DENTRY_FLAG_FAILED) AND NOT DENTRY_FLAG_PENDING\<rparr>) n3;
     dput d n4
   }"

definition dentry_complete_lookup :: "nat \<Rightarrow> ns \<Rightarrow> ns option" where
  "dentry_complete_lookup d = upd_dent d (\<lambda>de. de\<lparr>d_flags := d_flags de AND NOT DENTRY_FLAG_PENDING\<rparr>)"

definition dentry_kill_unlocked :: "nat \<Rightarrow> ns \<Rightarrow> ns option" where
  "dentry_kill_unlocked d n = do {
     de \<leftarrow> dents n d;
     if drefs (ks (sy n)) d \<noteq> Some 1 then None
     else do {
       n3 \<leftarrow> (case d_parent de of
                None \<Rightarrow> Some n
              | Some p \<Rightarrow> do {
                  n1 \<leftarrow> remove_child p d n;
                  n2 \<leftarrow> dput p n1;
                  upd_dent d (\<lambda>de. de\<lparr>d_parent := None\<rparr>) n2
                });
       n4 \<leftarrow> dentry_remove_from_cache d n3;
       n5 \<leftarrow> dentry_destroy d n4;
       on_ks (\<lambda>k. Some (k\<lparr>drefs := (drefs k)(d := None)\<rparr>)) n5
     }
   }"

text \<open>The lock of an inode, taken and released around the operations of the file system.\<close>

definition upd_inode :: "nat \<Rightarrow> (inode \<Rightarrow> inode option) \<Rightarrow> ns \<Rightarrow> ns option" where
  "upd_inode i f n = do {
     ino \<leftarrow> inodes (ks (sy n)) i;
     ino' \<leftarrow> f ino;
     Some (n\<lparr>sy := set_inode i ino' (sy n)\<rparr>)
   }"

definition ilock_read :: "nat \<Rightarrow> ns \<Rightarrow> ns option" where
  "ilock_read i = upd_inode i (\<lambda>ino. map_option (\<lambda>l. ino\<lparr>i_rwlock := l\<rparr>) (rw_lock_read (i_rwlock ino)))"

definition iunlock_read :: "nat \<Rightarrow> ns \<Rightarrow> ns option" where
  "iunlock_read i = upd_inode i (\<lambda>ino. Some (ino\<lparr>i_rwlock := rw_unlock_read (i_rwlock ino)\<rparr>))"

definition ilock_write :: "nat \<Rightarrow> ns \<Rightarrow> ns option" where
  "ilock_write i = upd_inode i (\<lambda>ino. map_option (\<lambda>l. ino\<lparr>i_rwlock := l\<rparr>) (rw_lock_write (i_rwlock ino)))"

definition iunlock_write :: "nat \<Rightarrow> ns \<Rightarrow> ns option" where
  "iunlock_write i = upd_inode i (\<lambda>ino. Some (ino\<lparr>i_rwlock := rw_unlock_write (i_rwlock ino)\<rparr>))"

definition dentry_try_to_open :: "nenv \<Rightarrow> name \<Rightarrow> nat \<Rightarrow> ns \<Rightarrow> (nat option \<times> ns) option" where
  "dentry_try_to_open E nm dir n = do {
     (r, n1) \<leftarrow> dentry_open_from_cache dir nm n;
     case r of
       Some d \<Rightarrow> do {
         de \<leftarrow> dents n1 d;
         if d_flags de AND DENTRY_FLAG_PENDING \<noteq> 0 then dentry_wait_for_pending d n1 else Some (Some d, n1)
       }
     | None \<Rightarrow> do {
         (pino, ino) \<leftarrow> dent_inode dir n1;
         if \<not> i_has_sb ino then None
         else if i_sb_in_memory ino then Some (None, set_errno ENOENT n1)
         else do {
           (ex, n2) \<leftarrow> dentry_create_pending_lookup E nm None dir False n1;
           case ex of
             Inl e \<Rightarrow> Some (None, set_errno (- e) n2)
           | Inr d \<Rightarrow> do {
               de \<leftarrow> dents n2 d;
               if d_flags de AND DENTRY_FLAG_PENDING = 0 then Some (Some d, n2)
               else do {
                 n3 \<leftarrow> ilock_read pino n2;
                 (oi, n4) \<leftarrow> fs_open E dir nm n3;
                 n5 \<leftarrow> iunlock_read pino n4;
                 case oi of
                   None \<Rightarrow> do { n6 \<leftarrow> dentry_fail_lookup d n5; Some (None, n6) }
                 | Some i \<Rightarrow> do {
                     n6 \<leftarrow> upd_dent d (\<lambda>de. de\<lparr>d_inode := Some i\<rparr>) n5;
                     n7 \<leftarrow> dget d n6;
                     isdir \<leftarrow> dentry_is_dir d n7;
                     n8 \<leftarrow> (if isdir then upd_inode i (\<lambda>ino. Some (ino\<lparr>i_dentry := Some d\<rparr>)) n7 else Some n7);
                     n9 \<leftarrow> dentry_complete_lookup d n8;
                     Some (Some d, n9)
                   }
               }
             }
         }
       }
   }"

definition dentry_parent :: "nat \<Rightarrow> ns \<Rightarrow> (nat option \<times> ns) option" where
  "dentry_parent d n = do {
     de \<leftarrow> dents n d;
     case d_parent de of
       None \<Rightarrow> Some (None, n)
     | Some p \<Rightarrow> do { n1 \<leftarrow> dget p n; Some (Some p, n1) }
   }"

definition DENTRY_LOOKUP_DONT_TRY_TO_RESOLVE :: u16 where "DENTRY_LOOKUP_DONT_TRY_TO_RESOLVE = 2"

abbreviation (input) dot :: name where "dot \<equiv> [46]"
abbreviation (input) dotdot :: name where "dotdot \<equiv> [46, 46]"

definition dentry_lookup_internal :: "nenv \<Rightarrow> name \<Rightarrow> nat \<Rightarrow> u16 \<Rightarrow> ns \<Rightarrow> (nat option \<times> ns) option" where
  "dentry_lookup_internal E v dir flags n = do {
     let resolve = (flags AND DENTRY_LOOKUP_DONT_TRY_TO_RESOLVE = 0);
     isdir \<leftarrow> dentry_is_dir dir n;
     if \<not> isdir then Some (None, set_errno ENOTDIR n)
     else if v = dot then do { n1 \<leftarrow> dget dir n; Some (Some dir, n1) }
     else if v = dotdot then do {
       (p, n1) \<leftarrow> dentry_parent dir n;
       let dent = (case p of None \<Rightarrow> dir | Some p \<Rightarrow> p);
       n2 \<leftarrow> dget dent n1;
       Some (Some dent, n2)
     }
     else do {
       (r, n1) \<leftarrow> dentry_open_from_cache dir v n;
       (r', n2) \<leftarrow> (case r of
                     None \<Rightarrow> Some (None, n1)
                   | Some d \<Rightarrow> do {
                       de \<leftarrow> dents n1 d;
                       if d_flags de AND DENTRY_FLAG_PENDING \<noteq> 0 then dentry_wait_for_pending d n1 else Some (Some d, n1)
                     });
       case r' of
         Some d \<Rightarrow> Some (Some d, n2)
       | None \<Rightarrow> if resolve then dentry_try_to_open E v dir n2 else Some (None, n2)
     }
   }"

definition dentry_is_empty :: "nat \<Rightarrow> ns \<Rightarrow> bool option" where
  "dentry_is_empty d n = do { de \<leftarrow> dents n d; Some (d_children de = []) }"

end
