(* ===== verification/Dentry_Ops.thy ===== *)
theory Dentry_Ops
  imports Dcache
begin

text \<open>
  What happens at the last name of a path (\<open>kernel/kernel/fs/dentry.cpp\<close>): creating a file, directory or node, a symbolic
  link or a hard link, unlinking, and renaming. Each is a class there, derived from \<open>last_name_handling\<close>; the walk of \<open>Namei\<close> calls it
  with the directory it has reached and the name.

  The directory operations of tmpfs (\<open>kernel/kernel/fs/tmpfs.cpp\<close>), a file system that lives in the dentry cache, are at the end.
\<close>

unbundle bit_operations_syntax

section \<open>Lookup data\<close>

text \<open>\<open>file_creation_helper\<close> and the like pass an object of one of these classes; \<open>Link\<close> has the open file to link to,
  \<open>Rename\<close> the dentry to move.\<close>

datatype create_file_type = C_creat | C_mknod | C_mkdir

datatype last_name_handling =
    Create create_file_type u32 u64
  | Symlink name
  | Link nat
  | Unlink u32
  | Rename nat

record nameidata =
  nd_view :: name
  nd_pos :: nat
  nd_root :: nat
  nd_location :: "nat option"
  nd_last :: bool
  nd_nloops :: nat
  nd_handler :: "last_name_handling option"
  nd_flags :: u32

definition OPEN_FLAG_NOFOLLOW :: u32 where "OPEN_FLAG_NOFOLLOW = 1"
definition OPEN_FLAG_FAIL_IF_LINK :: u32 where "OPEN_FLAG_FAIL_IF_LINK = 2"
definition OPEN_FLAG_MUST_BE_DIR :: u32 where "OPEN_FLAG_MUST_BE_DIR = 4"
definition LOOKUP_FLAG_INTERNAL_TRAILING_SLASH :: u32 where "LOOKUP_FLAG_INTERNAL_TRAILING_SLASH = 8"
definition OPEN_FLAG_EMPTY_PATH :: u32 where "OPEN_FLAG_EMPTY_PATH = 16"

definition AT_REMOVEDIR :: u32 where "AT_REMOVEDIR = 0x200"
definition UNLINK_VFS_DONT_TEST_EMPTY :: u32 where "UNLINK_VFS_DONT_TEST_EMPTY = 0x1000000"

definition ino_access :: "nat \<Rightarrow> u32 \<Rightarrow> ns \<Rightarrow> (bool \<times> ns) option" where
  "ino_access i perms n = do {
     ino \<leftarrow> inodes (ks (sy n)) i;
     (b, c) \<leftarrow> inode_can_access ino perms (cr (sy n));
     Some (b, n\<lparr>sy := (sy n)\<lparr>cr := c\<rparr>\<rparr>)
   }"

section \<open>Creating\<close>

definition create_handling ::
  "nenv \<Rightarrow> create_file_type \<Rightarrow> u32 \<Rightarrow> u64 \<Rightarrow> nameidata \<Rightarrow> name \<Rightarrow> ns \<Rightarrow> ((int + nat) \<times> ns) option" where
  "create_handling E ty mode dev data nm n = do {
     dir \<leftarrow> nd_location data;
     (i, ino) \<leftarrow> dent_inode dir n;
     (ok, n1) \<leftarrow> ino_access i FILE_ACCESS_WRITE n;
     if \<not> ok then Some (Inl (- EACCES), n1)
     else if ty \<noteq> C_mkdir \<and> nd_flags data AND LOOKUP_FLAG_INTERNAL_TRAILING_SLASH \<noteq> 0 then Some (Inl (- ENOTDIR), n1)
     else do {
       (st, n2) \<leftarrow> dentry_create_pending_lookup E nm None dir True n1;
       case st of
         Inl e \<Rightarrow> Some (Inl e, n2)
       | Inr d \<Rightarrow> do {
           n3 \<leftarrow> ilock_write i n2;
           (new_inode, n4) \<leftarrow> (case ty of
                                 C_creat \<Rightarrow> fs_creat E nm mode dir n3
                               | C_mkdir \<Rightarrow> fs_mkdir E nm mode dir n3
                               | C_mknod \<Rightarrow> fs_mknod E nm mode dev dir n3);
           case new_inode of
             None \<Rightarrow> do {
               n5 \<leftarrow> iunlock_write i n4;
               n6 \<leftarrow> dentry_fail_lookup d n5;
               Some (Inl (- errno (sy n6)), n6)
             }
           | Some j \<Rightarrow> do {
               n5 \<leftarrow> dget d n4;
               n6 \<leftarrow> (if ty = C_mkdir then upd_inode j (\<lambda>ino. Some (ino\<lparr>i_dentry := Some d\<rparr>)) n5 else Some n5);
               n7 \<leftarrow> upd_dent d (\<lambda>de. de\<lparr>d_inode := Some j\<rparr>) n6;
               n8 \<leftarrow> dentry_complete_lookup d n7;
               n9 \<leftarrow> iunlock_write i n8;
               Some (Inr d, n9)
             }
         }
     }
   }"

definition symlink_handling :: "nenv \<Rightarrow> name \<Rightarrow> nameidata \<Rightarrow> name \<Rightarrow> ns \<Rightarrow> ((int + nat) \<times> ns) option" where
  "symlink_handling E dest data nm n = do {
     dir \<leftarrow> nd_location data;
     (i, ino) \<leftarrow> dent_inode dir n;
     (ok, n1) \<leftarrow> ino_access i FILE_ACCESS_WRITE n;
     if \<not> ok then Some (Inl (- EACCES), n1)
     else do {
       (st, n2) \<leftarrow> dentry_create_pending_lookup E nm None dir True n1;
       case st of
         Inl e \<Rightarrow> Some (Inl e, n2)
       | Inr d \<Rightarrow> do {
           n3 \<leftarrow> ilock_write i n2;
           (new_ino, n4) \<leftarrow> fs_symlink E nm dest dir n3;
           case new_ino of
             None \<Rightarrow> do {
               n5 \<leftarrow> iunlock_write i n4;
               n6 \<leftarrow> dentry_fail_lookup d n5;
               Some (Inl (- errno (sy n6)), n6)
             }
           | Some j \<Rightarrow> do {
               n5 \<leftarrow> upd_dent d (\<lambda>de. de\<lparr>d_inode := Some j\<rparr>) n4;
               n6 \<leftarrow> dget d n5;
               n7 \<leftarrow> dentry_complete_lookup d n6;
               n8 \<leftarrow> iunlock_write i n7;
               Some (Inr d, n8)
             }
         }
     }
   }"

text \<open>\<open>inode_inc_nlink\<close> and \<open>inode_dec_nlink\<close>: the count is unsigned and wraps around.\<close>

definition change_nlink :: "u64 \<Rightarrow> nat \<Rightarrow> ns \<Rightarrow> ns option" where
  "change_nlink delta i n = do {
     ino \<leftarrow> inodes (ks (sy n)) i;
     Some (n\<lparr>sy := set_dirty i (inode_mark_dirty (ino\<lparr>i_nlink := i_nlink ino + delta\<rparr>)) (sy n)\<rparr>)
   }"

definition inode_inc_nlink :: "nat \<Rightarrow> ns \<Rightarrow> ns option" where "inode_inc_nlink = change_nlink 1"
definition inode_dec_nlink :: "nat \<Rightarrow> ns \<Rightarrow> ns option" where "inode_dec_nlink = change_nlink (- 1)"

definition link_handling :: "nenv \<Rightarrow> nat \<Rightarrow> nameidata \<Rightarrow> name \<Rightarrow> ns \<Rightarrow> ((int + nat) \<times> ns) option" where
  "link_handling E dest data nm n = do {
     dir \<leftarrow> nd_location data;
     (i, ino) \<leftarrow> dent_inode dir n;
     (fl, dest_ino) \<leftarrow> file_inode dest (sy n);
     (ok, n1) \<leftarrow> ino_access i FILE_ACCESS_WRITE n;
     if \<not> ok then Some (Inl (- EACCES), n1)
     else if i_dev ino \<noteq> i_dev dest_ino then Some (Inl (- EXDEV), n1)
     else do {
       (st, n2) \<leftarrow> dentry_create_pending_lookup E nm (Some (f_ino fl)) dir True n1;
       case st of
         Inl e \<Rightarrow> Some (Inl e, n2)
       | Inr d \<Rightarrow> do {
           n3 \<leftarrow> ilock_write i n2;
           (st, n4) \<leftarrow> fs_link E (f_ino fl) nm dir n3;
           if st < 0 then do {
             n5 \<leftarrow> iunlock_write i n4;
             n6 \<leftarrow> dentry_fail_lookup d n5;
             Some (Inl st, n6)
           }
           else do {
             n5 \<leftarrow> inode_inc_nlink (f_ino fl) n4;
             n6 \<leftarrow> dget d n5;
             n7 \<leftarrow> dentry_complete_lookup d n6;
             n8 \<leftarrow> iunlock_write i n7;
             Some (Inr d, n8)
           }
         }
     }
   }"

section \<open>Unlinking\<close>

definition dentry_do_unlink :: "nat \<Rightarrow> ns \<Rightarrow> ns option" where
  "dentry_do_unlink d n = do {
     de \<leftarrow> dents n d;
     n1 \<leftarrow> upd_dent d (\<lambda>de. de\<lparr>d_parent := None\<rparr>) n;
     i \<leftarrow> d_inode de;
     n2 \<leftarrow> inode_dec_nlink i n1;
     isdir \<leftarrow> dentry_is_dir d n2;
     n4 \<leftarrow> (if isdir then do {
              p \<leftarrow> d_parent de;
              (j, pino) \<leftarrow> dent_inode p n2;
              n3 \<leftarrow> inode_dec_nlink j n2;
              inode_dec_nlink i n3
            } else Some n2);
     n5 \<leftarrow> dentry_remove_from_cache d n4;
     n6 \<leftarrow> (case d_parent de of None \<Rightarrow> None | Some p \<Rightarrow> remove_child p d n5);
     dput d n6
   }"

definition dentry_involved_with_mount :: "nat \<Rightarrow> ns \<Rightarrow> bool option" where
  "dentry_involved_with_mount d n = do {
     de \<leftarrow> dents n d;
     Some (d_flags de AND (DENTRY_FLAG_MOUNTPOINT OR DENTRY_FLAG_MOUNT_ROOT) \<noteq> 0)
   }"

definition unlink_handling :: "nenv \<Rightarrow> u32 \<Rightarrow> nameidata \<Rightarrow> name \<Rightarrow> ns \<Rightarrow> ((int + nat) \<times> ns) option" where
  "unlink_handling E flags data nm n =
     (if nm = dot \<or> nm = dotdot then Some (Inl (- EINVAL), n)
      else do {
        dir \<leftarrow> nd_location data;
        (i, ino) \<leftarrow> dent_inode dir n;
        (ok, n1) \<leftarrow> ino_access i FILE_ACCESS_WRITE n;
        if \<not> ok then Some (Inl (- EACCES), n1)
        else do {
          (r, n2) \<leftarrow> dentry_lookup_internal E nm dir 0 n1;
          case r of
            None \<Rightarrow> Some (Inl (- errno (sy n2)), n2)
          | Some child \<Rightarrow> do {
              mnt \<leftarrow> dentry_involved_with_mount child n2;
              if mnt then do { n3 \<leftarrow> dput child n2; Some (Inl (- EBUSY), n3) }
              else do {
                n3 \<leftarrow> ilock_write i n2;
                (st, n4) \<leftarrow> fs_unlink E nm flags dir n3;
                if st < 0 then do {
                  n5 \<leftarrow> iunlock_write i n4;
                  n6 \<leftarrow> dput child n5;
                  Some (Inl st, n6)
                }
                else do {
                  n5 \<leftarrow> dentry_do_unlink child n4;
                  n6 \<leftarrow> dput child n5;
                  n7 \<leftarrow> iunlock_write i n6;
                  Some (Inr dir, n7)
                }
              }
            }
        }
      })"

section \<open>Renaming\<close>

definition root_dentry :: "ns \<Rightarrow> nat option" where
  "root_dentry n = do { fl \<leftarrow> files (ks (sy n)) (fs_root n); f_dentry fl }"

text \<open>
  The loop of \<open>dentry_does_not_have_parent\<close>, which climbs from \<open>d\<close> to the root. \<open>d\<close> is an \<open>auto_dentry\<close>: assigning the parent to
  it moves the new reference in and forgets the old one.
\<close>

partial_function (option) climb :: "nat \<Rightarrow> nat \<Rightarrow> nat option \<Rightarrow> ns \<Rightarrow> (bool \<times> nat option \<times> ns) option" where
  "climb root to_not_have d n =
     (case d of
        None \<Rightarrow> Some (True, None, n)
      | Some d' \<Rightarrow>
          if d' = root then Some (True, d, n)
          else if d' = to_not_have then Some (False, d, n)
          else do {
            (p, n1) \<leftarrow> dentry_parent d' n;
            climb root to_not_have p n1
          })"

text \<open>The destructors drop the reference of \<open>d\<close>, and one to the root that was never taken.\<close>

definition dentry_does_not_have_parent :: "nat \<Rightarrow> nat \<Rightarrow> ns \<Rightarrow> (bool \<times> ns) option" where
  "dentry_does_not_have_parent dir to_not_have n = do {
     root \<leftarrow> root_dentry n;
     n1 \<leftarrow> dget dir n;
     (r, d, n2) \<leftarrow> climb root to_not_have (Some dir) n1;
     n3 \<leftarrow> (case d of None \<Rightarrow> Some n2 | Some d' \<Rightarrow> dput d' n2);
     n4 \<leftarrow> dput root n3;
     Some (r, n4)
   }"

definition dentry_move :: "nat \<Rightarrow> nat \<Rightarrow> ns \<Rightarrow> ns option" where
  "dentry_move target new_parent n = do {
     te \<leftarrow> dents n target;
     old \<leftarrow> d_parent te;
     n1 \<leftarrow> remove_child old target n;
     n2 \<leftarrow> upd_dent new_parent (\<lambda>pe. pe\<lparr>d_children := d_children pe @ [target]\<rparr>) n1;
     n3 \<leftarrow> upd_dent target (\<lambda>te. te\<lparr>d_parent := Some new_parent\<rparr>) n2;
     isdir \<leftarrow> dentry_is_dir target n3;
     n4 \<leftarrow> (if isdir then do { (j, oino) \<leftarrow> dent_inode old n3; inode_dec_nlink j n3 } else Some n3);
     dget old n4
   }"

text \<open>
  A short name is copied to where the old name is; if that was not the inline buffer, the name is then the content of the inline
  buffer, which was never written. A failing allocation of a long name is an assertion.
\<close>

definition dentry_rename :: "nenv \<Rightarrow> nat \<Rightarrow> name \<Rightarrow> ns \<Rightarrow> ns option" where
  "dentry_rename E d nm n = do {
     de \<leftarrow> dents n d;
     if length nm \<le> INLINE_NAME_MAX then
       (if \<not> d_inline de then None
        else Some (set_dent d (de\<lparr>d_name := stored_name nm, d_name_hash := fnv_hash (stored_name nm)\<rparr>) n))
     else
       (let (m, n1) = kalloc E n
        in if \<not> m then None
           else Some (set_dent d (de\<lparr>d_name := nm, d_inline := False, d_name_hash := fnv_hash nm\<rparr>) n1))
   }"

definition put_opt :: "nat option \<Rightarrow> ns \<Rightarrow> ns option" where
  "put_opt d n = (case d of None \<Rightarrow> Some n | Some d' \<Rightarrow> dput d' n)"

text \<open>What \<open>rename_handling\<close> does with the locks of the two inodes held: \<open>dest\<close> is what the new name refers to now.\<close>

definition rename_locked :: "nenv \<Rightarrow> nat \<Rightarrow> nat \<Rightarrow> nat option \<Rightarrow> name \<Rightarrow> ns \<Rightarrow> ((int + nat) \<times> ns) option" where
  "rename_locked E old dir dest nm n = do {
     (oi, oino) \<leftarrow> dent_inode old n;
     same \<leftarrow> (case dest of None \<Rightarrow> Some False | Some d \<Rightarrow> do { (di, dino) \<leftarrow> dent_inode d n; Some (di = oi) });
     kind \<leftarrow> (case dest of
                None \<Rightarrow> Some False
              | Some d \<Rightarrow> do { a \<leftarrow> dentry_is_dir old n; b \<leftarrow> dentry_is_dir d n; Some (a \<noteq> b) });
     if same then (case dest of None \<Rightarrow> None | Some d \<Rightarrow> Some (Inr d, n))
     else if kind then do { n1 \<leftarrow> put_opt dest n; Some (Inl (- EISDIR), n1) }
     else do {
       (op, n1) \<leftarrow> dentry_parent old n;
       case op of
         None \<Rightarrow> do { n2 \<leftarrow> put_opt dest n1; Some (Inl (- ENOENT), n2) }
       | Some old_parent \<Rightarrow> do {
           (ok, n2) \<leftarrow> dentry_does_not_have_parent dir old n1;
           if \<not> ok then do { n3 \<leftarrow> put_opt dest n2; Some (Inl (- EINVAL), n3) }
           else do {
             (st, n3) \<leftarrow> (if dest \<noteq> None then fs_unlink E nm AT_REMOVEDIR dir n2 else Some (0, n2));
             if st < 0 then do { n4 \<leftarrow> put_opt dest n3; Some (Inl st, n4) }
             else do {
               (st', n4) \<leftarrow> fs_link E oi nm dir n3;
               oe \<leftarrow> dents n4 old;
               (st, n5) \<leftarrow> fs_unlink E (d_name oe) (AT_REMOVEDIR OR UNLINK_VFS_DONT_TEST_EMPTY) old_parent n4;
               if st < 0 then do { n6 \<leftarrow> put_opt dest n5; Some (Inl st, n6) }
               else do {
                 n6 \<leftarrow> (case dest of None \<Rightarrow> Some n5 | Some d \<Rightarrow> dentry_do_unlink d n5);
                 n7 \<leftarrow> (if old_parent \<noteq> dir then dentry_move old dir n6 else Some n6);
                 n8 \<leftarrow> dentry_rename E old nm n7;
                 Some (Inr dir, n8)
               }
             }
           }
         }
     }
   }"

definition rename_handling :: "nenv \<Rightarrow> nat \<Rightarrow> nameidata \<Rightarrow> name \<Rightarrow> ns \<Rightarrow> ((int + nat) \<times> ns) option" where
  "rename_handling E old data nm n =
     (if nm = dot \<or> nm = dotdot then Some (Inl (- EINVAL), n)
      else do {
        dir \<leftarrow> nd_location data;
        (i, ino) \<leftarrow> dent_inode dir n;
        (oi, oino) \<leftarrow> dent_inode old n;
        if i_dev ino \<noteq> i_dev oino then Some (Inl (- EXDEV), n)
        else if oi = i then Some (Inl (- EINVAL), n)
        else do {
          (ok, n1) \<leftarrow> ino_access i FILE_ACCESS_WRITE n;
          if \<not> ok then Some (Inl (- EACCES), n1)
          else if \<not> i_has_sb ino then None
          else do {
            (dest, n2) \<leftarrow> dentry_lookup_internal E nm dir 0 n1;
            mnt \<leftarrow> (case dest of None \<Rightarrow> Some False | Some d \<Rightarrow> dentry_involved_with_mount d n2);
            if mnt then do { n3 \<leftarrow> put_opt dest n2; Some (Inl (- EBUSY), n3) }
            else do {
              let (l1, l2) = (if dir < old then (i, oi) else (oi, i));
              n3 \<leftarrow> ilock_write l1 n2;
              n4 \<leftarrow> ilock_write l2 n3;
              (r, n5) \<leftarrow> rename_locked E old dir dest nm n4;
              n6 \<leftarrow> iunlock_write l2 n5;
              n7 \<leftarrow> iunlock_write l1 n6;
              Some (r, n7)
            }
          }
        }
      })"

definition handle_last :: "nenv \<Rightarrow> last_name_handling \<Rightarrow> nameidata \<Rightarrow> name \<Rightarrow> ns \<Rightarrow> ((int + nat) \<times> ns) option" where
  "handle_last E h data nm n =
     (case h of
        Create ty mode dev \<Rightarrow> create_handling E ty mode dev data nm n
      | Symlink dest \<Rightarrow> symlink_handling E dest data nm n
      | Link f \<Rightarrow> link_handling E f data nm n
      | Unlink flags \<Rightarrow> unlink_handling E flags data nm n
      | Rename old \<Rightarrow> rename_handling E old data nm n)"

section \<open>tmpfs\<close>

definition S_IFDIR :: u32 where "S_IFDIR = 0x4000"
definition S_IFREG :: u32 where "S_IFREG = 0x8000"
definition S_IFLNK :: u32 where "S_IFLNK = 0xa000"

definition VFS_TYPE_SYMLINK :: u32 where "VFS_TYPE_SYMLINK = 4"

text \<open>A mode without a file type reaches \<open>__builtin_unreachable\<close>.\<close>

definition mode_to_vfs_type :: "u32 \<Rightarrow> u32 option" where
  "mode_to_vfs_type mode =
     (if S_ISREG mode then Some 1
      else if mode AND S_IFMT = 0x6000 then Some 32
      else if mode AND S_IFMT = 0x2000 then Some 16
      else if mode AND S_IFMT = 0x1000 then Some VFS_TYPE_FIFO
      else if S_ISLNK mode then Some VFS_TYPE_SYMLINK
      else if mode AND S_IFMT = 0xc000 then Some 128
      else if S_ISDIR mode then Some 2
      else None)"

definition inode_is_special :: "inode \<Rightarrow> bool" where
  "inode_is_special ino \<longleftrightarrow> \<not> (S_ISREG (i_mode ino) \<or> S_ISDIR (i_mode ino) \<or> S_ISLNK (i_mode ino))"

text \<open>
  \<open>tmpfs_superblock::create_inode\<close>: a fresh inode, cleared but for what is set. \<open>inode_init\<close> allocates the object of the page cache for
  a regular file. The superblock is that of the directory \<open>dino\<close>.
\<close>

definition tmpfs_new_inode :: "int \<Rightarrow> u32 \<Rightarrow> u32 \<Rightarrow> u64 \<Rightarrow> u64 \<Rightarrow> u32 \<Rightarrow> u32 \<Rightarrow> inode \<Rightarrow> inode" where
  "tmpfs_new_inode now mode ty rdev nr uid gid dino =
     \<lparr>i_refc = 1, i_flags = 0, i_gid = gid, i_uid = uid, i_mode = mode, i_type = ty, i_size = 0,
      i_atime = now, i_ctime = now, i_mtime = now, i_nlink = 1, i_has_sb = True,
      i_sb_nodirty = i_sb_nodirty dino, i_sb_kill_inode = i_sb_kill_inode dino, i_fops_close = True, i_fops_read = False,
      i_fops_readpage = True, i_fops_write = False, i_fops_writepage = True, i_fops_ioctl = False,
      i_fops_ftruncate = True, i_fops_fallocate = False, i_inode = nr, i_dev = i_dev dino, i_rdev = rdev, i_blocks = 0,
      i_sb_block_size = i_sb_block_size dino, i_vmo_size = 0, i_pages = Map.empty, i_page_pins = (\<lambda>_. 0), i_dirty_pages = {},
      i_rwlock = 0, i_sb_in_memory = i_sb_in_memory dino, i_dentry = None, i_link = []\<rparr>"

definition tmpfs_create_inode :: "nenv \<Rightarrow> u32 \<Rightarrow> nat \<Rightarrow> u64 \<Rightarrow> ns \<Rightarrow> (nat option \<times> ns) option" where
  "tmpfs_create_inode E mode dir rdev n = do {
     (di, dino) \<leftarrow> dent_inode dir n;
     if \<not> i_has_sb dino then None
     else
       (let (m, n1) = kalloc E n;
            (m', n2) = (if m \<and> S_ISREG mode then kalloc E n1 else (m, n1))
        in if \<not> m' then Some (None, n2)
           else do {
             c \<leftarrow> creds_get (cr (sy n2));
             let nr = sb_curr_inode n2 (i_dev dino);
             let n3 = n2\<lparr>sy := (sy n2)\<lparr>cr := creds_put c\<rparr>, sb_curr_inode := (sb_curr_inode n2)(i_dev dino := nr + 1)\<rparr>;
             ty \<leftarrow> mode_to_vfs_type mode;
             let ino = tmpfs_new_inode (se_now (ne_s E)) mode ty rdev nr (euid c) (egid c) dino;
             let (st, ino') = (if inode_is_special ino then ne_special E ino else (0, ino));
             if st < 0 then Some (None, set_errno (- st) n3)
             else do {
               let i = next_obj n3;
               let k = log_event (Superblock_add_inode i) ((ks (sy n3))\<lparr>inodes := (inodes (ks (sy n3)))(i \<mapsto> ino')\<rparr>);
               Some (Some i, (set_ks k n3)\<lparr>next_obj := i + 1\<rparr>)
             }
           })
   }"

definition tmpfs_open :: "nat \<Rightarrow> name \<Rightarrow> ns \<Rightarrow> (nat option \<times> ns) option" where
  "tmpfs_open dir nm n = Some (None, set_errno ENOENT n)"

definition tmpfs_creat :: "nenv \<Rightarrow> name \<Rightarrow> u32 \<Rightarrow> nat \<Rightarrow> ns \<Rightarrow> (nat option \<times> ns) option" where
  "tmpfs_creat E nm mode dir n = tmpfs_create_inode E (S_IFREG OR mode) dir 0 n"

definition tmpfs_mkdir :: "nenv \<Rightarrow> name \<Rightarrow> u32 \<Rightarrow> nat \<Rightarrow> ns \<Rightarrow> (nat option \<times> ns) option" where
  "tmpfs_mkdir E nm mode dir n = tmpfs_create_inode E (mode OR S_IFDIR) dir 0 n"

definition tmpfs_mknod :: "nenv \<Rightarrow> name \<Rightarrow> u32 \<Rightarrow> u64 \<Rightarrow> nat \<Rightarrow> ns \<Rightarrow> (nat option \<times> ns) option" where
  "tmpfs_mknod E nm mode dev dir n = tmpfs_create_inode E mode dir dev n"

definition tmpfs_symlink :: "nenv \<Rightarrow> name \<Rightarrow> name \<Rightarrow> nat \<Rightarrow> ns \<Rightarrow> (nat option \<times> ns) option" where
  "tmpfs_symlink E nm dest dir n =
     (let (m, n1) = kalloc E n
      in if \<not> m then Some (None, n1)
         else do {
           (r, n2) \<leftarrow> tmpfs_create_inode E (S_IFLNK OR 0x1ff) dir 0 n1;
           case r of
             None \<Rightarrow> Some (None, n2)
           | Some i \<Rightarrow> do {
               n3 \<leftarrow> upd_inode i (\<lambda>ino. Some (ino\<lparr>i_link := dest\<rparr>)) n2;
               Some (Some i, n3)
             }
         })"

definition tmpfs_link :: "nat \<Rightarrow> name \<Rightarrow> nat \<Rightarrow> ns \<Rightarrow> (int \<times> ns) option" where
  "tmpfs_link target nm dir n = Some (0, n)"

text \<open>The two error paths do not drop the reference to the child.\<close>

definition tmpfs_unlink :: "nenv \<Rightarrow> name \<Rightarrow> u32 \<Rightarrow> nat \<Rightarrow> ns \<Rightarrow> (int \<times> ns) option" where
  "tmpfs_unlink E nm flags dir n = do {
     (r, n1) \<leftarrow> dentry_lookup_internal E nm dir 0 n;
     child \<leftarrow> r;
     isdir \<leftarrow> dentry_is_dir child n1;
     emp \<leftarrow> dentry_is_empty child n1;
     if isdir \<and> flags AND AT_REMOVEDIR = 0 then Some (- EISDIR, n1)
     else if isdir \<and> flags AND UNLINK_VFS_DONT_TEST_EMPTY = 0 \<and> \<not> emp then Some (- ENOTEMPTY, n1)
     else do { n2 \<leftarrow> dput child n1; Some (0, n2) }
   }"

definition tmpfs_readlink :: "inode \<Rightarrow> name" where
  "tmpfs_readlink ino = i_link ino"

text \<open>
  The file operations of tmpfs. Those that need the environment themselves get one in which only the operation they call back
  through the dentry cache (\<open>open\<close>) is there.
\<close>

definition tmpfs_base :: "senv \<Rightarrow> (inode \<Rightarrow> int \<times> inode) \<Rightarrow> nenv" where
  "tmpfs_base S sp = \<lparr>ne_s = S, ne_special = sp, fs_open = tmpfs_open, fs_creat = (\<lambda>_ _ _ _. None), fs_mkdir = (\<lambda>_ _ _ _. None),
     fs_mknod = (\<lambda>_ _ _ _ _. None), fs_symlink = (\<lambda>_ _ _ _. None), fs_link = (\<lambda>_ _ _ _. None), fs_unlink = (\<lambda>_ _ _ _. None),
     fs_on_open = (\<lambda>f n. Some (0, n))\<rparr>"

definition tmpfs_nenv :: "senv \<Rightarrow> (inode \<Rightarrow> int \<times> inode) \<Rightarrow> nenv" where
  "tmpfs_nenv S sp =
     (let S' = S\<lparr>drv_readlink := (\<lambda>fl ino. Some (Inr (tmpfs_readlink ino)))\<rparr>;
          B = tmpfs_base S' sp
      in \<lparr>ne_s = S', ne_special = sp, fs_open = tmpfs_open, fs_creat = tmpfs_creat B, fs_mkdir = tmpfs_mkdir B, fs_mknod = tmpfs_mknod B,
          fs_symlink = tmpfs_symlink B, fs_link = tmpfs_link, fs_unlink = tmpfs_unlink B,
          fs_on_open = (\<lambda>f n. Some (0, n))\<rparr>)"

end
