(* ===== verification/Namei.thy ===== *)
theory Namei
  imports Dentry_Ops
begin

text \<open>
  Path resolution: the walk along the names of a path (\<open>get_token_from_path\<close>, \<open>__dentry_resolve_path\<close>, \<open>dentry_resolve_path\<close> in
  \<open>kernel/kernel/fs/dentry.cpp\<close>), with symbolic links, mount points, the handlers of the last name, and the functions the rest
  of the kernel calls: \<open>open_vfs\<close>, \<open>creat_vfs\<close>, \<open>mkdir_vfs\<close>, \<open>mknod_vfs\<close>, \<open>symlink_vfs\<close>, \<open>link_vfs\<close>, \<open>unlink_vfs\<close>.

  A symbolic link is followed by resolving its target with the same code. The recursion is unrolled: \<open>dentry_resolve_path k\<close> may
  nest \<open>k\<close> deep. The count of links (\<open>nloops\<close>) grows with every level and stops at \<open>SYMLOOP_MAX\<close>, so \<open>SYMLOOP_MAX + 1\<close> levels are enough;
  \<open>Namei_Refine\<close> proves that they do not run out.
\<close>

unbundle bit_operations_syntax

definition SYMLOOP_MAX :: nat where "SYMLOOP_MAX = 40"
definition NAME_MAX :: nat where "NAME_MAX = 255"
definition npos :: nat where "npos = 2 ^ 64 - 1"

abbreviation (input) slash :: u8 where "slash \<equiv> 47"

section \<open>The names of a path\<close>

text \<open>\<open>find_first_not_of('/', pos)\<close> and \<open>find('/', pos)\<close>\<close>

definition find_not_slash :: "name \<Rightarrow> nat \<Rightarrow> nat option" where
  "find_not_slash v pos = List.find (\<lambda>i. v ! i \<noteq> slash) [pos..<length v]"

definition find_slash :: "name \<Rightarrow> nat \<Rightarrow> nat option" where
  "find_slash v pos = List.find (\<lambda>i. v ! i = slash) [pos..<length v]"

definition get_token_from_path :: "nameidata \<Rightarrow> name option \<times> nameidata" where
  "get_token_from_path data =
     (let view = nd_view data
      in case find_not_slash view (nd_pos data) of
           None \<Rightarrow> (None, data\<lparr>nd_pos := npos\<rparr>)
         | Some pos \<Rightarrow>
             (let (path_elem_end, is_last) =
                    (case find_slash view pos of
                       None \<Rightarrow> (length view, True)
                     | Some e \<Rightarrow> (e, find_not_slash view e = None));
                  v = take (path_elem_end - pos) (drop pos view)
              in (Some v, data\<lparr>nd_pos := pos + length v + 1, nd_last := is_last\<rparr>)))"

section \<open>Symbolic links\<close>

text \<open>\<open>readlink_vfs\<close> on a file of which only \<open>f_ino\<close> is set.\<close>

definition readlink_inode :: "nenv \<Rightarrow> nat \<Rightarrow> ns \<Rightarrow> (name option \<times> ns) option" where
  "readlink_inode E i n = do {
     ino \<leftarrow> inodes (ks (sy n)) i;
     let fl = \<lparr>f_refcount = 0, f_seek = 0, f_ino = i, f_flags = 0, f_dentry = None\<rparr>;
     if \<not> S_ISLNK (i_mode ino) then Some (None, set_errno EINVAL n)
     else case drv_readlink (ne_s E) fl ino of
       Some (Inr p) \<Rightarrow> Some (Some p, n\<lparr>sy := set_dirty i (inode_update_atime (se_now (ne_s E)) ino) (sy n)\<rparr>)
     | Some (Inl e) \<Rightarrow> Some (None, set_errno e n)
     | None \<Rightarrow> Some (None, set_errno EINVAL n)
   }"

definition for_symlink_resolution :: "nameidata \<Rightarrow> name \<Rightarrow> ns \<Rightarrow> (nameidata \<times> ns) option" where
  "for_symlink_resolution data path n = do {
     n1 \<leftarrow> dget (nd_root data) n;
     n2 \<leftarrow> (case nd_location data of None \<Rightarrow> Some n1 | Some l \<Rightarrow> dget l n1);
     Some (\<lparr>nd_view = path, nd_pos = 0, nd_root = nd_root data, nd_location = nd_location data, nd_last = False,
            nd_nloops = nd_nloops data, nd_handler = None, nd_flags = 0\<rparr>, n2)
   }"

type_synonym resolver = "nameidata \<Rightarrow> ns \<Rightarrow> (int \<times> nameidata \<times> ns) option"

definition dentry_follow_symlink ::
  "resolver \<Rightarrow> nenv \<Rightarrow> nameidata \<Rightarrow> nat \<Rightarrow> ns \<Rightarrow> ((int + nat) \<times> nameidata \<times> ns) option" where
  "dentry_follow_symlink resolve E data symlink n = do {
     (i, ino) \<leftarrow> dent_inode symlink n;
     let data1 = data\<lparr>nd_nloops := nd_nloops data + 1\<rparr>;
     if nd_nloops data = SYMLOOP_MAX then Some (Inl (- ELOOP), data1, n)
     else do {
       (target, n1) \<leftarrow> readlink_inode E i n;
       case target of
         None \<Rightarrow> Some (Inl (- errno (sy n1)), data1, n1)
       | Some path \<Rightarrow> do {
           (new_nameidata, n2) \<leftarrow> for_symlink_resolution data1 path n1;
           (st, nd, n3) \<leftarrow> resolve new_nameidata n2;
           if st < 0 then Some (Inl st, data1, set_errno (- st) n3)
           else case nd_location nd of
             None \<Rightarrow> Some (Inl (- errno (sy n3)), data1, n3)
           | Some d \<Rightarrow> Some (Inr d, data1\<lparr>nd_nloops := nd_nloops nd\<rparr>, n3)
         }
     }
   }"

section \<open>The walk\<close>

text \<open>The part of the loop that follows what was found if it is a symbolic link.\<close>

definition follow_found ::
  "resolver \<Rightarrow> nenv \<Rightarrow> bool \<Rightarrow> nat \<Rightarrow> nameidata \<Rightarrow> ns \<Rightarrow> ((int + nat) \<times> nameidata \<times> ns) option" where
  "follow_found resolve E is_last d data n = do {
     (i, ino) \<leftarrow> dent_inode d n;
     if i_type ino \<noteq> VFS_TYPE_SYMLINK then Some (Inr d, data, n)
     else if is_last \<and> nd_flags data AND OPEN_FLAG_FAIL_IF_LINK \<noteq> 0 then do {
       n1 \<leftarrow> dput d n;
       Some (Inl (- ELOOP), data, n1)
     }
     else if is_last \<and> nd_flags data AND OPEN_FLAG_NOFOLLOW \<noteq> 0 \<and> nd_flags data AND LOOKUP_FLAG_INTERNAL_TRAILING_SLASH = 0
     then Some (Inr d, data, n)
     else do {
       (r, data1, n1) \<leftarrow> dentry_follow_symlink resolve E data d n;
       n2 \<leftarrow> dput d n1;
       Some (r, data1, n2)
     }
   }"

text \<open>A mount point stands for the root of what is mounted there.\<close>

definition cross_mount :: "nat \<Rightarrow> ns \<Rightarrow> (nat \<times> ns) option" where
  "cross_mount d n = do {
     de \<leftarrow> dents n d;
     if d_flags de AND DENTRY_FLAG_MOUNTPOINT = 0 then Some (d, n)
     else do {
       dest \<leftarrow> d_mount_dentry de;
       n1 \<leftarrow> dput d n;
       n2 \<leftarrow> dget dest n1;
       Some (dest, n2)
     }
   }"

partial_function (option) resolve_loop :: "resolver \<Rightarrow> nenv \<Rightarrow> nameidata \<Rightarrow> ns \<Rightarrow> (int \<times> nameidata \<times> ns) option" where
  "resolve_loop resolve E data0 n =
     (let (tok, data) = get_token_from_path data0
      in case tok of
           None \<Rightarrow> Some (0, data, n)
         | Some v \<Rightarrow>
             if NAME_MAX < length v then Some (- ENAMETOOLONG, data, n)
             else case (if nd_last data then nd_handler data else None) of
               Some h \<Rightarrow> do {
                 (r, n1) \<leftarrow> handle_last E h data v n;
                 case r of
                   Inl e \<Rightarrow> Some (e, data, n1)
                 | Inr d \<Rightarrow> do {
                     loc \<leftarrow> nd_location data;
                     n2 \<leftarrow> dput loc n1;
                     Some (0, data\<lparr>nd_location := Some d\<rparr>, n2)
                   }
               }
             | None \<Rightarrow> do {
                 loc \<leftarrow> nd_location data;
                 (i, ino) \<leftarrow> dent_inode loc n;
                 (ok, n1) \<leftarrow> ino_access i FILE_ACCESS_EXECUTE n;
                 if \<not> ok then Some (- EACCES, data, n1)
                 else if loc = nd_root data \<and> v = dotdot then resolve_loop resolve E data n1
                 else do {
                   (found, n2) \<leftarrow> dentry_lookup_internal E v loc 0 n1;
                   case found of
                     None \<Rightarrow> Some (- errno (sy n2), data, n2)
                   | Some d \<Rightarrow> do {
                       (r, data1, n3) \<leftarrow> follow_found resolve E (nd_last data) d data n2;
                       case r of
                         Inl e \<Rightarrow> Some (e, data1, n3)
                       | Inr d1 \<Rightarrow> do {
                           (d2, n4) \<leftarrow> cross_mount d1 n3;
                           n5 \<leftarrow> dput loc n4;
                           resolve_loop resolve E (data1\<lparr>nd_location := Some d2\<rparr>) n5
                         }
                     }
                 }
               })"

definition resolve_path_with :: "resolver \<Rightarrow> nenv \<Rightarrow> resolver" where
  "resolve_path_with resolve E data0 n =
     (let pathname = nd_view data0
      in if pathname = [] then
           (if nd_flags data0 AND OPEN_FLAG_EMPTY_PATH \<noteq> 0 then do {
              loc \<leftarrow> nd_location data0;
              n1 \<leftarrow> dget loc n;
              Some (0, data0, n1)
            }
            else Some (- ENOENT, data0, n))
         else do {
           let absolute = (hd pathname = slash);
           let data1 = (if last pathname = slash
                        then data0\<lparr>nd_flags := nd_flags data0 OR LOOKUP_FLAG_INTERNAL_TRAILING_SLASH\<rparr> else data0);
           let must_be_dir = (nd_flags data1 AND (LOOKUP_FLAG_INTERNAL_TRAILING_SLASH OR OPEN_FLAG_MUST_BE_DIR) \<noteq> 0);
           n2 \<leftarrow> (if absolute then do {
                    n1 \<leftarrow> put_opt (nd_location data1) n;
                    dget (nd_root data1) n1
                  } else Some n);
           let data2 = (if absolute then data1\<lparr>nd_location := Some (nd_root data1), nd_view := tl pathname\<rparr> else data1);
           (st, data3, n3) \<leftarrow> resolve_loop resolve E data2 n2;
           n4 \<leftarrow> (if absolute then dput (nd_root data3) n3 else Some n3);
           loc \<leftarrow> nd_location data3;
           if st < 0 then do {
             n5 \<leftarrow> dput loc n4;
             Some (st, data3, n5)
           }
           else do {
             isdir \<leftarrow> dentry_is_dir loc n4;
             if \<not> isdir \<and> must_be_dir then do {
               n5 \<leftarrow> dput loc n4;
               Some (- ENOTDIR, data3, n5)
             }
             else Some (0, data3, n4)
           }
         })"

primrec dentry_resolve_path :: "nat \<Rightarrow> nenv \<Rightarrow> resolver" where
  "dentry_resolve_path 0 E = (\<lambda>data n. None)"
| "dentry_resolve_path (Suc k) E = resolve_path_with (dentry_resolve_path k E) E"

definition dentry_resolve :: "nenv \<Rightarrow> nameidata \<Rightarrow> ns \<Rightarrow> (nat option \<times> ns) option" where
  "dentry_resolve E data n = do {
     (st, data', n1) \<leftarrow> dentry_resolve_path (SYMLOOP_MAX + 1) E data n;
     if st < 0 then Some (None, set_errno (- st) n1) else Some (nd_location data', n1)
   }"

section \<open>Opening and creating\<close>

definition on_sy :: "(sys \<Rightarrow> ('a \<times> sys) option) \<Rightarrow> ns \<Rightarrow> ('a \<times> ns) option" where
  "on_sy f n = do { (a, s) \<leftarrow> f (sy n); Some (a, n\<lparr>sy := s\<rparr>) }"

text \<open>\<open>fd_put\<close>, which drops a dentry with the last reference to a file: here its destruction is carried out.\<close>

definition fput :: "nat \<Rightarrow> ns \<Rightarrow> ns option" where
  "fput f n = do {
     fl \<leftarrow> files (ks (sy n)) f;
     n1 \<leftarrow> on_ks (fd_put f) n;
     case f_dentry fl of
       None \<Rightarrow> Some n1
     | Some d \<Rightarrow>
         if drefs (ks (sy n)) d \<noteq> None \<and> drefs (ks (sy n1)) d = None then dentry_destroy d n1 else Some n1
   }"

definition inode_to_file :: "nenv \<Rightarrow> nat \<Rightarrow> ns \<Rightarrow> nat option \<times> ns" where
  "inode_to_file E i n =
     (let (m, n1) = kalloc E n
      in if \<not> m then (None, n1)
         else
           (let f = next_obj n1;
                fl = \<lparr>f_refcount = 1, f_seek = 0, f_ino = i, f_flags = 0, f_dentry = None\<rparr>
            in (Some f, n1\<lparr>sy := set_file f fl (sy n1), next_obj := f + 1\<rparr>)))"

text \<open>The end of \<open>open_vfs_with_flags\<close> and of \<open>file_creation_helper\<close>: an open file for a dentry, whose reference it takes over.\<close>

definition dentry_to_file :: "nenv \<Rightarrow> nat \<Rightarrow> ns \<Rightarrow> (nat option \<times> ns) option" where
  "dentry_to_file E d n = do {
     (i, ino) \<leftarrow> dent_inode d n;
     let (r, n1) = inode_to_file E i n;
     case r of
       None \<Rightarrow> do { n2 \<leftarrow> dput d n1; Some (None, n2) }
     | Some f \<Rightarrow> do {
         n2 \<leftarrow> on_ks (inode_ref i) n1;
         fl \<leftarrow> files (ks (sy n2)) f;
         Some (Some f, n2\<lparr>sy := set_file f (fl\<lparr>f_dentry := Some d\<rparr>) (sy n2)\<rparr>)
       }
   }"

definition file_dentry :: "nat \<Rightarrow> ns \<Rightarrow> nat option" where
  "file_dentry f n = do { fl \<leftarrow> files (ks (sy n)) f; f_dentry fl }"

definition new_nameidata :: "name \<Rightarrow> nat \<Rightarrow> nat option \<Rightarrow> last_name_handling option \<Rightarrow> u32 \<Rightarrow> nameidata" where
  "new_nameidata path root loc h flags =
     \<lparr>nd_view = path, nd_pos = 0, nd_root = root, nd_location = loc, nd_last = False, nd_nloops = 0, nd_handler = h, nd_flags = flags\<rparr>"

definition generic_last_name_helper ::
  "nenv \<Rightarrow> nat \<Rightarrow> name \<Rightarrow> last_name_handling \<Rightarrow> u32 \<Rightarrow> ns \<Rightarrow> (nat option \<times> ns) option" where
  "generic_last_name_helper E base path h lookup_flags n = do {
     root \<leftarrow> file_dentry (fs_root n) n;
     n1 \<leftarrow> dget root n;
     n2 \<leftarrow> dget base n1;
     dentry_resolve E (new_nameidata path root (Some base) (Some h) lookup_flags) n2
   }"

definition dentry_do_open :: "nenv \<Rightarrow> nat \<Rightarrow> name \<Rightarrow> u32 \<Rightarrow> ns \<Rightarrow> (nat option \<times> ns) option" where
  "dentry_do_open E base path lookup_flags n = do {
     root \<leftarrow> file_dentry (fs_root n) n;
     n1 \<leftarrow> dget root n;
     n2 \<leftarrow> dget base n1;
     dentry_resolve E (new_nameidata path root (Some base) None lookup_flags) n2
   }"

text \<open>A null \<open>f\<close> is the working directory; \<open>get_current_directory\<close> has taken a reference to it, the function takes another.\<close>

definition open_vfs_with_flags :: "nenv \<Rightarrow> nat option \<Rightarrow> name \<Rightarrow> u32 \<Rightarrow> ns \<Rightarrow> (nat option \<times> ns) option" where
  "open_vfs_with_flags E f0 path open_flags n = do {
     (f, n1) \<leftarrow> (case f0 of
                  Some f \<Rightarrow> Some (f, n)
                | None \<Rightarrow> do {
                    (c, n1) \<leftarrow> on_sy get_current_directory n;
                    f \<leftarrow> c;
                    n2 \<leftarrow> on_ks (fd_get f) n1;
                    Some (f, n2)
                  });
     base \<leftarrow> file_dentry f n1;
     (dent, n2) \<leftarrow> dentry_do_open E base path open_flags n1;
     n3 \<leftarrow> (if f0 = None then fput f n2 else Some n2);
     case dent of
       None \<Rightarrow> Some (None, n3)
     | Some d \<Rightarrow> dentry_to_file E d n3
   }"

definition open_vfs :: "nenv \<Rightarrow> nat option \<Rightarrow> name \<Rightarrow> ns \<Rightarrow> (nat option \<times> ns) option" where
  "open_vfs E dir path = open_vfs_with_flags E dir path 0"

definition file_creation_helper :: "nenv \<Rightarrow> nat \<Rightarrow> name \<Rightarrow> last_name_handling \<Rightarrow> ns \<Rightarrow> (nat option \<times> ns) option" where
  "file_creation_helper E base path h n = do {
     (dent, n1) \<leftarrow> generic_last_name_helper E base path h 0 n;
     case dent of
       None \<Rightarrow> Some (None, n1)
     | Some d \<Rightarrow> dentry_to_file E d n1
   }"

definition creat_vfs :: "nenv \<Rightarrow> nat \<Rightarrow> name \<Rightarrow> u32 \<Rightarrow> ns \<Rightarrow> (nat option \<times> ns) option" where
  "creat_vfs E base path mode = file_creation_helper E base path (Create C_creat mode 0)"

definition mknod_vfs :: "nenv \<Rightarrow> name \<Rightarrow> u32 \<Rightarrow> u64 \<Rightarrow> nat \<Rightarrow> ns \<Rightarrow> (nat option \<times> ns) option" where
  "mknod_vfs E path mode dev dir = file_creation_helper E dir path (Create C_mknod mode dev)"

definition mkdir_vfs :: "nenv \<Rightarrow> name \<Rightarrow> u32 \<Rightarrow> nat \<Rightarrow> ns \<Rightarrow> (nat option \<times> ns) option" where
  "mkdir_vfs E path mode dir = file_creation_helper E dir path (Create C_mkdir mode 0)"

definition symlink_vfs :: "nenv \<Rightarrow> name \<Rightarrow> name \<Rightarrow> nat \<Rightarrow> ns \<Rightarrow> (nat option \<times> ns) option" where
  "symlink_vfs E path dest dir = file_creation_helper E dir path (Symlink dest)"

definition link_vfs :: "nenv \<Rightarrow> nat \<Rightarrow> nat \<Rightarrow> name \<Rightarrow> ns \<Rightarrow> (int \<times> ns) option" where
  "link_vfs E target rel_base newpath n = do {
     (r, n1) \<leftarrow> generic_last_name_helper E rel_base newpath (Link target) 0 n;
     case r of
       None \<Rightarrow> Some (- errno (sy n1), n1)
     | Some d \<Rightarrow> do { n2 \<leftarrow> dput d n1; Some (0, n2) }
   }"

definition unlink_vfs :: "nenv \<Rightarrow> name \<Rightarrow> u32 \<Rightarrow> nat \<Rightarrow> ns \<Rightarrow> (int \<times> ns) option" where
  "unlink_vfs E path flags node n = do {
     base \<leftarrow> file_dentry node n;
     (r, n1) \<leftarrow> generic_last_name_helper E base path (Unlink flags) OPEN_FLAG_NOFOLLOW n;
     case r of
       None \<Rightarrow> Some (- errno (sy n1), n1)
     | Some d \<Rightarrow> do { n2 \<leftarrow> dput d n1; Some (0, n2) }
   }"

end
