(* ===== verification/Dentry_Tree.thy ===== *)
theory Dentry_Tree
  imports Namei
begin

text \<open>
  Operations of \<open>kernel/kernel/fs/dentry.cpp\<close> on whole parts of the tree of dentries: the path name of a dentry
  (\<open>dentry_to_file_name\<close>), mounting (\<open>dentry_mount\<close>, \<open>mount_fs\<close>) and freeing dentries nobody uses (\<open>dentry_trim_caches\<close>).
\<close>

unbundle bit_operations_syntax

section \<open>The path name of a dentry\<close>

text \<open>The first loop climbs to the root and collects the dentries it passes, each with a reference, the last one first.\<close>

partial_function (option) collect_path ::
  "nenv \<Rightarrow> nat \<Rightarrow> nat option \<Rightarrow> nat list \<Rightarrow> ns \<Rightarrow> (bool \<times> nat list \<times> ns) option" where
  "collect_path E root d els n =
     (case d of
        None \<Rightarrow> Some (True, els, n)
      | Some x \<Rightarrow>
          if x = root then Some (True, els, n)
          else
            (let (m, n1) = kalloc E n
             in if \<not> m then Some (False, els, n1)
                else do {
                  de \<leftarrow> dents n1 x;
                  (p, n2) \<leftarrow> dentry_parent x n1;
                  (p', n3) \<leftarrow> (if d_flags de AND DENTRY_FLAG_MOUNT_ROOT \<noteq> 0
                              then (case p of None \<Rightarrow> Some (None, n2) | Some y \<Rightarrow> dentry_parent y n2)
                              else Some (p, n2));
                  collect_path E root p' (x # els) n3
                }))"

fun emit_names :: "nat list \<Rightarrow> name \<Rightarrow> ns \<Rightarrow> (name \<times> ns) option" where
  "emit_names [] s n = Some (s, n)"
| "emit_names (d # ds) s n = do {
     de \<leftarrow> dents n d;
     n1 \<leftarrow> dput d n;
     emit_names ds (s @ d_name de @ [slash]) n1
   }"

text \<open>
  The last slash is overwritten by the terminator. The result is a C string: it ends where the first zero byte is. The reference
  to the root and, when an allocation fails, that of the dentry just reached are not dropped.
\<close>

definition dentry_to_file_name :: "nenv \<Rightarrow> nat \<Rightarrow> ns \<Rightarrow> (name option \<times> ns) option" where
  "dentry_to_file_name E d n = do {
     root \<leftarrow> file_dentry (fs_root n) n;
     if root = d then (let (m, n1) = kalloc E n in Some (if m then Some [slash] else None, n1))
     else do {
       n1 \<leftarrow> dget root n;
       n2 \<leftarrow> dget d n1;
       (ok, els, n3) \<leftarrow> collect_path E root (Some d) [] n2;
       let (m, n4) = (if ok then kalloc E n3 else (False, n3));
       if \<not> m then do { n5 \<leftarrow> mfold dput els n4; Some (None, n5) }
       else do {
         (s, n5) \<leftarrow> emit_names els [slash] n4;
         Some (Some (takeWhile (\<lambda>c. c \<noteq> 0) (butlast s)), n5)
       }
     }
   }"

section \<open>Mounting\<close>

definition basename :: "name \<Rightarrow> name" where
  "basename s =
     (if s = [] then dot
      else
        (let t = rev (dropWhile (\<lambda>c. c = slash) (rev s))
         in if t = [] then [slash] else rev (takeWhile (\<lambda>c. c \<noteq> slash) (rev t))))"

text \<open>The end of \<open>dentry_mount\<close>, with the directory \<open>base\<close> found and \<open>d\<close> the root of what is mounted.\<close>

definition attach_mount :: "nat \<Rightarrow> nat \<Rightarrow> nat \<Rightarrow> ns \<Rightarrow> (nat option \<times> ns) option" where
  "attach_mount base d i n = do {
     be \<leftarrow> dents n base;
     if d_flags be AND DENTRY_FLAG_MOUNTPOINT \<noteq> 0 then Some (None, set_errno EBUSY n)
     else do {
       n1 \<leftarrow> upd_dent base (\<lambda>be. be\<lparr>d_mount_dentry := Some d, d_flags := d_flags be OR DENTRY_FLAG_MOUNTPOINT\<rparr>) n;
       n2 \<leftarrow> dget d n1;
       n3 \<leftarrow> upd_dent d (\<lambda>de. de\<lparr>d_flags := d_flags de OR DENTRY_FLAG_MOUNT_ROOT\<rparr>) n2;
       n4 \<leftarrow> upd_inode i (\<lambda>ino. Some (ino\<lparr>i_dentry := Some d\<rparr>)) n3;
       n5 \<leftarrow> dput base n4;
       Some (Some d, n5)
     }
   }"

definition dentry_mount :: "nenv \<Rightarrow> name \<Rightarrow> nat \<Rightarrow> ns \<Rightarrow> (nat option \<times> ns) option" where
  "dentry_mount E mountpoint i n =
     (if mountpoint = [slash] then do {
        (r, n1) \<leftarrow> dentry_create E mountpoint (Some i) None n;
        let n2 = n1\<lparr>boot_dentry := r\<rparr>;
        case r of
          None \<Rightarrow> Some (None, n2)
        | Some d \<Rightarrow> do {
            n3 \<leftarrow> upd_dent d (\<lambda>de. de\<lparr>d_flags := d_flags de OR DENTRY_FLAG_MOUNT_ROOT\<rparr>) n2;
            Some (Some d, n3)
          }
      }
      else
        (let (m, n1) = kalloc E n
         in if \<not> m then Some (None, n1)
            else do {
              root \<leftarrow> file_dentry (fs_root n1) n1;
              n2 \<leftarrow> dget root n1;
              (b, n3) \<leftarrow> dentry_resolve E (new_nameidata mountpoint root None None 0) n2;
              case b of
                None \<Rightarrow> Some (None, n3)
              | Some base \<Rightarrow> do {
                  isdir \<leftarrow> dentry_is_dir base n3;
                  if \<not> isdir then do {
                    n4 \<leftarrow> dput base n3;
                    Some (None, set_errno ENOTDIR n4)
                  }
                  else do {
                    ino \<leftarrow> inodes (ks (sy n3)) i;
                    (new_d, n4) \<leftarrow> (case i_dentry ino of
                                     Some d \<Rightarrow> Some (Some d, n3)
                                   | None \<Rightarrow> dentry_create E (basename mountpoint) (Some i) (Some base) n3);
                    n5 \<leftarrow> (case i_dentry ino of
                             None \<Rightarrow> Some n4
                           | Some d \<Rightarrow> do {
                               de \<leftarrow> dents n4 d;
                               p \<leftarrow> d_parent de;
                               n5 \<leftarrow> dput p n4;
                               n6 \<leftarrow> dget base n5;
                               upd_dent d (\<lambda>de. de\<lparr>d_parent := Some base\<rparr>) n6
                             });
                    case new_d of
                      None \<Rightarrow> do { n6 \<leftarrow> dput base n5; Some (None, n6) }
                    | Some d \<Rightarrow> attach_mount base d i n5
                  }
                }
            }))"

text \<open>Before the first mount there is no file \<open>fs_root\<close>.\<close>

definition mount_fs :: "nenv \<Rightarrow> nat \<Rightarrow> name \<Rightarrow> ns \<Rightarrow> (int \<times> ns) option" where
  "mount_fs E i path n =
     (if path = [slash] then
        (let (m, n1) = kalloc E n
         in if \<not> m then Some (- ENOMEM, n1)
            else do {
              (r, n2) \<leftarrow> dentry_mount E [slash] i n1;
              d \<leftarrow> r;
              let f = next_obj n2;
              let fl = \<lparr>f_refcount = 1, f_seek = 0, f_ino = i, f_flags = 0, f_dentry = Some d\<rparr>;
              let n3 = n2\<lparr>sy := set_file f fl (sy n2), next_obj := f + 1\<rparr>;
              n4 \<leftarrow> (if files (ks (sy n3)) (fs_root n3) = None then Some n3 else fput (fs_root n3) n3);
              Some (0, n4\<lparr>fs_root := f\<rparr>)
            })
      else do {
        (r, n1) \<leftarrow> dentry_mount E path i n;
        case r of
          None \<Rightarrow> Some (- errno (sy n1), n1)
        | Some d \<Rightarrow> do { n2 \<leftarrow> dput d n1; Some (0, n2) }
      })"

section \<open>Freeing dentries nobody uses\<close>

text \<open>The queue of directories to visit; what does not fit into memory is not visited.\<close>

definition enqueue :: "nenv \<Rightarrow> nat option \<Rightarrow> nat option list \<Rightarrow> ns \<Rightarrow> nat option list \<times> ns" where
  "enqueue E x q n = (let (m, n1) = kalloc E n in (if m then q @ [x] else q, n1))"

fun trim_children :: "nenv \<Rightarrow> nat list \<Rightarrow> nat option list \<Rightarrow> ns \<Rightarrow> (nat option list \<times> ns) option" where
  "trim_children E [] q n = Some (q, n)"
| "trim_children E (d # ds) q n = do {
     de \<leftarrow> dents n d;
     c \<leftarrow> drefs (ks (sy n)) d;
     if c = 1 then do {
       (q1, n1) \<leftarrow> (case d_parent de of
                     None \<Rightarrow> Some (q, n)
                   | Some p \<Rightarrow>
                       if drefs (ks (sy n)) p = Some 2 then do {
                         (pp, n1) \<leftarrow> dentry_parent p n;
                         Some (enqueue E pp q n1)
                       }
                       else Some (q, n));
       n2 \<leftarrow> dentry_kill_unlocked d n1;
       trim_children E ds q1 n2
     }
     else do {
       isdir \<leftarrow> dentry_is_dir d n;
       if isdir then do {
         n1 \<leftarrow> dget d n;
         let (q1, n2) = enqueue E (Some d) q n1;
         trim_children E ds q1 n2
       }
       else trim_children E ds q n
     }
   }"

text \<open>A null entry of the queue, the parent of a root, ends the loop.\<close>

partial_function (option) trim_loop :: "nenv \<Rightarrow> nat option \<Rightarrow> nat option list \<Rightarrow> ns \<Rightarrow> ns option" where
  "trim_loop E cur q n =
     (case cur of
        None \<Rightarrow> Some n
      | Some d \<Rightarrow> do {
          c \<leftarrow> drefs (ks (sy n)) d;
          de \<leftarrow> dents n d;
          (q1, n1) \<leftarrow> (if 1 < c then trim_children E (d_children de) q n else Some (q, n));
          n2 \<leftarrow> dput d n1;
          case q1 of
            [] \<Rightarrow> Some n2
          | x # q2 \<Rightarrow> trim_loop E x q2 n2
        })"

definition dentry_trim_caches :: "nenv \<Rightarrow> ns \<Rightarrow> ns option" where
  "dentry_trim_caches E n = do {
     d \<leftarrow> boot_dentry n;
     n1 \<leftarrow> dget d n;
     trim_loop E (Some d) [] n1
   }"

end
