(* ===== verification/Path_Calls.thy ===== *)
theory Path_Calls
  imports Dentry_Tree
begin

text \<open>
  The system calls that take a path (\<open>kernel/kernel/fs/file.cpp\<close> and the end of \<open>dentry.cpp\<close>): \<open>open\<close>, \<open>openat\<close>, \<open>mkdir\<close>, \<open>mknod\<close>,
  \<open>link\<close>, \<open>unlink\<close>, \<open>rmdir\<close>, \<open>symlink\<close>, \<open>rename\<close>, \<open>readlink\<close>, \<open>stat\<close>, \<open>access\<close>, \<open>chmod\<close>, \<open>chown\<close>, \<open>utimensat\<close>, \<open>chdir\<close>, \<open>getcwd\<close>, \<open>fmount\<close>.

  \<open>from_user\<close>, \<open>with_dirfd\<close> and \<open>with_opened\<close> are the idioms of the code (\<open>user_string\<close> and \<open>auto_file\<close>): the error is returned, and
  what was taken is dropped at the end of the function.
\<close>

unbundle bit_operations_syntax

section \<open>Strings and files of the caller\<close>

definition AT_FDCWD :: int where "AT_FDCWD = - 100"
definition AT_SYMLINK_NOFOLLOW :: u32 where "AT_SYMLINK_NOFOLLOW = 0x100"
definition AT_SYMLINK_FOLLOW :: u32 where "AT_SYMLINK_FOLLOW = 0x400"
definition AT_EMPTY_PATH :: u32 where "AT_EMPTY_PATH = 0x1000"

text \<open>The bytes before the first zero byte; \<open>Some None\<close> if an address on the way is not mapped.\<close>

partial_function (option) user_str :: "nat \<Rightarrow> umem \<Rightarrow> name option option" where
  "user_str p m =
     (case m p of
        None \<Rightarrow> Some None
      | Some c \<Rightarrow>
          if c = 0 then Some (Some [])
          else do { r \<leftarrow> user_str (p + 1) m; Some (map_option ((#) c) r) })"

definition strcpy_from_user :: "nenv \<Rightarrow> nat \<Rightarrow> ns \<Rightarrow> (name option \<times> ns) option" where
  "strcpy_from_user E p n = do {
     r \<leftarrow> user_str p (um (sy n));
     case r of
       None \<Rightarrow> Some (None, set_errno EFAULT n)
     | Some str \<Rightarrow> (let (m, n1) = kalloc E n in Some (if m then Some str else None, n1))
   }"

type_synonym ncall = "ns \<Rightarrow> (int \<times> ns) option"

definition from_user :: "nenv \<Rightarrow> nat \<Rightarrow> (name \<Rightarrow> ncall) \<Rightarrow> ncall" where
  "from_user E p body n = do {
     (r, n1) \<leftarrow> strcpy_from_user E p n;
     case r of
       None \<Rightarrow> Some (- errno (sy n1), n1)
     | Some str \<Rightarrow> body str n1
   }"

definition get_dirfd_file :: "int \<Rightarrow> ns \<Rightarrow> (nat option \<times> ns) option" where
  "get_dirfd_file dirfd = on_sy (if dirfd \<noteq> AT_FDCWD then get_fd dirfd else get_current_directory)"

definition with_opened :: "(nat option \<times> ns) option \<Rightarrow> (nat \<Rightarrow> ncall) \<Rightarrow> (int \<times> ns) option" where
  "with_opened m body = do {
     (r, n1) \<leftarrow> m;
     case r of
       None \<Rightarrow> Some (- errno (sy n1), n1)
     | Some f \<Rightarrow> do {
         (st, n2) \<leftarrow> body f n1;
         n3 \<leftarrow> fput f n2;
         Some (st, n3)
       }
   }"

text \<open>\<open>auto_file::from_dirfd\<close> returns \<open>-errno\<close> for a null file; if \<open>errno\<close> is 0 the caller goes on and uses the null pointer.\<close>

definition with_dirfd :: "int \<Rightarrow> (nat \<Rightarrow> ncall) \<Rightarrow> ncall" where
  "with_dirfd dirfd body n =
     with_opened (do {
       (r, n1) \<leftarrow> get_dirfd_file dirfd n;
       if r = None \<and> errno (sy n1) = 0 then None else Some (r, n1)
     }) body"

definition get_fs_base :: "name \<Rightarrow> nat \<Rightarrow> ns \<Rightarrow> nat" where
  "get_fs_base path rel_base n = (if path \<noteq> [] \<and> hd path = slash then fs_root n else rel_base)"

definition umasked :: "u32 \<Rightarrow> ns \<Rightarrow> u32" where
  "umasked mode n = mode AND NOT (umask (ctx (ks (sy n))))"

section \<open>open\<close>

text \<open>What \<open>try_to_open\<close> does with a file it has opened. The refusal of \<open>O_NOATIME\<close> keeps the file open.\<close>

definition try_opened :: "nenv \<Rightarrow> u32 \<Rightarrow> nat \<Rightarrow> ns \<Rightarrow> (nat option \<times> ns) option" where
  "try_opened E flags f n = do {
     access \<leftarrow> open_to_file_access_flags flags;
     (ok, n1) \<leftarrow> on_sy (file_can_access f access) n;
     if \<not> ok then do { n2 \<leftarrow> fput f n1; Some (None, set_errno EACCES n2) }
     else do {
       (fl, ino) \<leftarrow> file_inode f (sy n1);
       (na, c) \<leftarrow> (if flags AND O_NOATIME \<noteq> 0 then may_noatime ino (cr (sy n1)) else Some (True, cr (sy n1)));
       let n2 = n1\<lparr>sy := (sy n1)\<lparr>cr := c\<rparr>\<rparr>;
       if \<not> na then Some (None, set_errno EPERM n2)
       else if S_ISDIR (i_mode ino) \<and> (flags AND O_RDWR \<noteq> 0 \<or> flags AND O_WRONLY \<noteq> 0 \<or>
                                       flags AND O_CREAT \<noteq> 0 \<and> flags AND O_DIRECTORY = 0)
       then do { n3 \<leftarrow> fput f n2; Some (None, set_errno EISDIR n3) }
       else if flags AND O_EXCL \<noteq> 0 then do { n3 \<leftarrow> fput f n2; Some (None, set_errno EEXIST n3) }
       else if flags AND O_TRUNC \<noteq> 0 then do {
         (st, n3) \<leftarrow> on_sy (ftruncate_vfs (ne_s E) 0 f) n2;
         if st < 0 then do { n4 \<leftarrow> fput f n3; Some (None, n4) }
         else Some (Some f, n3)
       }
       else Some (Some f, n2)
     }
   }"

definition try_to_open :: "nenv \<Rightarrow> nat \<Rightarrow> name \<Rightarrow> u32 \<Rightarrow> u32 \<Rightarrow> ns \<Rightarrow> (nat option \<times> ns) option" where
  "try_to_open E base filename flags mode n = do {
     let open_flags = (if flags AND O_EXCL \<noteq> 0 then OPEN_FLAG_FAIL_IF_LINK else 0) OR
                      (if flags AND O_NOFOLLOW \<noteq> 0 then OPEN_FLAG_FAIL_IF_LINK else 0) OR
                      (if flags AND O_DIRECTORY \<noteq> 0 then OPEN_FLAG_MUST_BE_DIR else 0);
     (ret, n1) \<leftarrow> open_vfs_with_flags E (Some base) filename open_flags n;
     case ret of
       Some f \<Rightarrow> try_opened E flags f n1
     | None \<Rightarrow>
         if errno (sy n1) = ENOENT \<and> flags AND O_CREAT \<noteq> 0 then do {
           d \<leftarrow> file_dentry base n1;
           creat_vfs E d filename (umasked mode n1) n1
         }
         else Some (None, n1)
   }"

definition VALID_OPEN_FLAGS :: u32 where
  "VALID_OPEN_FLAGS = O_RDONLY OR O_WRONLY OR O_RDWR OR O_CREAT OR O_DIRECTORY OR O_EXCL OR O_NOFOLLOW OR O_NONBLOCK OR
     O_APPEND OR O_CLOEXEC OR O_LARGEFILE OR O_TRUNC OR O_NOCTTY OR O_PATH OR O_NOATIME"

definition do_sys_open :: "nenv \<Rightarrow> name \<Rightarrow> u32 \<Rightarrow> u32 \<Rightarrow> nat \<Rightarrow> ncall" where
  "do_sys_open E filename flags mode rel n =
     (if flags AND NOT VALID_OPEN_FLAGS \<noteq> 0 then Some (- EINVAL, n)
      else do {
        (r, n1) \<leftarrow> try_to_open E (get_fs_base filename rel n) filename flags mode n;
        case r of
          None \<Rightarrow> Some (- errno (sy n1), n1)
        | Some f \<Rightarrow> do {
            (st, n2) \<leftarrow> fs_on_open E f n1;
            if st < 0 then do { n3 \<leftarrow> fput f n2; Some (st, n3) }
            else do {
              (fd_num, n3) \<leftarrow> on_sy (open_with_vnode (ne_s E) f flags) n2;
              n4 \<leftarrow> fput f n3;
              Some (fd_num, n4)
            }
          }
      })"

definition sys_open :: "nenv \<Rightarrow> nat \<Rightarrow> u32 \<Rightarrow> u32 \<Rightarrow> ncall" where
  "sys_open E ufilename flags mode = from_user E ufilename (\<lambda>filename n. do {
     (c, n1) \<leftarrow> on_sy get_current_directory n;
     cwd \<leftarrow> c;
     (fd, n2) \<leftarrow> do_sys_open E filename flags mode cwd n1;
     n3 \<leftarrow> fput cwd n2;
     Some (fd, n3)
   })"

definition sys_openat :: "nenv \<Rightarrow> int \<Rightarrow> nat \<Rightarrow> u32 \<Rightarrow> u32 \<Rightarrow> ncall" where
  "sys_openat E dirfd upath flags mode n =
     with_opened (get_dirfd_file dirfd n) (\<lambda>d. from_user E upath (\<lambda>path. do_sys_open E path flags mode d))"

section \<open>Creating and removing\<close>

definition do_sys_mkdir :: "nenv \<Rightarrow> name \<Rightarrow> u32 \<Rightarrow> nat \<Rightarrow> ncall" where
  "do_sys_mkdir E path mode dir n = do {
     base \<leftarrow> file_dentry (get_fs_base path dir n) n;
     with_opened (mkdir_vfs E path (umasked mode n) base n) (\<lambda>f n. Some (0, n))
   }"

definition do_sys_mknodat :: "nenv \<Rightarrow> name \<Rightarrow> u32 \<Rightarrow> u64 \<Rightarrow> nat \<Rightarrow> ncall" where
  "do_sys_mknodat E path mode dev dir n = do {
     base \<leftarrow> file_dentry (get_fs_base path dir n) n;
     with_opened (mknod_vfs E path (umasked mode n) dev base n) (\<lambda>f n. Some (0, n))
   }"

text \<open>The common part of \<open>sys_mkdirat\<close> and \<open>sys_mknodat\<close>.\<close>

definition in_directory :: "nenv \<Rightarrow> int \<Rightarrow> nat \<Rightarrow> (name \<Rightarrow> nat \<Rightarrow> ncall) \<Rightarrow> ncall" where
  "in_directory E dirfd upath body n =
     with_opened (get_dirfd_file dirfd n) (\<lambda>d n. do {
       (fl, ino) \<leftarrow> file_inode d (sy n);
       if \<not> S_ISDIR (i_mode ino) then Some (- ENOTDIR, n)
       else from_user E upath (\<lambda>path. body path d) n
     })"

definition sys_mkdirat :: "nenv \<Rightarrow> int \<Rightarrow> nat \<Rightarrow> u32 \<Rightarrow> ncall" where
  "sys_mkdirat E dirfd upath mode = in_directory E dirfd upath (\<lambda>path. do_sys_mkdir E path mode)"

definition sys_mkdir :: "nenv \<Rightarrow> nat \<Rightarrow> u32 \<Rightarrow> ncall" where
  "sys_mkdir E = sys_mkdirat E AT_FDCWD"

definition sys_mknodat :: "nenv \<Rightarrow> int \<Rightarrow> nat \<Rightarrow> u32 \<Rightarrow> u64 \<Rightarrow> ncall" where
  "sys_mknodat E dirfd upath mode dev = in_directory E dirfd upath (\<lambda>path. do_sys_mknodat E path mode dev)"

definition sys_mknod :: "nenv \<Rightarrow> nat \<Rightarrow> u32 \<Rightarrow> u64 \<Rightarrow> ncall" where
  "sys_mknod E = sys_mknodat E AT_FDCWD"

definition do_sys_link :: "nenv \<Rightarrow> int \<Rightarrow> nat \<Rightarrow> int \<Rightarrow> nat \<Rightarrow> u32 \<Rightarrow> ncall" where
  "do_sys_link E olddirfd uoldpath newdirfd unewpath flags n =
     (if flags AND NOT (AT_SYMLINK_FOLLOW OR AT_EMPTY_PATH) \<noteq> 0 then Some (- EINVAL, n)
      else
        from_user E uoldpath (\<lambda>oldpath. from_user E unewpath (\<lambda>newpath.
          with_dirfd olddirfd (\<lambda>olddir. with_dirfd newdirfd (\<lambda>newdir n. do {
            let f1 = OPEN_FLAG_NOFOLLOW OR (if flags AND AT_EMPTY_PATH \<noteq> 0 then OPEN_FLAG_EMPTY_PATH else 0);
            let lookup_flags = (if flags AND AT_SYMLINK_FOLLOW \<noteq> 0 then f1 AND NOT OPEN_FLAG_NOFOLLOW else f1);
            with_opened (open_vfs_with_flags E (Some olddir) oldpath lookup_flags n) (\<lambda>src_file n. do {
              (fl, ino) \<leftarrow> file_inode src_file (sy n);
              if S_ISDIR (i_mode ino) then Some (- EPERM, n)
              else do {
                rel_base \<leftarrow> file_dentry newdir n;
                link_vfs E src_file rel_base newpath n
              }
            })
          })))) n)"

definition sys_link :: "nenv \<Rightarrow> nat \<Rightarrow> nat \<Rightarrow> ncall" where
  "sys_link E oldpath newpath = do_sys_link E AT_FDCWD oldpath AT_FDCWD newpath 0"

definition sys_linkat :: "nenv \<Rightarrow> int \<Rightarrow> nat \<Rightarrow> int \<Rightarrow> nat \<Rightarrow> u32 \<Rightarrow> ncall" where
  "sys_linkat E olddirfd oldpath newdirfd newpath flags = do_sys_link E olddirfd oldpath newdirfd newpath flags"

definition do_sys_unlink :: "nenv \<Rightarrow> int \<Rightarrow> nat \<Rightarrow> u32 \<Rightarrow> ncall" where
  "do_sys_unlink E dirfd upathname flags n =
     (if flags AND NOT AT_REMOVEDIR \<noteq> 0 then Some (- EINVAL, n)
      else with_dirfd dirfd (\<lambda>dir. from_user E upathname (\<lambda>pathname. unlink_vfs E pathname flags dir)) n)"

definition sys_unlink :: "nenv \<Rightarrow> nat \<Rightarrow> ncall" where
  "sys_unlink E pathname = do_sys_unlink E AT_FDCWD pathname 0"

definition sys_unlinkat :: "nenv \<Rightarrow> int \<Rightarrow> nat \<Rightarrow> u32 \<Rightarrow> ncall" where
  "sys_unlinkat E dirfd pathname flags = do_sys_unlink E dirfd pathname flags"

definition sys_rmdir :: "nenv \<Rightarrow> nat \<Rightarrow> ncall" where
  "sys_rmdir E pathname = do_sys_unlink E AT_FDCWD pathname AT_REMOVEDIR"

definition sys_symlinkat :: "nenv \<Rightarrow> nat \<Rightarrow> int \<Rightarrow> nat \<Rightarrow> ncall" where
  "sys_symlinkat E utarget newdirfd ulinkpath =
     from_user E utarget (\<lambda>target. from_user E ulinkpath (\<lambda>linkpath. with_dirfd newdirfd (\<lambda>dir n. do {
       d \<leftarrow> file_dentry dir n;
       with_opened (symlink_vfs E linkpath target d n) (\<lambda>f n. Some (0, n))
     })))"

definition sys_symlink :: "nenv \<Rightarrow> nat \<Rightarrow> nat \<Rightarrow> ncall" where
  "sys_symlink E target linkpath = sys_symlinkat E target AT_FDCWD linkpath"

section \<open>Renaming\<close>

text \<open>\<open>auto_dentry\<close>: the reference is dropped at the end of the function.\<close>

definition with_dentry :: "(nat option \<times> ns) option \<Rightarrow> (nat \<Rightarrow> ncall) \<Rightarrow> (int \<times> ns) option" where
  "with_dentry m body = do {
     (r, n1) \<leftarrow> m;
     case r of
       None \<Rightarrow> Some (- errno (sy n1), n1)
     | Some d \<Rightarrow> do {
         (st, n2) \<leftarrow> body d n1;
         n3 \<leftarrow> dput d n2;
         Some (st, n3)
       }
   }"

definition sys_renameat :: "nenv \<Rightarrow> int \<Rightarrow> nat \<Rightarrow> int \<Rightarrow> nat \<Rightarrow> ncall" where
  "sys_renameat E olddirfd uoldpath newdirfd unewpath =
     from_user E uoldpath (\<lambda>oldpath. from_user E unewpath (\<lambda>newpath.
       with_dirfd olddirfd (\<lambda>olddir. with_dirfd newdirfd (\<lambda>newdir n. do {
         base \<leftarrow> file_dentry olddir n;
         with_dentry (dentry_do_open E base oldpath OPEN_FLAG_NOFOLLOW n) (\<lambda>old n. do {
           mnt \<leftarrow> dentry_involved_with_mount old n;
           if mnt then Some (- EBUSY, n)
           else do {
             (i, ino) \<leftarrow> dent_inode old n;
             (ok, n1) \<leftarrow> ino_access i FILE_ACCESS_WRITE n;
             if \<not> ok then Some (- EACCES, n1)
             else do {
               newbase \<leftarrow> file_dentry newdir n1;
               with_dentry (generic_last_name_helper E newbase newpath (Rename old) 0 n1) (\<lambda>d n. Some (0, n))
             }
           }
         })
       }))))"

definition sys_rename :: "nenv \<Rightarrow> nat \<Rightarrow> nat \<Rightarrow> ncall" where
  "sys_rename E oldpath newpath = sys_renameat E AT_FDCWD oldpath AT_FDCWD newpath"

section \<open>Attributes\<close>

definition nofollow_flag :: "u32 \<Rightarrow> u32" where
  "nofollow_flag flags = (if flags AND AT_SYMLINK_NOFOLLOW \<noteq> 0 then OPEN_FLAG_NOFOLLOW else 0)"

definition stat_to_user :: "nenv \<Rightarrow> (stat \<Rightarrow> u8 list) \<Rightarrow> nat \<Rightarrow> nat \<Rightarrow> ncall" where
  "stat_to_user E stat_bytes ubuf f n = do {
     (st, buf) \<leftarrow> stat_vfs (ne_s E) f (sy n);
     if st \<noteq> 0 then Some (st, n)
     else
       (let (r, m) = copy_to_user ubuf (stat_bytes buf) (um (sy n))
        in Some (if r < 0 then - EFAULT else 0, n\<lparr>sy := (sy n)\<lparr>um := m\<rparr>\<rparr>))
   }"

definition sys_fstatat :: "nenv \<Rightarrow> (stat \<Rightarrow> u8 list) \<Rightarrow> int \<Rightarrow> nat \<Rightarrow> nat \<Rightarrow> u32 \<Rightarrow> ncall" where
  "sys_fstatat E stat_bytes dirfd upathname ubuf flags n =
     (if flags AND NOT (AT_SYMLINK_NOFOLLOW OR AT_EMPTY_PATH) \<noteq> 0 then Some (- EINVAL, n)
      else
        from_user E upathname (\<lambda>s. with_dirfd dirfd (\<lambda>f n.
          if flags AND AT_EMPTY_PATH \<noteq> 0 \<and> s = [] then stat_to_user E stat_bytes ubuf f n
          else with_opened (open_vfs_with_flags E (Some f) s (nofollow_flag flags) n) (stat_to_user E stat_bytes ubuf))) n)"

definition sys_stat :: "nenv \<Rightarrow> (stat \<Rightarrow> u8 list) \<Rightarrow> nat \<Rightarrow> nat \<Rightarrow> ncall" where
  "sys_stat E stat_bytes upathname ubuf = sys_fstatat E stat_bytes AT_FDCWD upathname ubuf 0"

definition sys_lstat :: "nenv \<Rightarrow> (stat \<Rightarrow> u8 list) \<Rightarrow> nat \<Rightarrow> nat \<Rightarrow> ncall" where
  "sys_lstat E stat_bytes upathname ubuf = sys_fstatat E stat_bytes AT_FDCWD upathname ubuf AT_SYMLINK_NOFOLLOW"

text \<open>Every failure to read the path is \<open>EFAULT\<close> here.\<close>

definition sys_faccessat :: "nenv \<Rightarrow> int \<Rightarrow> nat \<Rightarrow> u32 \<Rightarrow> u32 \<Rightarrow> ncall" where
  "sys_faccessat E dirfd upath amode flags = with_dirfd dirfd (\<lambda>f n. do {
     (r, n1) \<leftarrow> strcpy_from_user E upath n;
     case r of
       None \<Rightarrow> Some (- EFAULT, n1)
     | Some path \<Rightarrow> do {
         let msk = (if amode AND 4 \<noteq> 0 then FILE_ACCESS_READ else 0) OR
                   (if amode AND 1 \<noteq> 0 then FILE_ACCESS_EXECUTE else 0) OR
                   (if amode AND 2 \<noteq> 0 then FILE_ACCESS_WRITE else 0);
         with_opened (open_vfs E (Some f) path n1) (\<lambda>fl n. do {
           (ok, n1) \<leftarrow> on_sy (file_can_access fl msk) n;
           Some (if ok then 0 else - EACCES, n1)
         })
       }
   })"

definition sys_access :: "nenv \<Rightarrow> nat \<Rightarrow> u32 \<Rightarrow> ncall" where
  "sys_access E path amode = sys_faccessat E AT_FDCWD path amode 0"

definition sys_fchmodat :: "nenv \<Rightarrow> int \<Rightarrow> nat \<Rightarrow> u32 \<Rightarrow> u32 \<Rightarrow> ncall" where
  "sys_fchmodat E dirfd pathname mode flags n =
     (if flags AND NOT AT_SYMLINK_NOFOLLOW \<noteq> 0 then Some (- EINVAL, n)
      else
        from_user E pathname (\<lambda>path. with_dirfd dirfd (\<lambda>dir n.
          with_opened (open_vfs_with_flags E (Some dir) path (nofollow_flag flags) n) (\<lambda>f. on_sy (chmod_file (ne_s E) f mode)))) n)"

definition sys_chmod :: "nenv \<Rightarrow> nat \<Rightarrow> u32 \<Rightarrow> ncall" where
  "sys_chmod E pathname mode = sys_fchmodat E AT_FDCWD pathname mode 0"

definition sys_fchownat_core :: "nenv \<Rightarrow> int \<Rightarrow> name \<Rightarrow> u32 \<Rightarrow> u32 \<Rightarrow> u32 \<Rightarrow> ncall" where
  "sys_fchownat_core E dirfd pathname owner grp flags n =
     (if flags AND NOT (AT_EMPTY_PATH OR AT_SYMLINK_NOFOLLOW) \<noteq> 0 then Some (- EINVAL, n)
      else if pathname = [] then
        (if flags AND AT_EMPTY_PATH = 0 then Some (- ENOENT, n)
         else with_dirfd dirfd (\<lambda>f. on_sy (chown_file (ne_s E) f owner grp)) n)
      else do {
        (r, n1) \<leftarrow> get_dirfd_file dirfd n;
        case r of
          None \<Rightarrow> if errno (sy n1) = 0 then None else Some (- errno (sy n1), n1)
        | Some dir \<Rightarrow> do {
            (opened, n2) \<leftarrow> open_vfs_with_flags E (Some dir) pathname (nofollow_flag flags) n1;
            n3 \<leftarrow> fput dir n2;
            with_opened (Some (opened, n3)) (\<lambda>f. on_sy (chown_file (ne_s E) f owner grp))
          }
      })"

definition sys_fchownat :: "nenv \<Rightarrow> int \<Rightarrow> nat \<Rightarrow> u32 \<Rightarrow> u32 \<Rightarrow> u32 \<Rightarrow> ncall" where
  "sys_fchownat E dirfd pathname owner grp flags = from_user E pathname (\<lambda>s. sys_fchownat_core E dirfd s owner grp flags)"

definition sys_chown :: "nenv \<Rightarrow> nat \<Rightarrow> u32 \<Rightarrow> u32 \<Rightarrow> ncall" where
  "sys_chown E pathname owner grp = sys_fchownat E AT_FDCWD pathname owner grp 0"

definition sys_fchown :: "nenv \<Rightarrow> int \<Rightarrow> u32 \<Rightarrow> u32 \<Rightarrow> ncall" where
  "sys_fchown E fd owner grp = sys_fchownat_core E fd [] owner grp AT_EMPTY_PATH"

definition sys_lchown :: "nenv \<Rightarrow> nat \<Rightarrow> u32 \<Rightarrow> u32 \<Rightarrow> ncall" where
  "sys_lchown E pathname owner grp = sys_fchownat E AT_FDCWD pathname owner grp AT_SYMLINK_NOFOLLOW"

text \<open>A \<open>struct timespec\<close> is two signed 64-bit numbers.\<close>

definition timespec_of :: "u8 list \<Rightarrow> timespec" where
  "timespec_of bs = \<lparr>tv_sec = sint (of_nat (le_bytes (take 8 bs)) :: u64), tv_nsec = sint (of_nat (le_bytes (drop 8 bs)) :: u64)\<rparr>"

definition set_times :: "nenv \<Rightarrow> u8 list \<Rightarrow> nat \<Rightarrow> ncall" where
  "set_times E bs f n = do {
     (fl, ino) \<leftarrow> file_inode f (sy n);
     let ino' = utimensat_vfs (se_now (ne_s E)) (se_clock (ne_s E)) (timespec_of (take 16 bs)) (timespec_of (drop 16 bs)) ino;
     Some (0, n\<lparr>sy := set_dirty (f_ino fl) ino' (sy n)\<rparr>)
   }"

text \<open>A null \<open>pathname\<close> means the file \<open>dirfd\<close> itself.\<close>

definition sys_utimensat :: "nenv \<Rightarrow> int \<Rightarrow> nat \<Rightarrow> nat \<Rightarrow> u32 \<Rightarrow> ncall" where
  "sys_utimensat E dirfd pathname utimes flags n =
     (if flags AND NOT AT_SYMLINK_NOFOLLOW \<noteq> 0 then Some (- EINVAL, n)
      else
        (if pathname \<noteq> 0 then from_user E pathname else (\<lambda>body. body [])) (\<lambda>path n.
          (let (st, bs) = copy_from_user utimes 32 (um (sy n))
           in if st < 0 then Some (- EFAULT, n)
              else if pathname \<noteq> 0 then
                with_dirfd dirfd (\<lambda>dir n.
                  with_opened (open_vfs_with_flags E (Some dir) path (nofollow_flag flags) n) (set_times E bs)) n
              else if dirfd = AT_FDCWD then Some (- EFAULT, n)
              else with_dirfd dirfd (set_times E bs) n)) n)"

definition sys_readlinkat :: "nenv \<Rightarrow> int \<Rightarrow> nat \<Rightarrow> nat \<Rightarrow> u64 \<Rightarrow> ncall" where
  "sys_readlinkat E dirfd upathname ubuf bufsiz n =
     (if sint bufsiz < 0 then Some (- EINVAL, n)
      else
        from_user E upathname (\<lambda>pathname n. with_opened (get_dirfd_file dirfd n) (\<lambda>base n.
          with_opened (open_vfs_with_flags E (Some base) pathname OPEN_FLAG_NOFOLLOW n) (\<lambda>f n. do {
            (r, n1) \<leftarrow> on_sy (readlink_vfs (ne_s E) f) n;
            case r of
              None \<Rightarrow> Some (- errno (sy n1), n1)
            | Some buf \<Rightarrow>
                (let bytes = take (unat bufsiz) buf;
                     (st, m) = copy_to_user ubuf bytes (um (sy n1))
                 in Some (if st = 0 then int (length bytes) else st, n1\<lparr>sy := (sy n1)\<lparr>um := m\<rparr>\<rparr>))
          }))) n)"

definition sys_readlink :: "nenv \<Rightarrow> nat \<Rightarrow> nat \<Rightarrow> u64 \<Rightarrow> ncall" where
  "sys_readlink E pathname buf bufsiz = sys_readlinkat E AT_FDCWD pathname buf bufsiz"

section \<open>The working directory and mounting\<close>

definition sys_chdir :: "nenv \<Rightarrow> nat \<Rightarrow> ncall" where
  "sys_chdir E upath = from_user E upath (\<lambda>path n. do {
     (c, n1) \<leftarrow> on_sy get_current_directory n;
     curr \<leftarrow> c;
     (dir, n2) \<leftarrow> open_vfs E (Some (get_fs_base path curr n1)) path n1;
     n3 \<leftarrow> fput curr n2;
     case dir of
       None \<Rightarrow> Some (- errno (sy n3), n3)
     | Some f \<Rightarrow> do {
         (fl, ino) \<leftarrow> file_inode f (sy n3);
         if \<not> S_ISDIR (i_mode ino) then do { n4 \<leftarrow> fput f n3; Some (- ENOTDIR, n4) }
         else do {
           s1 \<leftarrow> lock_cwd (sy n3);
           old \<leftarrow> cwd (ctx (ks s1));
           s2 \<leftarrow> unlock_cwd (set_ctx ((ctx (ks s1))\<lparr>cwd := Some f\<rparr>) s1);
           n4 \<leftarrow> fput old (n3\<lparr>sy := s2\<rparr>);
           Some (0, n4)
         }
       }
   })"

definition sys_getcwd :: "nenv \<Rightarrow> nat \<Rightarrow> u64 \<Rightarrow> ncall" where
  "sys_getcwd E path bufsize n =
     (if bufsize = 0 \<and> path \<noteq> 0 then Some (- EINVAL, n)
      else do {
        (c, n1) \<leftarrow> on_sy get_current_directory n;
        cwd \<leftarrow> c;
        d \<leftarrow> file_dentry cwd n1;
        (nm, n2) \<leftarrow> dentry_to_file_name E d n1;
        n3 \<leftarrow> fput cwd n2;
        case nm of
          None \<Rightarrow> Some (- errno (sy n3), n3)
        | Some s \<Rightarrow>
            if unat bufsize < length s + 1 then Some (- ERANGE, n3)
            else
              (let (st, m) = copy_to_user path (s @ [0]) (um (sy n3));
                   n4 = n3\<lparr>sy := (sy n3)\<lparr>um := m\<rparr>\<rparr>
               in Some (if st < 0 then - errno (sy n4) else int (length s), n4))
      })"

definition sys_fmount :: "nenv \<Rightarrow> int \<Rightarrow> nat \<Rightarrow> ncall" where
  "sys_fmount E fd upath n =
     with_opened (on_sy (get_fd fd) n) (\<lambda>f. from_user E upath (\<lambda>path n. do {
       fl \<leftarrow> files (ks (sy n)) f;
       mount_fs E (f_ino fl) path n
     }))"

end
