(* ===== verification/Dcache_Invariant.thy ===== *)
theory Dcache_Invariant
  imports Namei
begin

text \<open>
  The well-formedness of the directory cache: every dentry in the hash table is alive, has a parent, carries the hash of its
  name and is in the bucket of its parent and name. Looking a name up through the hash table is then the same as scanning everything that is
  cached. The invariant holds after every system call on paths but \<open>rename\<close>, which changes the name of a dentry and leaves it in its
  old bucket.
\<close>

unbundle bit_operations_syntax

section \<open>The invariant\<close>

text \<open>The name a dentry was created with is \<open>nm\<close>; it is stored as it is unless it has 40 bytes.\<close>

definition hashed_ok :: "ns \<Rightarrow> nat \<Rightarrow> nat \<Rightarrow> bool" where
  "hashed_ok n i d \<longleftrightarrow>
     (\<exists>de p nm. dents n d = Some de \<and> d_parent de = Some p \<and> d_name de = stored_name nm \<and>
        d_name_hash de = fnv_hash (d_name de) \<and> i = dentry_ht_index p nm)"

definition cache_ok :: "ns \<Rightarrow> bool" where
  "cache_ok n \<longleftrightarrow> (\<forall>i. \<forall>d\<in>set (dentry_ht n i). hashed_ok n i d) \<and> (\<forall>d. dents n d \<noteq> None \<longrightarrow> d < next_obj n)"

lemma cache_okI:
  "(\<And>i d. d \<in> set (dentry_ht n i) \<Longrightarrow> hashed_ok n i d) \<Longrightarrow> (\<And>d de. dents n d = Some de \<Longrightarrow> d < next_obj n) \<Longrightarrow> cache_ok n"
  by (auto simp: cache_ok_def)

lemma cache_okD:
  assumes "cache_ok n"
  shows "d \<in> set (dentry_ht n i) \<Longrightarrow> hashed_ok n i d" "dents n d = Some de \<Longrightarrow> d < next_obj n"
  using assms by (auto simp: cache_ok_def)

text \<open>Only the dentries, the table and the next address matter.\<close>

lemma cache_ok_frame:
  assumes "cache_ok n" "dents n' = dents n" "dentry_ht n' = dentry_ht n" "next_obj n \<le> next_obj n'"
  shows "cache_ok n'"
  using assms by (fastforce simp: cache_ok_def hashed_ok_def)

text \<open>A dentry may change in everything but its parent and name; other dentries of the table may be dropped.\<close>

definition dent_like :: "dent \<Rightarrow> dent \<Rightarrow> bool" where
  "dent_like a b \<longleftrightarrow> d_parent b = d_parent a \<and> d_name b = d_name a \<and> d_name_hash b = d_name_hash a"

lemma cache_ok_shrink:
  assumes "cache_ok n" "next_obj n' = next_obj n"
    and "\<And>i. set (dentry_ht n' i) \<subseteq> set (dentry_ht n i)"
    and "\<And>d i de. d \<in> set (dentry_ht n' i) \<Longrightarrow> dents n d = Some de \<Longrightarrow> \<exists>de'. dents n' d = Some de' \<and> dent_like de de'"
    and "\<And>d. dents n' d \<noteq> None \<Longrightarrow> dents n d \<noteq> None"
  shows "cache_ok n'"
proof (rule cache_okI)
  fix i d assume d: "d \<in> set (dentry_ht n' i)"
  then have "hashed_ok n i d" using assms(1,3) by (auto simp: cache_ok_def)
  then obtain de p nm where de: "dents n d = Some de" "d_parent de = Some p" "d_name de = stored_name nm"
    "d_name_hash de = fnv_hash (d_name de)" "i = dentry_ht_index p nm"
    by (auto simp: hashed_ok_def)
  with assms(4) [OF d] show "hashed_ok n' i d" by (auto simp: hashed_ok_def dent_like_def)
next
  fix d de assume "dents n' d = Some de"
  then show "d < next_obj n'" using assms(1,2) assms(5) [of d] by (fastforce simp: cache_ok_def)
qed

section \<open>Partial correctness\<close>

definition may :: "'a option \<Rightarrow> ('a \<Rightarrow> bool) \<Rightarrow> bool" where
  "may m Q \<longleftrightarrow> (\<forall>a. m = Some a \<longrightarrow> Q a)"

definition okP :: "'a \<times> ns \<Rightarrow> bool" where "okP = (\<lambda>(r, n). cache_ok n)"
definition okT :: "'a \<times> 'b \<times> ns \<Rightarrow> bool" where "okT = (\<lambda>(r, x, n). cache_ok n)"

named_theorems may_intro

lemma may_None [may_intro]: "may None Q"
  by (simp add: may_def)

lemma may_Some [may_intro]:
  "cache_ok n \<Longrightarrow> may (Some n) cache_ok" "cache_ok n \<Longrightarrow> may (Some (r, n)) okP" "cache_ok n \<Longrightarrow> may (Some (r, x, n)) okT"
  by (auto simp: may_def okP_def okT_def)

lemma may_bindS: "may m cache_ok \<Longrightarrow> (\<And>n. cache_ok n \<Longrightarrow> may (f n) Q) \<Longrightarrow> may (m \<bind> f) Q"
  by (cases m) (auto simp: may_def)

lemma may_bindP: "may m okP \<Longrightarrow> (\<And>r n. cache_ok n \<Longrightarrow> may (f r n) Q) \<Longrightarrow> may (m \<bind> (\<lambda>(r, n). f r n)) Q"
  by (cases m) (auto simp: may_def okP_def)

lemma may_bindT: "may m okT \<Longrightarrow> (\<And>r x n. cache_ok n \<Longrightarrow> may (f r x n) Q) \<Longrightarrow> may (m \<bind> (\<lambda>(r, x, n). f r x n)) Q"
  by (cases m) (auto simp: may_def okT_def)

lemma may_bind_any: "(\<And>a. m = Some a \<Longrightarrow> may (f a) Q) \<Longrightarrow> may (m \<bind> f) Q"
  by (cases m) (auto simp: may_def)

text \<open>What is only read.\<close>

lemmas may_reads [may_intro] =
  may_bind_any [where m = "dents n d" for n d] may_bind_any [where m = "dent_inode d n" for n d]
  may_bind_any [where m = "inodes k i" for k i] may_bind_any [where m = "files k i" for k i] may_bind_any [where m = "drefs k i" for k i]
  may_bind_any [where m = "d_parent de" for de] may_bind_any [where m = "d_inode de" for de] may_bind_any [where m = "d_mount_dentry de" for de]
  may_bind_any [where m = "nd_location data" for data] may_bind_any [where m = "dentry_is_dir d n" for d n]
  may_bind_any [where m = "dentry_is_empty d n" for d n] may_bind_any [where m = "dentry_involved_with_mount d n" for d n]
  may_bind_any [where m = "cache_scan n p v ds" for n p v ds] may_bind_any [where m = "file_inode f s" for f s]
  may_bind_any [where m = "file_dentry f s" for f s] may_bind_any [where m = "mode_to_vfs_type w" for w]
  may_bind_any [where m = "creds_get c" for c]

lemma may_if [may_intro]: "(b \<Longrightarrow> may x Q) \<Longrightarrow> (\<not> b \<Longrightarrow> may y Q) \<Longrightarrow> may (if b then x else y) Q"
  by simp

lemma may_option [may_intro]:
  "(x = None \<Longrightarrow> may a Q) \<Longrightarrow> (\<And>y. x = Some y \<Longrightarrow> may (b y) Q) \<Longrightarrow> may (case x of None \<Rightarrow> a | Some y \<Rightarrow> b y) Q"
  by (cases x) auto

lemma may_sum [may_intro]:
  "(\<And>y. x = Inl y \<Longrightarrow> may (a y) Q) \<Longrightarrow> (\<And>y. x = Inr y \<Longrightarrow> may (b y) Q) \<Longrightarrow> may (case x of Inl y \<Rightarrow> a y | Inr y \<Rightarrow> b y) Q"
  by (cases x) auto

lemma may_prod [may_intro]: "(\<And>a b. x = (a, b) \<Longrightarrow> may (f a b) Q) \<Longrightarrow> may (case x of (a, b) \<Rightarrow> f a b) Q"
  by (cases x) auto

lemma may_Let [may_intro]: "(\<And>x. x = e \<Longrightarrow> may (f x) Q) \<Longrightarrow> may (let x = e in f x) Q"
  by simp

lemma may_bind_Some [may_intro]: "may (f x) Q \<Longrightarrow> may (Some x \<bind> f) Q"
  by simp

lemma may_case_pair [may_intro]: "may (f a b) Q \<Longrightarrow> may (case (a, b) of (a, b) \<Rightarrow> f a b) Q"
  by simp

lemma may_bind_if [may_intro]:
  "(b \<Longrightarrow> may (x \<bind> f) Q) \<Longrightarrow> (\<not> b \<Longrightarrow> may (y \<bind> f) Q) \<Longrightarrow> may ((if b then x else y) \<bind> f) Q"
  by simp

lemma may_bind_option [may_intro]:
  "(x = None \<Longrightarrow> may (a \<bind> f) Q) \<Longrightarrow> (\<And>y. x = Some y \<Longrightarrow> may (b y \<bind> f) Q) \<Longrightarrow>
     may ((case x of None \<Rightarrow> a | Some y \<Rightarrow> b y) \<bind> f) Q"
  by (cases x) auto

lemma may_assoc: "may (m \<bind> (\<lambda>x. g x \<bind> f)) Q \<Longrightarrow> may ((m \<bind> g) \<bind> f) Q"
  by simp

lemma may_assocP: "may (m \<bind> (\<lambda>(r, n). g r n \<bind> f)) Q \<Longrightarrow> may ((m \<bind> (\<lambda>(r, n). g r n)) \<bind> f) Q"
  by (cases m) auto

section \<open>Operations that do not touch the cache\<close>

lemma cache_ok_updates [simp]:
  "cache_ok (set_errno e n) = cache_ok n" "cache_ok (set_ks k n) = cache_ok n" "cache_ok (n\<lparr>sy := s\<rparr>) = cache_ok n"
  "cache_ok (n\<lparr>sb_curr_inode := c\<rparr>) = cache_ok n" "cache_ok (n\<lparr>boot_dentry := b\<rparr>) = cache_ok n" "cache_ok (n\<lparr>fs_root := f\<rparr>) = cache_ok n"
  by (simp_all add: cache_ok_def hashed_ok_def set_errno_def set_ks_def)

lemma kalloc_frame [simp]:
  "dents (snd (kalloc E n)) = dents n" "dentry_ht (snd (kalloc E n)) = dentry_ht n" "next_obj (snd (kalloc E n)) = next_obj n"
  by (simp_all add: kalloc_def set_ks_def split: prod.splits)

lemma may_kalloc [may_intro]:
  assumes "cache_ok n" "\<And>m n1. cache_ok n1 \<Longrightarrow> may (f m n1) Q"
  shows "may (let (m, n1) = kalloc E n in f m n1) Q" "may (let (m, n1) = (if b then kalloc E n else (c, n)) in f m n1) Q"
proof -
  have "cache_ok (snd (kalloc E n))" by (rule cache_ok_frame [OF assms(1)]) simp_all
  with assms show "may (let (m, n1) = kalloc E n in f m n1) Q" "may (let (m, n1) = (if b then kalloc E n else (c, n)) in f m n1) Q"
    by (auto simp: split_beta)
qed

lemma kalloc_ok: "kalloc E n = (m, n1) \<Longrightarrow> cache_ok n \<Longrightarrow> cache_ok n1"
  using kalloc_frame [of E n] by (auto intro: cache_ok_frame)

lemma cache_ok_next: "cache_ok n \<Longrightarrow> next_obj n \<le> k \<Longrightarrow> cache_ok (n\<lparr>next_obj := k\<rparr>)"
  by (rule cache_ok_frame) auto

lemma on_ks_ok: "cache_ok n \<Longrightarrow> may (on_ks f n) cache_ok"
  by (auto simp: may_def on_ks_def bind_eq_Some_conv)

lemma on_sy_ok: "cache_ok n \<Longrightarrow> may (on_sy f n) okP"
  by (auto simp: may_def okP_def on_sy_def bind_eq_Some_conv)

lemma dget_ok: "cache_ok n \<Longrightarrow> may (dget d n) cache_ok"
  unfolding dget_def by (rule on_ks_ok)

lemma upd_inode_ok: "cache_ok n \<Longrightarrow> may (upd_inode i f n) cache_ok"
  by (auto simp: may_def upd_inode_def bind_eq_Some_conv)

lemma change_nlink_ok: "cache_ok n \<Longrightarrow> may (change_nlink c i n) cache_ok"
  by (auto simp: may_def change_nlink_def bind_eq_Some_conv)

lemma ino_access_ok: "cache_ok n \<Longrightarrow> may (ino_access i p n) okP"
  by (auto simp: may_def okP_def ino_access_def bind_eq_Some_conv)

lemmas lock_ok = upd_inode_ok [where f = "\<lambda>ino. map_option (\<lambda>l. ino\<lparr>i_rwlock := l\<rparr>) (rw_lock_read (i_rwlock ino))", folded ilock_read_def]
  upd_inode_ok [where f = "\<lambda>ino. Some (ino\<lparr>i_rwlock := rw_unlock_read (i_rwlock ino)\<rparr>)", folded iunlock_read_def]
  upd_inode_ok [where f = "\<lambda>ino. map_option (\<lambda>l. ino\<lparr>i_rwlock := l\<rparr>) (rw_lock_write (i_rwlock ino))", folded ilock_write_def]
  upd_inode_ok [where f = "\<lambda>ino. Some (ino\<lparr>i_rwlock := rw_unlock_write (i_rwlock ino)\<rparr>)", folded iunlock_write_def]

lemmas nlink_ok = change_nlink_ok [where c = 1, folded inode_inc_nlink_def] change_nlink_ok [where c = "- 1", folded inode_dec_nlink_def]

lemmas plain_S = on_ks_ok dget_ok upd_inode_ok lock_ok nlink_ok
lemmas plain_P = on_sy_ok ino_access_ok

declare plain_S [may_intro] plain_P [may_intro] plain_S [THEN may_bindS, may_intro] plain_P [THEN may_bindP, may_intro]

section \<open>Changes of one dentry\<close>

lemma upd_dent_ok:
  assumes "cache_ok n" "\<And>de. dents n d = Some de \<Longrightarrow> dent_like de (f de)"
  shows "may (upd_dent d f n) cache_ok"
  unfolding may_def upd_dent_def set_dent_def
proof (clarsimp simp: bind_eq_Some_conv)
  fix de assume "dents n d = Some de"
  with assms show "cache_ok (n\<lparr>dents := (dents n)(d \<mapsto> f de)\<rparr>)"
    by (intro cache_ok_shrink [OF assms(1)]) (auto simp: dent_like_def split: if_splits)
qed

lemma dent_like_simps [simp]:
  "dent_like de (de\<lparr>d_children := c\<rparr>)" "dent_like de (de\<lparr>d_flags := fl\<rparr>)" "dent_like de (de\<lparr>d_inode := i\<rparr>)"
  "dent_like de (de\<lparr>d_mount_dentry := m\<rparr>)" "dent_like de (de\<lparr>d_mount_dentry := m, d_flags := fl\<rparr>)"
  by (simp_all add: dent_like_def)

lemma remove_child_ok: "cache_ok n \<Longrightarrow> may (remove_child p d n) cache_ok"
  unfolding remove_child_def by (rule upd_dent_ok) simp_all

text \<open>Taking a dentry out of the table, and the changes that need it.\<close>

lemma dentry_remove_from_cacheD:
  "dentry_remove_from_cache d n = Some n' \<Longrightarrow> n' = n\<lparr>dentry_ht := (\<lambda>i. removeAll d (dentry_ht n i))\<rparr>"
  unfolding dentry_remove_from_cache_def by (metis option.distinct(1) option.inject)

lemma dentry_remove_from_cache_ok:
  assumes "cache_ok n"
  shows "may (dentry_remove_from_cache d n) cache_ok"
  unfolding may_def
  by (auto dest!: dentry_remove_from_cacheD intro!: cache_ok_shrink [OF assms] simp: dent_like_def)

lemma drop_dent_ok:
  assumes "cache_ok n" "\<And>i. d \<notin> set (dentry_ht n i)"
  shows "cache_ok (n\<lparr>dents := (dents n)(d := None)\<rparr>)"
  using assms(2) by (intro cache_ok_shrink [OF assms(1)]) (auto simp: dent_like_def split: if_splits)

lemma upd_dent_frame:
  "upd_dent d f n = Some n' \<Longrightarrow> dentry_ht n' = dentry_ht n \<and> next_obj n' = next_obj n"
  by (auto simp: upd_dent_def set_dent_def bind_eq_Some_conv)

lemma on_ks_frame:
  "on_ks f n = Some n' \<Longrightarrow> dents n' = dents n \<and> dentry_ht n' = dentry_ht n \<and> next_obj n' = next_obj n"
  by (auto simp: on_ks_def set_ks_def bind_eq_Some_conv)

lemma not_hashed: "cache_ok n \<Longrightarrow> dents n d = Some de \<Longrightarrow> d_parent de = None \<Longrightarrow> d \<notin> set (dentry_ht n i)"
  by (fastforce simp: cache_ok_def hashed_ok_def)

text \<open>The end of the destruction of a dentry, once it is out of the table.\<close>

lemma destroy_tail_ok:
  assumes "cache_ok n4" "\<And>i. d \<notin> set (dentry_ht n4 i)"
    and "do {
       n5 \<leftarrow> (case d_inode de of None \<Rightarrow> Some n4 | Some i \<Rightarrow> on_ks (inode_unref i) n4);
       Some (n5\<lparr>dents := (dents n5)(d := None)\<rparr>)
     } = Some n'"
  shows "cache_ok n'" "\<And>i. dentry_ht n' i = dentry_ht n4 i" "next_obj n' = next_obj n4"
proof -
  from assms(3) obtain n5 where n5: "dents n5 = dents n4" "dentry_ht n5 = dentry_ht n4" "next_obj n5 = next_obj n4"
    "n' = n5\<lparr>dents := (dents n5)(d := None)\<rparr>"
    by (auto simp: bind_eq_Some_conv split: option.splits dest: on_ks_frame)
  have "cache_ok n5" by (rule cache_ok_frame [OF assms(1)]) (simp_all add: n5)
  then show "cache_ok n'" using assms(2) unfolding n5(4) by (intro drop_dent_ok) (simp_all add: n5)
  show "\<And>i. dentry_ht n' i = dentry_ht n4 i" "next_obj n' = next_obj n4" by (simp_all add: n5)
qed

definition shrinks :: "ns \<Rightarrow> ns \<Rightarrow> bool" where
  "shrinks n n' \<longleftrightarrow> cache_ok n' \<and> (\<forall>i. set (dentry_ht n' i) \<subseteq> set (dentry_ht n i)) \<and> next_obj n' = next_obj n"

lemma shrinks_trans: "shrinks a b \<Longrightarrow> shrinks b c \<Longrightarrow> shrinks a c"
  by (auto simp: shrinks_def)

lemma shrinks_away: "shrinks a b \<Longrightarrow> (\<And>i. d \<notin> set (dentry_ht a i)) \<Longrightarrow> d \<notin> set (dentry_ht b i)"
  by (auto simp: shrinks_def)

lemma unhash_shrinks:
  assumes "cache_ok n" "remove_child p d n = Some n1" "dentry_remove_from_cache d n1 = Some n2"
  shows "shrinks n n2" "\<And>i. d \<notin> set (dentry_ht n2 i)"
proof -
  have 1: "cache_ok n1" "dentry_ht n1 = dentry_ht n" "next_obj n1 = next_obj n"
    using remove_child_ok [OF assms(1), of p d] assms(2) by (auto simp: may_def remove_child_def dest: upd_dent_frame)
  have 2: "cache_ok n2" "\<And>i. d \<notin> set (dentry_ht n2 i)" "next_obj n2 = next_obj n1" "\<And>i. set (dentry_ht n2 i) \<subseteq> set (dentry_ht n1 i)"
    using dentry_remove_from_cache_ok [OF 1(1), of d] assms(3) dentry_remove_from_cacheD [OF assms(3)] by (simp_all add: may_def)
  show "shrinks n n2" "\<And>i. d \<notin> set (dentry_ht n2 i)" using 1 2 by (auto simp: shrinks_def)
qed

lemma dput_shrinks:
  assumes "dput d n = Some n'"
  shows "cache_ok n \<longrightarrow> shrinks n n'"
proof (rule dput.raw_induct [where P = "\<lambda>d n n'. cache_ok n \<longrightarrow> shrinks n n'", OF _ assms], goal_cases)
  case (1 dput d n n')
  show ?case
  proof
    assume ok: "cache_ok n"
    from 1(2) obtain n1 where n1: "on_ks (dentry_put (Some d)) n = Some n1" by (auto simp: bind_eq_Some_conv)
    then have f1: "dents n1 = dents n" "dentry_ht n1 = dentry_ht n" "next_obj n1 = next_obj n" by (auto dest: on_ks_frame)
    have ok1: "cache_ok n1" "shrinks n n1" using cache_ok_frame [OF ok f1(1,2)] f1 by (auto simp: shrinks_def)
    show "shrinks n n'"
    proof (cases "drefs (ks (sy n1)) d")
      case Some then show ?thesis using 1(2) n1 ok1 by simp
    next
      case None
      with 1(2) n1 obtain de n4 where de: "dents n1 d = Some de"
        and n4: "(case d_parent de of None \<Rightarrow> Some n1 | Some p \<Rightarrow> do { n2 \<leftarrow> remove_child p d n1; n3 \<leftarrow> dentry_remove_from_cache d n2; dput p n3 }) = Some n4"
        and tail: "do { n5 \<leftarrow> (case d_inode de of None \<Rightarrow> Some n4 | Some i \<Rightarrow> on_ks (inode_unref i) n4);
          Some (n5\<lparr>dents := (dents n5)(d := None)\<rparr>) } = Some n'"
        by (auto simp: bind_eq_Some_conv)
      have 4: "shrinks n1 n4 \<and> (\<forall>i. d \<notin> set (dentry_ht n4 i))"
      proof (cases "d_parent de")
        case None then show ?thesis using n4 not_hashed [OF ok1(1) de] ok1(1) by (auto simp: shrinks_def)
      next
        case (Some p)
        with n4 obtain n2 n3 where c: "remove_child p d n1 = Some n2" "dentry_remove_from_cache d n2 = Some n3" "dput p n3 = Some n4"
          by (auto simp: bind_eq_Some_conv)
        note u = unhash_shrinks [OF ok1(1) c(1,2)]
        with 1(1) [OF c(3)] have "shrinks n3 n4" by (simp add: shrinks_def)
        then show ?thesis using shrinks_trans [OF u(1)] shrinks_away [OF _ u(2)] by blast
      qed
      then have "cache_ok n4" by (simp add: shrinks_def)
      from destroy_tail_ok [OF this _ tail] 4 have "shrinks n4 n'" by (auto simp: shrinks_def)
      with 4 ok1(2) show ?thesis by (blast intro: shrinks_trans)
    qed
  qed
qed

lemma dput_ok: "cache_ok n \<Longrightarrow> may (dput d n) cache_ok"
  using dput_shrinks by (auto simp: may_def shrinks_def)

lemma put_opt_ok: "cache_ok n \<Longrightarrow> may (put_opt d n) cache_ok"
  by (auto simp: put_opt_def dput_ok may_Some split: option.split)

lemma dentry_destroy_ok:
  assumes "cache_ok n"
  shows "may (dentry_destroy d n) cache_ok"
  unfolding may_def
proof safe
  fix n' assume "dentry_destroy d n = Some n'"
  then obtain de n3 where de: "dents n d = Some de"
    and n3: "(case d_parent de of None \<Rightarrow> Some n | Some p \<Rightarrow> do { n1 \<leftarrow> remove_child p d n; n2 \<leftarrow> dentry_remove_from_cache d n1; dput p n2 }) = Some n3"
    and tail: "do { n4 \<leftarrow> (case d_inode de of None \<Rightarrow> Some n3 | Some i \<Rightarrow> on_ks (inode_unref i) n3);
      Some (n4\<lparr>dents := (dents n4)(d := None)\<rparr>) } = Some n'"
    by (auto simp: dentry_destroy_def bind_eq_Some_conv)
  have "cache_ok n3 \<and> (\<forall>i. d \<notin> set (dentry_ht n3 i))"
  proof (cases "d_parent de")
    case None then show ?thesis using n3 not_hashed [OF assms de] assms by auto
  next
    case (Some p)
    with n3 obtain n1 n2 where c: "remove_child p d n = Some n1" "dentry_remove_from_cache d n1 = Some n2" "dput p n2 = Some n3"
      by (auto simp: bind_eq_Some_conv)
    note u = unhash_shrinks [OF assms c(1,2)]
    then have "shrinks n2 n3" using dput_shrinks [OF c(3)] by (simp add: shrinks_def)
    then show ?thesis using shrinks_away [OF _ u(2)] by (auto simp: shrinks_def)
  qed
  then show "cache_ok n'" using destroy_tail_ok(1) [OF _ _ tail] by blast
qed

lemma dentry_parent_ok: "cache_ok n \<Longrightarrow> may (dentry_parent d n) okP"
  unfolding dentry_parent_def by (intro may_intro)

lemmas drop_S = dput_ok put_opt_ok dentry_destroy_ok remove_child_ok dentry_remove_from_cache_ok
declare drop_S [may_intro] drop_S [THEN may_bindS, may_intro] dentry_parent_ok [may_intro] dentry_parent_ok [THEN may_bindP, may_intro]

lemma upd_dent_like [may_intro]:
  assumes "cache_ok n" "\<And>de. dent_like de (f de)"
  shows "may (upd_dent d f n) cache_ok" "(\<And>n'. cache_ok n' \<Longrightarrow> may (g n') Q) \<Longrightarrow> may (upd_dent d f n \<bind> g) Q"
  using upd_dent_ok [OF assms(1), of d f] assms(2) by (auto intro: may_bindS)

section \<open>Creation\<close>

text \<open>A new dentry is not in the table yet; it carries the stored name and its hash.\<close>

definition fresh_dent :: "nat option \<Rightarrow> name \<Rightarrow> nat \<Rightarrow> ns \<Rightarrow> bool" where
  "fresh_dent parent nm d n \<longleftrightarrow> cache_ok n \<and> (\<forall>i. d \<notin> set (dentry_ht n i)) \<and>
     (\<exists>de. dents n d = Some de \<and> d_parent de = parent \<and> d_name de = stored_name nm \<and> d_name_hash de = fnv_hash (d_name de))"

lemma fresh_dent_new:
  assumes "cache_ok n" "d_parent de = parent" "d_name de = stored_name nm" "d_name_hash de = fnv_hash (d_name de)"
  shows "fresh_dent parent nm (next_obj n) ((set_dent (next_obj n) de (set_ks k n))\<lparr>next_obj := next_obj n + 1\<rparr>)"
proof -
  have away: "next_obj n \<notin> set (dentry_ht n i)" for i
    using assms(1) by (fastforce simp: cache_ok_def hashed_ok_def)
  have "cache_ok ((set_dent (next_obj n) de (set_ks k n))\<lparr>next_obj := next_obj n + 1\<rparr>)"
  proof (rule cache_okI)
    fix i d assume d: "d \<in> set (dentry_ht ((set_dent (next_obj n) de (set_ks k n))\<lparr>next_obj := next_obj n + 1\<rparr>) i)"
    then have "d \<in> set (dentry_ht n i)" "d \<noteq> next_obj n" using away by (auto simp: set_dent_def set_ks_def)
    with cache_okD(1) [OF assms(1)] show "hashed_ok ((set_dent (next_obj n) de (set_ks k n))\<lparr>next_obj := next_obj n + 1\<rparr>) i d"
      by (simp add: hashed_ok_def set_dent_def set_ks_def)
  next
    fix d de' assume "dents ((set_dent (next_obj n) de (set_ks k n))\<lparr>next_obj := next_obj n + 1\<rparr>) d = Some de'"
    then show "d < next_obj ((set_dent (next_obj n) de (set_ks k n))\<lparr>next_obj := next_obj n + 1\<rparr>)"
      using cache_okD(2) [OF assms(1)] by (fastforce simp: set_dent_def set_ks_def split: if_splits)
  qed
  with away assms show ?thesis by (simp add: fresh_dent_def set_dent_def set_ks_def)
qed

lemma fresh_dent_on_ks: "on_ks f n = Some n' \<Longrightarrow> fresh_dent p nm d n \<Longrightarrow> fresh_dent p nm d n'"
  using on_ks_ok [of n f] by (auto simp: fresh_dent_def may_def dest!: on_ks_frame)

lemma fresh_dent_upd:
  assumes "upd_dent x f n = Some n'" "fresh_dent p nm d n" "\<And>de. dent_like de (f de)"
  shows "fresh_dent p nm d n'"
proof -
  have "cache_ok n'" using upd_dent_ok [of n x f] assms by (auto simp: fresh_dent_def may_def)
  with assms show ?thesis
    by (auto simp: fresh_dent_def upd_dent_def set_dent_def bind_eq_Some_conv dent_like_def)
qed

lemma dentry_create_fresh:
  assumes "cache_ok n" "dentry_create E nm ino parent n = Some (r, n')"
  shows "cache_ok n' \<and> (\<forall>d. r = Some d \<longrightarrow> fresh_dent parent nm d n')"
proof -
  obtain m n1 where 1: "kalloc E n = (m, n1)" by fastforce
  obtain m' n2 where 2: "(if m \<and> INLINE_NAME_MAX < length nm then kalloc E n1 else (m, n1)) = (m', n2)" by fastforce
  have ok: "cache_ok n2"
    using kalloc_ok [OF 1 assms(1)] kalloc_ok [of E n1] 2 by (auto split: if_splits)
  from assms(2) obtain isdir where isdir: "(case parent of None \<Rightarrow> Some True | Some p \<Rightarrow> dentry_is_dir p n) = Some isdir"
    by (auto simp: dentry_create_def bind_eq_Some_conv)
  note eq = assms(2) [unfolded dentry_create_def isdir bind.simps(2) 1 Let_def case_prod_conv 2]
  show ?thesis
  proof (cases "isdir \<and> m'")
    case False
    then show ?thesis using eq assms(1) ok by (auto split: if_splits)
  next
    case True
    let ?d = "next_obj n2"
    let ?de = "\<lparr>d_name = stored_name nm, d_inline = (length nm \<le> INLINE_NAME_MAX), d_name_hash = fnv_hash (stored_name nm),
       d_inode = ino, d_parent = parent, d_children = [], d_mount_dentry = None, d_flags = 0\<rparr>"
    let ?n3 = "(set_dent ?d ?de (set_ks ((ks (sy n2))\<lparr>drefs := (drefs (ks (sy n2)))(?d \<mapsto> 1)\<rparr>) n2))\<lparr>next_obj := ?d + 1\<rparr>"
    have f3: "fresh_dent parent nm ?d ?n3" by (rule fresh_dent_new [OF ok]) simp_all
    from True eq obtain n4 n5 where
      n4: "(case ino of None \<Rightarrow> Some ?n3 | Some i \<Rightarrow> on_ks (inode_ref i) ?n3) = Some n4"
      and n5: "(case parent of None \<Rightarrow> Some n4 | Some p \<Rightarrow> upd_dent p (\<lambda>pe. pe\<lparr>d_children := d_children pe @ [?d]\<rparr>) n4 \<bind> dget p) = Some n5"
      and r: "r = Some ?d" "n' = n5"
      by (auto simp: bind_eq_Some_conv)
    have "fresh_dent parent nm ?d n4" using n4 f3 by (auto split: option.splits intro: fresh_dent_on_ks)
    then have "fresh_dent parent nm ?d n5"
      using n5 by (auto split: option.splits simp: bind_eq_Some_conv dget_def
          intro!: fresh_dent_on_ks [where n' = n5] elim!: fresh_dent_upd)
    then show ?thesis by (simp add: r fresh_dent_def)
  qed
qed

lemma dentry_create_ok: "cache_ok n \<Longrightarrow> may (dentry_create E nm ino parent n) okP"
  using dentry_create_fresh by (fastforce simp: may_def okP_def)

text \<open>Putting it into the bucket of its parent and name.\<close>

lemma hash_insert_ok:
  assumes "fresh_dent (Some p) nm d n"
  shows "cache_ok (n\<lparr>dentry_ht := (dentry_ht n)(dentry_ht_index p nm := dentry_ht n (dentry_ht_index p nm) @ [d])\<rparr>)"
  using assms by (auto simp: fresh_dent_def cache_ok_def hashed_ok_def split: if_splits)

lemma dentry_create_bind:
  assumes "cache_ok n" "\<And>r n'. cache_ok n' \<Longrightarrow> (\<And>d. r = Some d \<Longrightarrow> fresh_dent parent nm d n') \<Longrightarrow> may (f r n') Q"
  shows "may (dentry_create E nm ino parent n \<bind> (\<lambda>(r, n'). f r n')) Q"
  using assms(2) dentry_create_fresh [OF assms(1)] by (auto intro!: may_bind_any)

lemma dentry_open_from_cache_ok: "cache_ok n \<Longrightarrow> may (dentry_open_from_cache p v n) okP"
  unfolding dentry_open_from_cache_def by (intro may_intro)

lemma dentry_wait_for_pending_ok: "cache_ok n \<Longrightarrow> may (dentry_wait_for_pending d n) okP"
  unfolding dentry_wait_for_pending_def by (intro may_intro)

lemmas cache_P = dentry_open_from_cache_ok dentry_wait_for_pending_ok
declare cache_P [may_intro] cache_P [THEN may_bindP, may_intro]

lemma hash_new_ok:
  assumes "fresh_dent (Some p) nm d n" "\<And>de. dent_like de (g de)"
  shows "may (do {
       n4 \<leftarrow> upd_dent d g n;
       let i = dentry_ht_index p nm;
       Some (Inr d, n4\<lparr>dentry_ht := (dentry_ht n4)(i := dentry_ht n4 i @ [d])\<rparr>)
     }) okP"
  using assms by (auto intro!: may_bind_any may_intro hash_insert_ok simp: Let_def dest: fresh_dent_upd)

lemma dentry_create_pending_lookup_ok: "cache_ok n \<Longrightarrow> may (dentry_create_pending_lookup E nm ino p chk n) okP"
  unfolding dentry_create_pending_lookup_def
  by (intro may_intro dentry_create_bind hash_new_ok) auto

section \<open>Removal\<close>

text \<open>Between the change of its parent and its removal from the table, one dentry is in a wrong bucket.\<close>

definition cache_but :: "nat \<Rightarrow> ns \<Rightarrow> bool" where
  "cache_but d n \<longleftrightarrow> (\<forall>i. \<forall>x\<in>set (dentry_ht n i). x \<noteq> d \<longrightarrow> hashed_ok n i x) \<and> (\<forall>x. dents n x \<noteq> None \<longrightarrow> x < next_obj n)"

lemma cache_but_upd: "cache_ok n \<Longrightarrow> upd_dent d f n = Some n' \<Longrightarrow> cache_but d n'"
  by (auto simp: cache_ok_def cache_but_def hashed_ok_def upd_dent_def set_dent_def bind_eq_Some_conv split: if_splits)

lemma cache_but_frame:
  "cache_but d n \<Longrightarrow> dents n' = dents n \<Longrightarrow> dentry_ht n' = dentry_ht n \<Longrightarrow> next_obj n' = next_obj n \<Longrightarrow> cache_but d n'"
  by (simp add: cache_but_def hashed_ok_def)

lemma cache_but_remove: "cache_but d n \<Longrightarrow> dentry_remove_from_cache d n = Some n' \<Longrightarrow> cache_ok n'"
  by (auto dest!: dentry_remove_from_cacheD simp: cache_but_def cache_ok_def hashed_ok_def)

lemma nlink_frame:
  "change_nlink c i n = Some n' \<Longrightarrow> dents n' = dents n \<and> dentry_ht n' = dentry_ht n \<and> next_obj n' = next_obj n"
  by (auto simp: change_nlink_def bind_eq_Some_conv)

lemma dentry_do_unlink_ok:
  assumes "cache_ok n"
  shows "may (dentry_do_unlink d n) cache_ok"
  unfolding dentry_do_unlink_def
proof (intro may_bind_any)
  fix de n1 i n2 isdir n4 n5 n6
  assume n1: "upd_dent d (\<lambda>de. de\<lparr>d_parent := None\<rparr>) n = Some n1" and n2: "inode_dec_nlink i n1 = Some n2"
    and n4: "(if isdir then do { p \<leftarrow> d_parent de; (j, pino) \<leftarrow> dent_inode p n2; n3 \<leftarrow> inode_dec_nlink j n2; inode_dec_nlink i n3 }
       else Some n2) = Some n4"
    and n5: "dentry_remove_from_cache d n4 = Some n5"
    and n6: "(case d_parent de of None \<Rightarrow> None | Some p \<Rightarrow> remove_child p d n5) = Some n6"
  have "cache_but d n1" by (rule cache_but_upd [OF assms n1])
  moreover have "dents n4 = dents n1 \<and> dentry_ht n4 = dentry_ht n1 \<and> next_obj n4 = next_obj n1"
    using n2 n4 by (auto simp: inode_dec_nlink_def bind_eq_Some_conv split: if_splits dest!: nlink_frame)
  ultimately have "cache_ok n5" using cache_but_frame cache_but_remove [OF _ n5] by blast
  then have "cache_ok n6" using n6 remove_child_ok by (auto simp: may_def split: option.splits)
  then show "may (dput d n6) cache_ok" by (rule dput_ok)
qed

lemma dentry_fail_lookup_ok:
  assumes "cache_ok n"
  shows "may (dentry_fail_lookup d n) cache_ok"
  unfolding may_def
proof safe
  fix n' assume "dentry_fail_lookup d n = Some n'"
  then obtain n1 de p n2 n3 n4 where n1: "dentry_remove_from_cache d n = Some n1" and n2: "remove_child p d n1 = Some n2"
    and n3: "dput p n2 = Some n3" and n4: "upd_dent d (\<lambda>de. de\<lparr>d_parent := None,
      d_flags := (d_flags de OR DENTRY_FLAG_FAILED) AND NOT DENTRY_FLAG_PENDING\<rparr>) n3 = Some n4" and n5: "dput d n4 = Some n'"
    by (auto simp: dentry_fail_lookup_def bind_eq_Some_conv)
  have 1: "cache_ok n1" using dentry_remove_from_cache_ok [OF assms] n1 by (auto simp: may_def)
  have 2: "cache_ok n2" "dentry_ht n2 = dentry_ht n1" using remove_child_ok [OF 1] n2 by (auto simp: may_def remove_child_def dest: upd_dent_frame)
  have "d \<notin> set (dentry_ht n2 i)" for i using dentry_remove_from_cacheD [OF n1] 2(2) by simp
  then have 3: "cache_ok n3" "\<And>i. d \<notin> set (dentry_ht n3 i)" using dput_shrinks [OF n3] 2(1) by (auto simp: shrinks_def)
  then have "cache_ok n4" using cache_but_upd [OF 3(1) n4] upd_dent_frame [OF n4] by (simp add: cache_but_def cache_ok_def) metis
  then show "cache_ok n'" using n5 dput_ok by (auto simp: may_def)
qed

lemma dentry_complete_lookup_ok: "cache_ok n \<Longrightarrow> may (dentry_complete_lookup d n) cache_ok"
  unfolding dentry_complete_lookup_def by (intro may_intro) simp_all

lemma dentry_kill_unlocked_ok:
  assumes "cache_ok n"
  shows "may (dentry_kill_unlocked d n) cache_ok"
  unfolding may_def
proof safe
  fix n' assume "dentry_kill_unlocked d n = Some n'"
  then obtain de n3 n4 n5 where de: "dents n d = Some de"
    and n3: "(case d_parent de of None \<Rightarrow> Some n | Some p \<Rightarrow> do { n1 \<leftarrow> remove_child p d n; n2 \<leftarrow> dput p n1;
      upd_dent d (\<lambda>de. de\<lparr>d_parent := None\<rparr>) n2 }) = Some n3"
    and n4: "dentry_remove_from_cache d n3 = Some n4" and n5: "dentry_destroy d n4 = Some n5"
    and n': "on_ks (\<lambda>k. Some (k\<lparr>drefs := (drefs k)(d := None)\<rparr>)) n5 = Some n'"
    by (auto simp: dentry_kill_unlocked_def bind_eq_Some_conv split: if_splits)
  have "cache_but d n3"
  proof (cases "d_parent de")
    case None then show ?thesis using n3 assms by (simp add: cache_but_def cache_ok_def)
  next
    case (Some p)
    with n3 obtain n1 n2 where c: "remove_child p d n = Some n1" "dput p n1 = Some n2" "upd_dent d (\<lambda>de. de\<lparr>d_parent := None\<rparr>) n2 = Some n3"
      by (auto simp: bind_eq_Some_conv)
    then have "cache_ok n2" using remove_child_ok [OF assms] dput_ok by (metis may_def)
    then show ?thesis using cache_but_upd [OF _ c(3)] by blast
  qed
  then have "cache_ok n4" using cache_but_remove [OF _ n4] by blast
  then have "cache_ok n5" using dentry_destroy_ok [of n4 d] n5 by (simp add: may_def)
  then show "cache_ok n'" using on_ks_frame [OF n'] by (auto intro: cache_ok_frame)
qed

lemmas remove_S = dentry_do_unlink_ok dentry_fail_lookup_ok dentry_complete_lookup_ok dentry_kill_unlocked_ok
declare remove_S [may_intro] remove_S [THEN may_bindS, may_intro]
  dentry_create_pending_lookup_ok [may_intro] dentry_create_pending_lookup_ok [THEN may_bindP, may_intro]

section \<open>Lookups and the handlers of the last name\<close>

text \<open>What the cache relies on: the operations of a file system leave it well-formed. First the one a lookup needs, then all.\<close>

locale fs_lookup =
  fixes E :: nenv
  assumes fs_open_ok: "cache_ok n \<Longrightarrow> may (fs_open E d nm n) okP"
begin

lemmas fs_open_bind = fs_open_ok [THEN may_bindP]

lemma dentry_try_to_open_ok: "cache_ok n \<Longrightarrow> may (dentry_try_to_open E nm dir n) okP"
  unfolding dentry_try_to_open_def by (intro may_intro fs_open_bind) (simp_all add: may_intro)

lemma dentry_lookup_internal_ok: "cache_ok n \<Longrightarrow> may (dentry_lookup_internal E v dir fl n) okP"
  unfolding dentry_lookup_internal_def
  by (intro may_intro may_assoc dentry_try_to_open_ok) simp_all

end

definition is_rename :: "last_name_handling option \<Rightarrow> bool" where
  "is_rename h = (case h of Some (Rename old) \<Rightarrow> True | _ \<Rightarrow> False)"

locale fs_ops = fs_lookup +
  assumes fs_creat_ok: "cache_ok n \<Longrightarrow> may (fs_creat E nm mode d n) okP"
    and fs_mkdir_ok: "cache_ok n \<Longrightarrow> may (fs_mkdir E nm mode d n) okP"
    and fs_mknod_ok: "cache_ok n \<Longrightarrow> may (fs_mknod E nm mode dev d n) okP"
    and fs_symlink_ok: "cache_ok n \<Longrightarrow> may (fs_symlink E nm dest d n) okP"
    and fs_link_ok: "cache_ok n \<Longrightarrow> may (fs_link E i nm d n) okP"
    and fs_unlink_ok: "cache_ok n \<Longrightarrow> may (fs_unlink E nm flags d n) okP"
    and fs_on_open_ok: "cache_ok n \<Longrightarrow> may (fs_on_open E f n) okP"
begin

lemmas fs_binds = fs_creat_ok [THEN may_bindP] fs_mkdir_ok [THEN may_bindP] fs_mknod_ok [THEN may_bindP] fs_symlink_ok [THEN may_bindP]
  fs_link_ok [THEN may_bindP] fs_unlink_ok [THEN may_bindP] dentry_lookup_internal_ok [THEN may_bindP]

lemma fs_create_ok:
  "cache_ok n \<Longrightarrow> may (case ty of C_creat \<Rightarrow> fs_creat E nm mode d n | C_mknod \<Rightarrow> fs_mknod E nm mode dev d n
     | C_mkdir \<Rightarrow> fs_mkdir E nm mode d n) okP"
  by (cases ty) (simp_all add: fs_creat_ok fs_mkdir_ok fs_mknod_ok)

lemma create_handling_ok: "cache_ok n \<Longrightarrow> may (create_handling E ty mode dev data nm n) okP"
  unfolding create_handling_def by (intro may_intro fs_binds fs_create_ok [THEN may_bindP]) simp_all

lemma symlink_handling_ok: "cache_ok n \<Longrightarrow> may (symlink_handling E dest data nm n) okP"
  unfolding symlink_handling_def by (intro may_intro fs_binds) simp_all

lemma link_handling_ok: "cache_ok n \<Longrightarrow> may (link_handling E dest data nm n) okP"
  unfolding link_handling_def by (intro may_intro fs_binds) simp_all

lemma unlink_handling_ok: "cache_ok n \<Longrightarrow> may (unlink_handling E flags data nm n) okP"
  unfolding unlink_handling_def by (intro may_intro fs_binds) simp_all

text \<open>All handlers but that of \<open>rename\<close>.\<close>

lemma handle_last_ok: "cache_ok n \<Longrightarrow> \<not> is_rename (Some h) \<Longrightarrow> may (handle_last E h data nm n) okP"
  by (cases h) (simp_all add: handle_last_def is_rename_def create_handling_ok symlink_handling_ok link_handling_ok unlink_handling_ok)

end

section \<open>Path resolution\<close>

lemma readlink_inode_ok: "cache_ok n \<Longrightarrow> may (readlink_inode E i n) okP"
  unfolding readlink_inode_def by (intro may_intro) simp_all

lemma dget_frame: "dget d n = Some n' \<Longrightarrow> dents n' = dents n \<and> dentry_ht n' = dentry_ht n \<and> next_obj n' = next_obj n"
  unfolding dget_def by (rule on_ks_frame)

lemma for_symlink_resolution_ok:
  assumes "cache_ok n" "for_symlink_resolution data path n = Some (nd, n')"
  shows "cache_ok n'" "nd_handler nd = None"
proof -
  have "dents n' = dents n \<and> dentry_ht n' = dentry_ht n \<and> next_obj n' = next_obj n"
    using assms(2) by (auto simp: for_symlink_resolution_def bind_eq_Some_conv split: option.splits dest!: dget_frame)
  then show "cache_ok n'" using cache_ok_frame [OF assms(1)] by simp
  show "nd_handler nd = None" using assms(2) by (auto simp: for_symlink_resolution_def bind_eq_Some_conv)
qed

lemma get_token_frame:
  assumes "get_token_from_path data = (tok, data')"
  shows "nd_handler data' = nd_handler data" "nd_view data' = nd_view data" "nd_root data' = nd_root data"
    "nd_location data' = nd_location data" "nd_flags data' = nd_flags data" "nd_nloops data' = nd_nloops data"
  using assms by (auto simp: get_token_from_path_def Let_def split: option.splits prod.splits)

text \<open>The walk keeps the handler.\<close>

definition okN :: "nameidata \<Rightarrow> 'a \<times> nameidata \<times> ns \<Rightarrow> bool" where
  "okN data = (\<lambda>(r, data', n). cache_ok n \<and> nd_handler data' = nd_handler data)"

lemma may_SomeN: "cache_ok n \<Longrightarrow> nd_handler data' = nd_handler data \<Longrightarrow> may (Some (r, data', n)) (okN data)"
  by (simp add: may_def okN_def)

lemma may_bindN:
  "may m (okN data) \<Longrightarrow> (\<And>r data' n. cache_ok n \<Longrightarrow> nd_handler data' = nd_handler data \<Longrightarrow> may (f r data' n) Q) \<Longrightarrow>
     may (m \<bind> (\<lambda>(r, data', n). f r data' n)) Q"
  by (cases m) (auto simp: may_def okN_def)

lemma dentry_follow_symlink_ok:
  assumes "\<And>nd m. cache_ok m \<Longrightarrow> nd_handler nd = None \<Longrightarrow> may (resolve nd m) okT" "cache_ok n"
  shows "may (dentry_follow_symlink resolve E data d n) (okN data)"
  unfolding dentry_follow_symlink_def
  using assms(2)
  by (intro may_intro may_SomeN readlink_inode_ok [THEN may_bindP] may_bind_any [where m = "for_symlink_resolution a b c" for a b c]
      assms(1) [THEN may_bindT]) (auto dest: for_symlink_resolution_ok)

lemma follow_found_ok:
  assumes "\<And>nd m. cache_ok m \<Longrightarrow> nd_handler nd = None \<Longrightarrow> may (resolve nd m) okT" "cache_ok n"
  shows "may (follow_found resolve E is_last d data n) (okN data)"
  unfolding follow_found_def
  using assms(2)
  by (intro may_intro may_SomeN dentry_follow_symlink_ok [OF assms(1), THEN may_bindN]) simp_all

lemma cross_mount_ok: "cache_ok n \<Longrightarrow> may (cross_mount d n) okP"
  unfolding cross_mount_def by (intro may_intro) simp_all

context fs_ops
begin

lemma resolve_loop_ok:
  assumes rec: "\<And>nd m. cache_ok m \<Longrightarrow> nd_handler nd = None \<Longrightarrow> may (resolve nd m) okT"
    and "cache_ok n" "\<not> is_rename (nd_handler data)"
  shows "may (resolve_loop resolve E data n) okT"
proof -
  let ?P = "\<lambda>r E' data n y. r = resolve \<longrightarrow> E' = E \<longrightarrow> cache_ok n \<longrightarrow> \<not> is_rename (nd_handler data) \<longrightarrow> okT y"
  have "?P resolve E data n y" if "resolve_loop resolve E data n = Some y" for y
  proof (rule resolve_loop.raw_induct [where P = ?P, OF _ that], goal_cases)
    case (1 loop r E' data0 n y)
    show ?case
    proof (intro impI)
      assume a: "r = resolve" "E' = E" "cache_ok n" "\<not> is_rename (nd_handler data0)"
      have IH: "may (loop resolve E data n) okT" if "cache_ok n" "\<not> is_rename (nd_handler data)" for data n
        using 1(1) that a by (auto simp: may_def)
      obtain tok data where t: "get_token_from_path data0 = (tok, data)" by fastforce
      then have h: "\<not> is_rename (nd_handler data)" using a(4) get_token_frame(1) [OF t] by simp
      have "may (Some y) okT"
        unfolding 1(2) [symmetric] a(1,2) t Let_def case_prod_conv
        using a(3) h
        by (intro may_intro handle_last_ok [THEN may_bindP] dentry_lookup_internal_ok [THEN may_bindP] cross_mount_ok [THEN may_bindP]
            follow_found_ok [OF rec, THEN may_bindN] IH) (auto split: if_splits)
      then show "okT y" by (simp add: may_def)
    qed
  qed
  with assms(2,3) show ?thesis by (simp add: may_def)
qed

lemma resolve_path_with_ok:
  assumes "\<And>nd m. cache_ok m \<Longrightarrow> nd_handler nd = None \<Longrightarrow> may (resolve nd m) okT"
    and "cache_ok n" "\<not> is_rename (nd_handler data)"
  shows "may (resolve_path_with resolve E data n) okT"
  unfolding resolve_path_with_def
  using assms(2,3)
  by (intro may_intro may_assoc resolve_loop_ok [OF assms(1), THEN may_bindT]) (auto split: if_splits)

lemma dentry_resolve_path_ok:
  "cache_ok n \<Longrightarrow> \<not> is_rename (nd_handler data) \<Longrightarrow> may (dentry_resolve_path k E data n) okT"
  by (induction k arbitrary: n data) (auto intro: may_None resolve_path_with_ok simp: is_rename_def)

lemma dentry_resolve_ok: "cache_ok n \<Longrightarrow> \<not> is_rename (nd_handler data) \<Longrightarrow> may (dentry_resolve E data n) okP"
  unfolding dentry_resolve_def by (intro may_intro dentry_resolve_path_ok [THEN may_bindT]) simp_all

end

section \<open>Looking up through the hash table\<close>

text \<open>The reference: the first of all cached dentries that has this parent and this name.\<close>

definition cached :: "ns \<Rightarrow> nat list" where
  "cached n = concat (map (dentry_ht n) [0..<1024])"

lemma in_concat_map_upt: "x \<in> set (concat (map f [0..<N])) \<longleftrightarrow> (\<exists>j<N. x \<in> set (f j))"
  by auto

lemma cached_iff: "d \<in> set (cached n) \<longleftrightarrow> (\<exists>j<1024. d \<in> set (dentry_ht n j))"
  unfolding cached_def by (rule in_concat_map_upt)

definition scan_all :: "ns \<Rightarrow> nat \<Rightarrow> name \<Rightarrow> nat option" where
  "scan_all n p v =
     List.find (\<lambda>d. case dents n d of None \<Rightarrow> False | Some de \<Rightarrow> d_parent de = Some p \<and> d_name de = v) (cached n)"

lemma find_append: "List.find P (xs @ ys) = (case List.find P xs of None \<Rightarrow> List.find P ys | Some x \<Rightarrow> Some x)"
  by (induction xs) auto

lemma find_concat_one:
  assumes "k < N" "\<And>i x. i < N \<Longrightarrow> x \<in> set (f i) \<Longrightarrow> P x \<Longrightarrow> i = k"
  shows "List.find P (concat (map f [0..<N])) = List.find P (f k)"
proof -
  have up: "[0..<N] = [0..<k] @ k # [Suc k..<N]" using assms(1) by (metis less_imp_le_nat upt_add_eq_append upt_conv_Cons zero_le le_add_diff_inverse)
  have none: "List.find P (concat (map f js)) = None" if "\<And>i. i \<in> set js \<Longrightarrow> i < N \<and> i \<noteq> k" for js
  proof -
    have "\<not> P x" if "x \<in> set (concat (map f js))" for x
      using that \<open>\<And>i. i \<in> set js \<Longrightarrow> i < N \<and> i \<noteq> k\<close> assms(2) by fastforce
    then show ?thesis unfolding find_None_iff by blast
  qed
  have "List.find P (concat (map f [0..<k])) = None \<and> List.find P (concat (map f [Suc k..<N])) = None"
    using assms(1) by (intro conjI none) auto
  then show ?thesis by (simp add: up find_append split: option.split)
qed

lemma cache_scan_find:
  assumes "\<And>d. d \<in> set ds \<Longrightarrow> \<exists>de. dents n d = Some de \<and> d_name_hash de = fnv_hash (d_name de)"
  shows "cache_scan n p v ds =
     Some (List.find (\<lambda>d. case dents n d of None \<Rightarrow> False | Some de \<Rightarrow> d_parent de = Some p \<and> d_name de = v) ds)"
  using assms
proof (induction ds)
  case (Cons d ds)
  from Cons.prems [of d] obtain de where "dents n d = Some de" "d_name_hash de = fnv_hash (d_name de)" by auto
  with Cons.IH [OF Cons.prems] show ?case by (auto simp: dentry_matches_def)
qed simp

lemma stored_name_length: "length (stored_name nm) = length nm"
  by (simp add: stored_name_def INLINE_NAME_MAX_def)

lemma dentry_ht_index_less: "dentry_ht_index p v < 1024"
  by (simp add: dentry_ht_index_def)

lemma hashed_name:
  assumes "cache_ok n" "d \<in> set (dentry_ht n i)" "dents n d = Some de"
  obtains nm where "d_name_hash de = fnv_hash (d_name de)" "d_name de = stored_name nm" "d_parent de = Some p \<Longrightarrow> i = dentry_ht_index p nm"
  using cache_okD(1) [OF assms(1,2)] assms(3) that by (auto simp: hashed_ok_def)

lemma cache_scan_bucket:
  assumes "cache_ok n" "length v \<noteq> INLINE_NAME_MAX"
  shows "cache_scan n p v (dentry_ht n (dentry_ht_index p v)) = Some (scan_all n p v)"
proof -
  have "scan_all n p v = List.find (\<lambda>d. case dents n d of None \<Rightarrow> False | Some de \<Rightarrow> d_parent de = Some p \<and> d_name de = v)
      (dentry_ht n (dentry_ht_index p v))"
    unfolding scan_all_def cached_def
  proof (rule find_concat_one [OF dentry_ht_index_less])
    fix i d assume d: "d \<in> set (dentry_ht n i)" "case dents n d of None \<Rightarrow> False | Some de \<Rightarrow> d_parent de = Some p \<and> d_name de = v"
    then obtain de where de: "dents n d = Some de" "d_parent de = Some p" "d_name de = v" by (auto split: option.splits)
    from hashed_name [OF assms(1) d(1) de(1), of p] obtain nm where nm: "v = stored_name nm" "i = dentry_ht_index p nm"
      using de by blast
    then have "nm = v" using assms(2) stored_name_length [of nm] by (auto simp: stored_name_def)
    with nm show "i = dentry_ht_index p v" by simp
  qed
  with cache_scan_find [of "dentry_ht n (dentry_ht_index p v)" n p v] show ?thesis
    using cache_okD(1) [OF assms(1)] by (fastforce simp: hashed_ok_def)
qed

lemma cache_scan_40:
  assumes "cache_ok n" "length v = INLINE_NAME_MAX" "0 \<notin> set v"
  shows "cache_scan n p v (dentry_ht n i) = Some None"
proof -
  have "d_name de \<noteq> v" if "d \<in> set (dentry_ht n i)" "dents n d = Some de" for d de
  proof
    assume "d_name de = v"
    with hashed_name [OF assms(1) that, of p] obtain nm where "v = stored_name nm" by blast
    then have "0 \<in> set v" using assms(2) stored_name_length [of nm] by (auto simp: stored_name_def)
    with assms(3) show False by simp
  qed
  then have "List.find (\<lambda>d. case dents n d of None \<Rightarrow> False | Some de \<Rightarrow> d_parent de = Some p \<and> d_name de = v) (dentry_ht n i) = None"
    by (auto simp: find_None_iff split: option.splits)
  with cache_scan_find [of "dentry_ht n i" n p v] show ?thesis
    using cache_okD(1) [OF assms(1)] by (fastforce simp: hashed_ok_def)
qed

section \<open>Renaming\<close>

lemma dentry_rename_frame:
  assumes "dentry_rename E d nm n = Some n'" "dents n d = Some de" "length nm \<noteq> INLINE_NAME_MAX"
  shows "dentry_ht n' = dentry_ht n" "\<And>x. x \<noteq> d \<Longrightarrow> dents n' x = dents n x" "inodes (ks (sy n')) = inodes (ks (sy n))"
    "\<exists>de'. dents n' d = Some de' \<and> d_name de' = nm \<and> d_name_hash de' = fnv_hash nm \<and> d_parent de' = d_parent de"
  using assms
  by (auto simp: dentry_rename_def stored_name_def set_dent_def kalloc_def malloc_def set_ks_def Let_def split: if_splits)

text \<open>The new name of a dentry is looked for in a bucket the dentry is not in.\<close>

lemma find_only: "d \<in> set xs \<Longrightarrow> (\<And>x. x \<in> set xs \<Longrightarrow> P x \<longleftrightarrow> x = d) \<Longrightarrow> List.find P xs = Some d"
  by (induction xs) auto

lemma dentry_rename_scan:
  assumes ok: "cache_ok n" and d: "dents n d = Some de" "d_parent de = Some p" "d \<in> set (dentry_ht n i)"
    and nm: "length nm \<noteq> INLINE_NAME_MAX" "scan_all n p nm = None" "d \<notin> set (dentry_ht n (dentry_ht_index p nm))"
    and r: "dentry_rename E d nm n = Some n'"
  shows "cache_scan n' p nm (dentry_ht n' (dentry_ht_index p nm)) = Some None" "scan_all n' p nm = Some d"
proof -
  note f = dentry_rename_frame [OF r d(1) nm(1)]
  obtain de' where de': "dents n' d = Some de'" "d_name de' = nm" "d_parent de' = Some p"
    using f(4) unfolding d(2) by blast
  let ?P = "\<lambda>n x. case dents n x of None \<Rightarrow> False | Some xe \<Rightarrow> d_parent xe = Some p \<and> d_name xe = nm"
  have none: "\<not> ?P n x" if "x \<in> set (dentry_ht n j)" "j < 1024" for x j
  proof -
    have "x \<in> set (cached n)" using that cached_iff by blast
    with nm(2) show ?thesis unfolding scan_all_def find_None_iff by blast
  qed
  obtain nm' where "i = dentry_ht_index p nm'" using hashed_name [OF ok d(3,1), of p] d(2) by blast
  then have i: "i < 1024" by (simp add: dentry_ht_index_less)
  let ?b = "dentry_ht n (dentry_ht_index p nm)"
  have same: "dents n' x = dents n x" if "x \<in> set ?b" for x using f(2) nm(3) that by metis
  have "\<exists>xe. dents n' x = Some xe \<and> d_name_hash xe = fnv_hash (d_name xe)" if "x \<in> set ?b" for x
    using same [OF that] cache_okD(1) [OF ok that] by (auto simp: hashed_ok_def)
  from cache_scan_find [OF this, where p = p and v = nm] have "cache_scan n' p nm ?b = Some (List.find (?P n') ?b)" by simp
  moreover have "List.find (?P n') ?b = None"
    using none [OF _ dentry_ht_index_less] same by (simp add: find_None_iff)
  ultimately show "cache_scan n' p nm (dentry_ht n' (dentry_ht_index p nm)) = Some None" by (simp add: f(1))
  show "scan_all n' p nm = Some d"
    unfolding scan_all_def
  proof (rule find_only)
    show "d \<in> set (cached n')" using d(3) i by (auto simp: cached_iff f(1))
    fix x assume "x \<in> set (cached n')"
    then obtain j where j: "x \<in> set (dentry_ht n j)" "j < 1024" by (auto simp: cached_iff f(1))
    show "?P n' x \<longleftrightarrow> x = d"
    proof (cases "x = d")
      case False then show ?thesis using none [OF j] f(2) [OF False] by simp
    qed (simp add: de')
  qed
qed

end
