(* ===== verification/Namespace_Demo.thy ===== *)
theory Namespace_Demo
  imports Path_Calls Fd_Properties
begin

text \<open>
  A small name space on tmpfs for the examples: the root directory holds a directory \<open>d\<close>, which holds a file \<open>f\<close>, and a symbolic
  link \<open>l\<close> to \<open>d/f\<close>.
\<close>

definition demo_node :: "u32 \<Rightarrow> u32 \<Rightarrow> inode" where
  "demo_node mode ty = tmpfs_new_inode 0 mode ty 0 5 0 0 (demo_inode\<lparr>i_has_sb := True, i_sb_nodirty := True, i_sb_in_memory := True\<rparr>)"

definition demo_dent :: "name \<Rightarrow> nat \<Rightarrow> nat option \<Rightarrow> nat list \<Rightarrow> dent" where
  "demo_dent nm i p cs = \<lparr>d_name = nm, d_inline = True, d_name_hash = fnv_hash nm, d_inode = Some i, d_parent = p, d_children = cs,
     d_mount_dentry = None, d_flags = 0\<rparr>"

definition demo_strings :: umem where
  "demo_strings = (\<lambda>a. if 100 \<le> a \<and> a < 104 then Some ([108, 0, 110, 0] ! (a - 100))
     else if 200 \<le> a \<and> a < 204 then Some ([100, 47, 102, 0] ! (a - 200)) else None)"

definition demo_ns :: ns where
  "demo_ns = \<lparr>sy = \<lparr>ks = \<lparr>files = [10 \<mapsto> demo_file 1 1 1, 11 \<mapsto> demo_file 1 1 1],
        inodes = [1 \<mapsto> (demo_node 0x41ff 2)\<lparr>i_refc := 3, i_dentry := Some 1\<rparr>, 2 \<mapsto> (demo_node 0x41ff 2)\<lparr>i_dentry := Some 2\<rparr>,
          3 \<mapsto> (demo_node 0xa1ff 4)\<lparr>i_link := [100, 47, 102]\<rparr>, 4 \<mapsto> demo_node 0x81a4 1],
        drefs = [1 \<mapsto> 5, 2 \<mapsto> 2, 3 \<mapsto> 1, 4 \<mapsto> 1], events = [], ctx = demo_ctx\<lparr>cwd := Some 11, file_desc := replicate 64 None, open_fds := [0], cloexec_fds := [0]\<rparr>,
        nofile_cur = 1024, mem_ctr = 0\<rparr>, cr = demo_user\<lparr>euid := 0\<rparr>, um = demo_strings, errno = 0\<rparr>,
     dents = [1 \<mapsto> (demo_dent [47] 1 None [2, 3])\<lparr>d_flags := DENTRY_FLAG_MOUNT_ROOT\<rparr>, 2 \<mapsto> demo_dent [100] 2 (Some 1) [4],
       3 \<mapsto> demo_dent [108] 3 (Some 1) [], 4 \<mapsto> demo_dent [102] 4 (Some 2) []],
     dentry_ht = (\<lambda>i. (if i = dentry_ht_index 1 [100] then [2] else []) @ (if i = dentry_ht_index 1 [108] then [3] else []) @
       (if i = dentry_ht_index 2 [102] then [4] else [])),
     fs_root = 10, boot_dentry = Some 1, next_obj = 20, sb_curr_inode = (\<lambda>_. 6)\<rparr>"

definition demo_env :: nenv where
  "demo_env = tmpfs_nenv demo_senv (\<lambda>ino. (0, ino))"

lemmas demo_simps = demo_ns_def demo_node_def demo_dent_def demo_file_def demo_ctx_def demo_env_def tmpfs_nenv_def tmpfs_new_inode_def
  demo_user_def kernel_creds_def demo_senv_def demo_kenv_def demo_inode_def

end
