(* ===== verification/Path_Invariant.thy ===== *)
theory Path_Invariant
  imports Dcache_Invariant Namespace_Demo
begin

text \<open>
  The directory cache stays well-formed under every system call on paths but \<open>rename\<close>, whatever file system is behind it, as long as the
  operations of the file system leave the cache well-formed; those of tmpfs do.
\<close>

section \<open>tmpfs\<close>

lemma tmpfs_create_inode_ok: "cache_ok n \<Longrightarrow> may (tmpfs_create_inode E mode d rdev n) okP"
  unfolding tmpfs_create_inode_def
  by (intro may_intro cache_ok_next) (simp_all add: set_ks_def)

lemma tmpfs_open_ok: "cache_ok n \<Longrightarrow> may (tmpfs_open d nm n) okP"
  unfolding tmpfs_open_def by (intro may_intro) simp

lemma tmpfs_symlink_ok: "cache_ok n \<Longrightarrow> may (tmpfs_symlink E nm dest d n) okP"
  unfolding tmpfs_symlink_def by (intro may_intro tmpfs_create_inode_ok [THEN may_bindP])

interpretation tmpfs_lookup: fs_lookup "tmpfs_base S sp" for S sp
  by unfold_locales (simp add: tmpfs_base_def tmpfs_open_ok)

lemma tmpfs_unlink_ok: "cache_ok n \<Longrightarrow> may (tmpfs_unlink (tmpfs_base S sp) nm flags d n) okP"
  unfolding tmpfs_unlink_def
  by (intro may_intro tmpfs_lookup.dentry_lookup_internal_ok [THEN may_bindP] may_bind_any [where m = "r :: nat option" for r]) simp_all

interpretation tmpfs_ops: fs_ops "tmpfs_nenv S sp" for S sp
  by unfold_locales
    (simp_all add: tmpfs_nenv_def Let_def tmpfs_open_ok tmpfs_creat_def tmpfs_mkdir_def tmpfs_mknod_def tmpfs_create_inode_ok tmpfs_symlink_ok
      tmpfs_link_def tmpfs_unlink_ok may_intro)

section \<open>Files\<close>

lemma fput_ok: "cache_ok n \<Longrightarrow> may (fput f n) cache_ok"
  unfolding fput_def by (intro may_intro) simp_all

declare fput_ok [may_intro] fput_ok [THEN may_bindS, may_intro]

lemma inode_to_file_ok: "cache_ok n \<Longrightarrow> inode_to_file E i n = (r, n1) \<Longrightarrow> cache_ok n1"
  using kalloc_ok [of E n] by (auto simp: inode_to_file_def Let_def split: prod.splits if_splits intro!: cache_ok_next)

lemma may_inode_to_file:
  assumes "cache_ok n" "\<And>r n1. cache_ok n1 \<Longrightarrow> may (f r n1) Q"
  shows "may (let (r, n1) = inode_to_file E i n in f r n1) Q"
  using assms(2) inode_to_file_ok [OF assms(1), of E i] by (cases "inode_to_file E i n") simp

lemma dentry_to_file_ok: "cache_ok n \<Longrightarrow> may (dentry_to_file E d n) okP"
  unfolding dentry_to_file_def by (intro may_intro may_inode_to_file) simp_all

lemma user_str_read [may_intro]: "(\<And>a. user_str p m = Some a \<Longrightarrow> may (f a) Q) \<Longrightarrow> may (user_str p m \<bind> f) Q"
  by (rule may_bind_any)

lemma strcpy_from_user_ok: "cache_ok n \<Longrightarrow> may (strcpy_from_user E p n) okP"
  unfolding strcpy_from_user_def by (intro may_intro) simp_all

lemma get_dirfd_file_ok: "cache_ok n \<Longrightarrow> may (get_dirfd_file fd n) okP"
  unfolding get_dirfd_file_def by (rule on_sy_ok)

lemmas files_P = dentry_to_file_ok strcpy_from_user_ok get_dirfd_file_ok
declare files_P [may_intro] files_P [THEN may_bindP, may_intro]

lemma from_user_ok:
  "cache_ok n \<Longrightarrow> (\<And>s n. cache_ok n \<Longrightarrow> may (body s n) okP) \<Longrightarrow> may (from_user E p body n) okP"
  unfolding from_user_def by (intro may_intro)

lemma may_opt_user:
  "cache_ok n \<Longrightarrow> (\<And>s n. cache_ok n \<Longrightarrow> may (body s n) okP) \<Longrightarrow>
     may ((if b then from_user E p else (\<lambda>body. body [])) body n) okP"
  using from_user_ok by simp

lemma with_opened_ok:
  assumes "may m okP" "\<And>f n. cache_ok n \<Longrightarrow> may (body f n) okP"
  shows "may (with_opened m body) okP"
  unfolding with_opened_def by (intro may_bindP [OF assms(1)] may_intro assms(2) [THEN may_bindP])

lemma with_dirfd_ok:
  "cache_ok n \<Longrightarrow> (\<And>f n. cache_ok n \<Longrightarrow> may (body f n) okP) \<Longrightarrow> may (with_dirfd fd body n) okP"
  unfolding with_dirfd_def by (intro may_intro with_opened_ok)

lemma with_dentry_ok:
  assumes "may m okP" "\<And>f n. cache_ok n \<Longrightarrow> may (body f n) okP"
  shows "may (with_dentry m body) okP"
  unfolding with_dentry_def by (intro may_bindP [OF assms(1)] may_intro assms(2) [THEN may_bindP])

declare from_user_ok [may_intro] with_opened_ok [may_intro] with_dirfd_ok [may_intro] with_dentry_ok [may_intro]

text \<open>Parts of the calls that do not resolve a path.\<close>

lemma stat_to_user_ok: "cache_ok n \<Longrightarrow> may (stat_to_user E sb u f n) okP"
  unfolding stat_to_user_def by (intro may_intro may_bind_any [where m = "stat_vfs a b c" for a b c]) simp_all

lemma set_times_ok: "cache_ok n \<Longrightarrow> may (set_times E bs f n) okP"
  unfolding set_times_def by (intro may_intro) simp_all

lemma enqueue_ok: "cache_ok n \<Longrightarrow> enqueue E x q n = (q1, n1) \<Longrightarrow> cache_ok n1"
  using kalloc_ok [of E n] by (auto simp: enqueue_def Let_def split: prod.splits)

declare stat_to_user_ok [may_intro] set_times_ok [may_intro]

lemma collect_path_ok:
  assumes "collect_path E root d els n = Some y"
  shows "cache_ok n \<longrightarrow> okT y"
proof (rule collect_path.raw_induct [where P = "\<lambda>E root d els n y. cache_ok n \<longrightarrow> okT y", OF _ assms], goal_cases)
  case (1 collect E root d els n y)
  show ?case
  proof
    assume "cache_ok n"
    have IH: "may (collect E root d els n) okT" if "cache_ok n" for E root d els n
      using 1(1) that by (auto simp: may_def)
    have "may (Some y) okT"
      unfolding 1(2) [symmetric] using \<open>cache_ok n\<close> by (intro may_intro IH) simp_all
    then show "okT y" by (simp add: may_def)
  qed
qed

lemma emit_names_ok: "cache_ok n \<Longrightarrow> may (emit_names els s n) okP"
  by (induction els arbitrary: s n) (auto intro!: may_intro)

lemma mfold_dput_ok: "cache_ok n \<Longrightarrow> may (mfold dput els n) cache_ok"
  by (induction els arbitrary: n) (auto intro!: may_intro)

lemma dentry_to_file_name_ok: "cache_ok n \<Longrightarrow> may (dentry_to_file_name E d n) okP"
  unfolding dentry_to_file_name_def
  by (intro may_intro may_bindT [where m = "collect_path E r x y z" for r x y z] mfold_dput_ok [THEN may_bindS] emit_names_ok [THEN may_bindP])
    (use collect_path_ok in \<open>auto simp: may_def\<close>)

section \<open>Calls that resolve a path\<close>

context fs_ops
begin

lemma dentry_do_open_ok: "cache_ok n \<Longrightarrow> may (dentry_do_open E base path fl n) okP"
  unfolding dentry_do_open_def
  by (intro may_intro dentry_resolve_ok) (simp_all add: new_nameidata_def is_rename_def)

lemma generic_last_name_helper_ok:
  "cache_ok n \<Longrightarrow> \<not> is_rename (Some h) \<Longrightarrow> may (generic_last_name_helper E base path h fl n) okP"
  unfolding generic_last_name_helper_def
  by (intro may_intro dentry_resolve_ok) (simp_all add: new_nameidata_def)

lemma open_vfs_with_flags_ok: "cache_ok n \<Longrightarrow> may (open_vfs_with_flags E f path fl n) okP"
  unfolding open_vfs_with_flags_def
  by (intro may_intro may_assocP may_assoc dentry_do_open_ok [THEN may_bindP] may_bind_any [where m = "r :: nat option" for r]) simp_all

lemma open_vfs_ok: "cache_ok n \<Longrightarrow> may (open_vfs E f path n) okP"
  unfolding open_vfs_def by (rule open_vfs_with_flags_ok)

lemma file_creation_helper_ok: "cache_ok n \<Longrightarrow> \<not> is_rename (Some h) \<Longrightarrow> may (file_creation_helper E base path h n) okP"
  unfolding file_creation_helper_def by (intro may_intro generic_last_name_helper_ok [THEN may_bindP])

lemma creation_ok:
  assumes "cache_ok n"
  shows "may (creat_vfs E base path mode n) okP" "may (mknod_vfs E path mode dev base n) okP" "may (mkdir_vfs E path mode base n) okP"
    "may (symlink_vfs E path dest base n) okP"
  using assms by (simp_all add: creat_vfs_def mknod_vfs_def mkdir_vfs_def symlink_vfs_def file_creation_helper_ok is_rename_def)

lemma link_vfs_ok: "cache_ok n \<Longrightarrow> may (link_vfs E t base path n) okP"
  unfolding link_vfs_def by (intro may_intro generic_last_name_helper_ok [THEN may_bindP]) (simp_all add: is_rename_def)

lemma unlink_vfs_ok: "cache_ok n \<Longrightarrow> may (unlink_vfs E path fl node n) okP"
  unfolding unlink_vfs_def by (intro may_intro generic_last_name_helper_ok [THEN may_bindP]) (simp_all add: is_rename_def)

lemmas vfs_P = open_vfs_with_flags_ok open_vfs_ok creation_ok link_vfs_ok unlink_vfs_ok
lemmas vfs_binds = vfs_P [THEN may_bindP]


lemma try_opened_ok: "cache_ok n \<Longrightarrow> may (try_opened E flags f n) okP"
  unfolding try_opened_def
  by (intro may_intro may_bind_any [where m = "open_to_file_access_flags fl" for fl] may_bind_any [where m = "may_noatime a b" for a b]) simp_all

lemma try_to_open_ok: "cache_ok n \<Longrightarrow> may (try_to_open E base path flags mode n) okP"
  unfolding try_to_open_def by (intro may_intro vfs_binds try_opened_ok creation_ok)

lemma do_sys_open_ok: "cache_ok n \<Longrightarrow> may (do_sys_open E path flags mode rel n) okP"
  unfolding do_sys_open_def
  by (intro may_intro try_to_open_ok [THEN may_bindP] fs_on_open_ok [THEN may_bindP]) simp_all

lemma sys_open_ok: "cache_ok n \<Longrightarrow> may (sys_open E u flags mode n) okP"
  unfolding sys_open_def
  by (intro may_intro do_sys_open_ok [THEN may_bindP] may_bind_any [where m = "r :: nat option" for r]) simp_all

lemma sys_openat_ok: "cache_ok n \<Longrightarrow> may (sys_openat E fd u flags mode n) okP"
  unfolding sys_openat_def by (intro may_intro do_sys_open_ok) simp_all

lemma make_ok:
  assumes "cache_ok n"
  shows "may (sys_mkdirat E fd u mode n) okP" "may (sys_mknodat E fd u mode dev n) okP"
  unfolding sys_mkdirat_def sys_mknodat_def in_directory_def do_sys_mkdir_def do_sys_mknodat_def using assms
  by (intro may_intro creation_ok; simp)+

lemma do_sys_link_ok: "cache_ok n \<Longrightarrow> may (do_sys_link E fd u fd' u' fl n) okP"
  unfolding do_sys_link_def by (intro may_intro vfs_P) simp_all

lemma do_sys_unlink_ok: "cache_ok n \<Longrightarrow> may (do_sys_unlink E fd u fl n) okP"
  unfolding do_sys_unlink_def by (intro may_intro vfs_P) simp_all

lemma sys_symlinkat_ok: "cache_ok n \<Longrightarrow> may (sys_symlinkat E u fd u' n) okP"
  unfolding sys_symlinkat_def by (intro may_intro vfs_P) simp_all

lemma sys_fstatat_ok: "cache_ok n \<Longrightarrow> may (sys_fstatat E sb fd u ub fl n) okP"
  unfolding sys_fstatat_def by (intro may_intro vfs_P) simp_all

lemma sys_faccessat_ok: "cache_ok n \<Longrightarrow> may (sys_faccessat E fd u am fl n) okP"
  unfolding sys_faccessat_def by (intro may_intro vfs_P) simp_all

lemma sys_fchmodat_ok: "cache_ok n \<Longrightarrow> may (sys_fchmodat E fd u mode fl n) okP"
  unfolding sys_fchmodat_def by (intro may_intro vfs_P) simp_all

lemma sys_fchownat_core_ok: "cache_ok n \<Longrightarrow> may (sys_fchownat_core E fd path ow gr fl n) okP"
  unfolding sys_fchownat_core_def by (intro may_intro vfs_binds) simp_all

lemma sys_fchownat_ok: "cache_ok n \<Longrightarrow> may (sys_fchownat E fd u ow gr fl n) okP"
  unfolding sys_fchownat_def by (intro may_intro sys_fchownat_core_ok)

lemma sys_utimensat_ok: "cache_ok n \<Longrightarrow> may (sys_utimensat E fd u t fl n) okP"
  unfolding sys_utimensat_def by (intro may_intro may_opt_user vfs_P) simp_all

lemma sys_readlinkat_ok: "cache_ok n \<Longrightarrow> may (sys_readlinkat E fd u ub sz n) okP"
  unfolding sys_readlinkat_def by (intro may_intro vfs_P) simp_all

lemma sys_chdir_ok: "cache_ok n \<Longrightarrow> may (sys_chdir E u n) okP"
  unfolding sys_chdir_def
  by (intro may_intro vfs_binds may_bind_any [where m = "r :: nat option" for r] may_bind_any [where m = "r :: sys option" for r]) simp_all

lemma sys_getcwd_ok: "cache_ok n \<Longrightarrow> may (sys_getcwd E u sz n) okP"
  unfolding sys_getcwd_def
  by (intro may_intro dentry_to_file_name_ok [THEN may_bindP] may_bind_any [where m = "r :: nat option" for r]) simp_all

end

section \<open>Sequences of calls\<close>

text \<open>The system calls on paths; \<open>rename\<close> and \<open>fmount\<close>, which move dentries, are not among them. \<open>sb\<close> is the layout of \<open>struct stat\<close>.\<close>

datatype path_call =
    Open nat u32 u32 | Openat int nat u32 u32
  | Mkdirat int nat u32 | Mknodat int nat u32 u64
  | Linkat int nat int nat u32 | Unlinkat int nat u32 | Symlinkat nat int nat
  | Fstatat int nat nat u32 | Faccessat int nat u32 u32 | Fchmodat int nat u32 u32 | Fchownat int nat u32 u32 u32
  | Utimensat int nat nat u32 | Readlinkat int nat nat u64 | Chdir nat | Getcwd nat u64

fun path_exec :: "nenv \<Rightarrow> (stat \<Rightarrow> u8 list) \<Rightarrow> path_call \<Rightarrow> ncall" where
  "path_exec E sb (Open p fl m) = sys_open E p fl m"
| "path_exec E sb (Openat fd p fl m) = sys_openat E fd p fl m"
| "path_exec E sb (Mkdirat fd p m) = sys_mkdirat E fd p m"
| "path_exec E sb (Mknodat fd p m dev) = sys_mknodat E fd p m dev"
| "path_exec E sb (Linkat fd p fd' p' fl) = sys_linkat E fd p fd' p' fl"
| "path_exec E sb (Unlinkat fd p fl) = sys_unlinkat E fd p fl"
| "path_exec E sb (Symlinkat p fd p') = sys_symlinkat E p fd p'"
| "path_exec E sb (Fstatat fd p b fl) = sys_fstatat E sb fd p b fl"
| "path_exec E sb (Faccessat fd p m fl) = sys_faccessat E fd p m fl"
| "path_exec E sb (Fchmodat fd p m fl) = sys_fchmodat E fd p m fl"
| "path_exec E sb (Fchownat fd p u g fl) = sys_fchownat E fd p u g fl"
| "path_exec E sb (Utimensat fd p t fl) = sys_utimensat E fd p t fl"
| "path_exec E sb (Readlinkat fd p b k) = sys_readlinkat E fd p b k"
| "path_exec E sb (Chdir p) = sys_chdir E p"
| "path_exec E sb (Getcwd p k) = sys_getcwd E p k"

fun path_run :: "nenv \<Rightarrow> (stat \<Rightarrow> u8 list) \<Rightarrow> path_call list \<Rightarrow> ns \<Rightarrow> ns option" where
  "path_run E sb [] n = Some n"
| "path_run E sb (c # cs) n = do { (r, n1) \<leftarrow> path_exec E sb c n; path_run E sb cs n1 }"

context fs_ops
begin

lemma path_exec_ok: "cache_ok n \<Longrightarrow> may (path_exec E sb c n) okP"
  by (cases c)
    (simp_all add: sys_open_ok sys_openat_ok make_ok sys_linkat_def do_sys_link_ok sys_unlinkat_def do_sys_unlink_ok sys_symlinkat_ok
      sys_fstatat_ok sys_faccessat_ok sys_fchmodat_ok sys_fchownat_ok sys_utimensat_ok sys_readlinkat_ok sys_chdir_ok sys_getcwd_ok)

lemma path_run_ok: "cache_ok n \<Longrightarrow> may (path_run E sb cs n) cache_ok"
  by (induction cs arbitrary: n) (auto intro!: may_intro path_exec_ok [THEN may_bindP])

end

text \<open>
  C14. On tmpfs, no sequence of system calls on paths, \<open>rename\<close> and \<open>fmount\<close> apart, breaks the directory cache: every dentry in the hash table
  exists, has a parent, carries the hash of its name and is in the bucket of its parent and the name it was created with, and no address
  in use is handed out again.
\<close>

theorem path_calls_keep_cache:
  assumes "cache_ok n" "path_run (tmpfs_nenv S sp) sb cs n = Some n'"
  shows "cache_ok n'"
  using tmpfs_ops.path_run_ok [OF assms(1)] assms(2) by (auto simp: may_def)

lemma demo_cache_ok: "cache_ok demo_ns"
proof (rule cache_okI)
  have s: "stored_name [100] = [100]" "stored_name [108] = [108]" "stored_name [102] = [102]"
    by (simp_all add: stored_name_def INLINE_NAME_MAX_def)
  fix i d assume "d \<in> set (dentry_ht demo_ns i)"
  then consider "d = 2" "i = dentry_ht_index 1 [100]" | "d = 3" "i = dentry_ht_index 1 [108]" | "d = 4" "i = dentry_ht_index 2 [102]"
    by (auto simp: demo_ns_def split: if_splits)
  then show "hashed_ok demo_ns i d"
    by cases (simp_all add: hashed_ok_def demo_ns_def demo_dent_def, (metis s)+)
next
  fix d de assume "dents demo_ns d = Some de"
  then show "d < next_obj demo_ns" by (auto simp: demo_ns_def split: if_splits)
qed

lemma demo_getcwd: "\<exists>n'. sys_getcwd demo_env 100 4 demo_ns = Some (1, n')"
  by (simp add: sys_getcwd_def on_sy_def get_current_directory_def lock_cwd_def unlock_cwd_def set_ctx_def fd_get_def file_dentry_def
      dentry_to_file_name_def kalloc_def malloc_def Let_def fput_def on_ks_def fd_put_def set_ks_def demo_strings_def demo_simps)

theorem path_calls_keep_cache_witness:
  "\<exists>n'. path_run (tmpfs_nenv demo_senv (\<lambda>ino. (0, ino))) (\<lambda>_. []) [Getcwd 100 4] demo_ns = Some n' \<and> cache_ok demo_ns \<and> cache_ok n'"
proof -
  from demo_getcwd obtain n' where n': "path_run (tmpfs_nenv demo_senv (\<lambda>ino. (0, ino))) (\<lambda>_. []) [Getcwd 100 4] demo_ns = Some n'"
    by (auto simp: demo_env_def)
  with path_calls_keep_cache [OF demo_cache_ok n'] demo_cache_ok show ?thesis by blast
qed

end
