(* ===== verification/Dcache_Properties.thy ===== *)
theory Dcache_Properties
  imports Path_Invariant
begin

text \<open>
  What a lookup finds: through the hash table, and after a file was renamed.
\<close>

section \<open>Lookup through the hash table\<close>

text \<open>
  C15. In a well-formed cache, looking a name up through the hash table finds what scanning all cached dentries for that parent and name finds, and
  takes a reference to it. Names of exactly 40 bytes are the exception: they are stored with their last byte overwritten, and such a
  name is never found, even if it was just created.
\<close>

theorem dentry_open_from_cache_scan:
  assumes "cache_ok n"
  shows "(length v \<noteq> INLINE_NAME_MAX \<longrightarrow> dentry_open_from_cache p v n =
      (case scan_all n p v of None \<Rightarrow> Some (None, n) | Some d \<Rightarrow> do { n1 \<leftarrow> dget d n; Some (Some d, n1) })) \<and>
    (length v = INLINE_NAME_MAX \<and> 0 \<notin> set v \<longrightarrow> dentry_open_from_cache p v n = Some (None, n))"
  using cache_scan_bucket [OF assms, of v p] cache_scan_40 [OF assms, of v p]
  by (simp add: dentry_open_from_cache_def)

theorem dentry_open_from_cache_scan_witness:
  "length [108 :: u8] \<noteq> INLINE_NAME_MAX \<and> cache_ok demo_ns \<and> dentry_open_from_cache 1 [108] demo_ns =
     (case scan_all demo_ns 1 [108] of None \<Rightarrow> Some (None, demo_ns) | Some d \<Rightarrow> do { n1 \<leftarrow> dget d demo_ns; Some (Some d, n1) }) \<and>
   dentry_open_from_cache 1 (replicate INLINE_NAME_MAX 65) demo_ns = Some (None, demo_ns)"
  using dentry_open_from_cache_scan [OF demo_cache_ok, of "[108]" 1] demo_cache_ok
    dentry_open_from_cache_scan [OF demo_cache_ok, of "replicate INLINE_NAME_MAX 65" 1]
  by (simp add: INLINE_NAME_MAX_def)

section \<open>Renaming\<close>

text \<open>
  C37. \<open>dentry_rename\<close> leaves the dentry in the bucket of its old name. On a file system that lives in the dentry cache the file is then
  lost: looking the new name up in its directory fails with \<open>ENOENT\<close>, although a cached dentry has this parent and this name.
\<close>

theorem dentry_rename_loses_file:
  assumes "cache_ok n" "dents n d = Some de" "d_parent de = Some p" "d \<in> set (dentry_ht n i)"
    and "nm \<noteq> dot" "nm \<noteq> dotdot" "length nm \<noteq> INLINE_NAME_MAX" "scan_all n p nm = None"
    and "d \<notin> set (dentry_ht n (dentry_ht_index p nm))"
    and "p \<noteq> d" "dent_inode p n = Some (j, ino)" "S_ISDIR (i_mode ino)" "i_has_sb ino" "i_sb_in_memory ino"
    and "dentry_rename E d nm n = Some n'"
  shows "dentry_lookup_internal E nm p 0 n' = Some (None, set_errno ENOENT n') \<and> scan_all n' p nm = Some d"
proof -
  note sc = dentry_rename_scan [OF assms(1-4,7-9,15)] and f = dentry_rename_frame [OF assms(15,2,7)]
  have "dent_inode p n' = Some (j, ino)" using assms(10,11) f by (simp add: dent_inode_def)
  with sc assms show ?thesis
    by (simp add: dentry_lookup_internal_def dentry_try_to_open_def dentry_open_from_cache_def dentry_is_dir_def)
qed


lemma demo_index: "dentry_ht_index 1 [110] \<noteq> dentry_ht_index 1 [108]"
  by (simp add: dentry_ht_index_def hash_dentry_fields_def fnv_hash_def fnv_hash_cont_def ptr_bytes_def FNV_PRIME_def FNV_OFFSET_BASIS_def upt_rec)

lemma demo_rename: "\<exists>n'. dentry_rename demo_env 3 [110] demo_ns = Some n'"
  by (simp add: dentry_rename_def demo_simps INLINE_NAME_MAX_def)

lemma demo_no_n: "scan_all demo_ns 1 [110] = None"
proof -
  have "d = 2 \<or> d = 3 \<or> d = 4" if "d \<in> set (dentry_ht demo_ns i)" for d i
    using that by (auto simp: demo_ns_def split: if_splits)
  then have "\<not> (case dents demo_ns d of None \<Rightarrow> False | Some de \<Rightarrow> d_parent de = Some 1 \<and> d_name de = [110])"
    if "d \<in> set (cached demo_ns)" for d
    using that unfolding cached_iff by (fastforce simp: demo_ns_def demo_dent_def)
  then show ?thesis unfolding scan_all_def find_None_iff by blast
qed

theorem dentry_rename_loses_file_witness:
  "\<exists>n'. dentry_rename demo_env 3 [110] demo_ns = Some n' \<and>
     dentry_lookup_internal demo_env [110] 1 0 n' = Some (None, set_errno ENOENT n') \<and> scan_all n' 1 [110] = Some 3"
proof -
  from demo_rename obtain n' where n': "dentry_rename demo_env 3 [110] demo_ns = Some n'" by blast
  have d: "dents demo_ns 3 = Some (demo_dent [108] 3 (Some 1) [])" "d_parent (demo_dent [108] 3 (Some 1) []) = Some 1"
    "3 \<in> set (dentry_ht demo_ns (dentry_ht_index 1 [108]))" "3 \<notin> set (dentry_ht demo_ns (dentry_ht_index 1 [110]))"
    using demo_index by (simp_all add: demo_ns_def demo_dent_def)
  have p: "dent_inode 1 demo_ns = Some (1, (demo_node 0x41ff 2)\<lparr>i_refc := 3, i_dentry := Some 1\<rparr>)"
    by (simp add: dent_inode_def demo_ns_def demo_dent_def)
  have "S_ISDIR (i_mode ((demo_node 0x41ff 2)\<lparr>i_refc := 3, i_dentry := Some 1\<rparr>))"
    "i_has_sb ((demo_node 0x41ff 2)\<lparr>i_refc := 3, i_dentry := Some 1\<rparr>)" "i_sb_in_memory ((demo_node 0x41ff 2)\<lparr>i_refc := 3, i_dentry := Some 1\<rparr>)"
    by (simp_all add: demo_node_def tmpfs_new_inode_def S_ISDIR_def S_IFMT_def)
  from dentry_rename_loses_file [OF demo_cache_ok d(1,2,3) _ _ _ demo_no_n d(4) _ p this n'] n'
  show ?thesis by (auto simp: INLINE_NAME_MAX_def)
qed

end
