(* ===== verification/Dcache_Create.thy ===== *)
theory Dcache_Create
  imports Dcache_Properties
begin

text \<open>
  Creating a file and looking it up again: what \<open>create_handling\<close> changes besides the new dentry, and that the new name is found.
\<close>

unbundle bit_operations_syntax

section \<open>What creation leaves alone\<close>

text \<open>
  \<open>settles d n n'\<close>: from \<open>n\<close> to \<open>n'\<close> no dentry came, went, or changed its parent or name, none but \<open>d\<close> changed its inode, the table
  is the same, inodes that were there keep their mode, and \<open>d\<close> is not freed.
\<close>

definition settles :: "nat \<Rightarrow> ns \<Rightarrow> ns \<Rightarrow> bool" where
  "settles d n n' \<longleftrightarrow> dentry_ht n' = dentry_ht n \<and> next_obj n \<le> next_obj n' \<and>
     (\<forall>x. rel_option (\<lambda>a b. d_parent b = d_parent a \<and> d_name b = d_name a \<and> (x \<noteq> d \<longrightarrow> d_inode b = d_inode a)) (dents n x) (dents n' x)) \<and>
     (\<forall>i<next_obj n. rel_option (\<lambda>a b. i_mode b = i_mode a) (inodes (ks (sy n)) i) (inodes (ks (sy n')) i)) \<and>
     (drefs (ks (sy n)) d \<noteq> None \<longrightarrow> drefs (ks (sy n')) d \<noteq> None)"

lemma settles_same:
  assumes "dents n' = dents n" "dentry_ht n' = dentry_ht n" "next_obj n' = next_obj n"
    "inodes (ks (sy n')) = inodes (ks (sy n))" "drefs (ks (sy n')) = drefs (ks (sy n))"
  shows "settles d n n'"
  using assms by (simp add: settles_def option.rel_refl)

lemma rel_option_chain:
  assumes "rel_option R a b" "rel_option R b c" "\<And>x y z. R x y \<Longrightarrow> R y z \<Longrightarrow> R x z"
  shows "rel_option R a c"
  using assms(1,2) by (cases a; cases b; cases c) (auto intro: assms(3))

lemma settles_trans:
  assumes "settles d a b" "settles d b c"
  shows "settles d a c"
  unfolding settles_def
proof (intro conjI allI impI)
  fix x
  let ?R = "\<lambda>a b. d_parent b = d_parent a \<and> d_name b = d_name a \<and> (x \<noteq> d \<longrightarrow> d_inode b = d_inode a)"
  have "rel_option ?R (dents a x) (dents b x)" "rel_option ?R (dents b x) (dents c x)" using assms by (simp_all add: settles_def)
  then show "rel_option ?R (dents a x) (dents c x)" by (rule rel_option_chain) simp
next
  fix i assume i: "i < next_obj a"
  then have "i < next_obj b" using assms(1) by (simp add: settles_def)
  with i assms have "rel_option (\<lambda>a b. i_mode b = i_mode a) (inodes (ks (sy a)) i) (inodes (ks (sy b)) i)"
    "rel_option (\<lambda>a b. i_mode b = i_mode a) (inodes (ks (sy b)) i) (inodes (ks (sy c)) i)" by (simp_all add: settles_def)
  then show "rel_option (\<lambda>a b. i_mode b = i_mode a) (inodes (ks (sy a)) i) (inodes (ks (sy c)) i)" by (rule rel_option_chain) simp
qed (use assms in \<open>simp_all add: settles_def\<close>)

lemma settles_ht: "settles d a b \<Longrightarrow> settles d (a\<lparr>dentry_ht := h\<rparr>) (b\<lparr>dentry_ht := h\<rparr>)"
  by (simp add: settles_def)

lemma settles_upd_dent:
  assumes "upd_dent x f n = Some n'" "\<And>de. d_parent (f de) = d_parent de \<and> d_name (f de) = d_name de \<and> (x \<noteq> d \<longrightarrow> d_inode (f de) = d_inode de)"
  shows "settles d n n'"
  using assms by (auto simp: upd_dent_def bind_eq_Some_conv set_dent_def settles_def option.rel_refl)

lemma settles_upd_inode:
  assumes "upd_inode i f n = Some n'" "\<And>ino ino'. f ino = Some ino' \<Longrightarrow> i_mode ino' = i_mode ino"
  shows "settles d n n'"
  using assms by (auto simp: upd_inode_def bind_eq_Some_conv set_inode_def settles_def option.rel_refl)

lemma settles_lock:
  "ilock_write i n = Some n' \<Longrightarrow> settles d n n'" "iunlock_write i n = Some n' \<Longrightarrow> settles d n n'"
  unfolding ilock_write_def iunlock_write_def by (auto elim!: settles_upd_inode)

lemma settles_dget: "dget x n = Some n' \<Longrightarrow> settles d n n'"
  by (auto simp: dget_def on_ks_def dentry_get_def set_ks_def bind_eq_Some_conv settles_def option.rel_refl split: option.splits)

lemma settles_kalloc: "kalloc E n = (m, n') \<Longrightarrow> settles d n n'"
  by (intro settles_same) (auto simp: kalloc_def malloc_def set_ks_def)

lemma settles_access: "ino_access i p n = Some (b, n') \<Longrightarrow> settles d n n'"
  by (intro settles_same) (auto simp: ino_access_def bind_eq_Some_conv)

lemma settles_tmpfs_create_inode:
  assumes "tmpfs_create_inode E mode dir rdev n = Some (Some j, n')"
  shows "settles d n n'"
proof -
  obtain m n1 where 1: "kalloc E n = (m, n1)" by fastforce
  obtain m' n2 where 2: "(if m \<and> S_ISREG mode then kalloc E n1 else (m, n1)) = (m', n2)" by fastforce
  have "settles d n1 n2" using 2 settles_kalloc by (cases "m \<and> S_ISREG mode") (auto intro: settles_same)
  with settles_kalloc [OF 1] have "settles d n n2" by (rule settles_trans)
  moreover have "settles d n2 n'"
    using assms unfolding tmpfs_create_inode_def 1 Let_def case_prod_conv 2
    by (auto simp: bind_eq_Some_conv set_ks_def log_event_def settles_def option.rel_refl split: if_splits prod.splits)
  ultimately show ?thesis by (rule settles_trans)
qed

section \<open>The new dentry\<close>

text \<open>\<open>n\<close> with a dentry for \<open>nm\<close> in \<open>p\<close>, in the table, without an inode.\<close>

definition new_entry :: "nat \<Rightarrow> name \<Rightarrow> ns \<Rightarrow> ns" where
  "new_entry p nm n =
     (set_dent (next_obj n)
       \<lparr>d_name = stored_name nm, d_inline = (length nm \<le> INLINE_NAME_MAX), d_name_hash = fnv_hash (stored_name nm), d_inode = None,
        d_parent = Some p, d_children = [], d_mount_dentry = None, d_flags = 0\<rparr>
       (set_ks ((ks (sy n))\<lparr>drefs := (drefs (ks (sy n)))(next_obj n \<mapsto> 1)\<rparr>) n))
     \<lparr>next_obj := next_obj n + 1,
      dentry_ht := (dentry_ht n)(dentry_ht_index p nm := dentry_ht n (dentry_ht_index p nm) @ [next_obj n])\<rparr>"

lemma kalloc_keeps:
  assumes "kalloc E n = (m, n')"
  shows "dents n' = dents n" "dentry_ht n' = dentry_ht n" "next_obj n' = next_obj n" "inodes (ks (sy n')) = inodes (ks (sy n))"
    "drefs (ks (sy n')) = drefs (ks (sy n))"
  using assms by (auto simp: kalloc_def malloc_def set_ks_def)

lemma dentry_create_new:
  assumes "dentry_create E nm None (Some p) n = Some (Some d, n')"
  shows "d = next_obj n" "dentry_is_dir p n = Some True" "settles d ((new_entry p nm n)\<lparr>dentry_ht := dentry_ht n\<rparr>) n'"
proof -
  obtain m n1 where 1: "kalloc E n = (m, n1)" by fastforce
  obtain m' n2 where 2: "(if m \<and> INLINE_NAME_MAX < length nm then kalloc E n1 else (m, n1)) = (m', n2)" by fastforce
  have k: "dents n2 = dents n" "dentry_ht n2 = dentry_ht n" "next_obj n2 = next_obj n" "inodes (ks (sy n2)) = inodes (ks (sy n))"
    "drefs (ks (sy n2)) = drefs (ks (sy n))"
    using kalloc_keeps [OF 1] kalloc_keeps [of E n1 m' n2] 2 by (auto split: if_splits)
  from assms show dir: "dentry_is_dir p n = Some True"
    by (auto simp: dentry_create_def bind_eq_Some_conv split: if_splits)
  note eq = assms [unfolded dentry_create_def option.case dir bind.simps(2) 1 Let_def case_prod_conv 2]
  let ?n3 = "(new_entry p nm n2)\<lparr>dentry_ht := dentry_ht n2\<rparr>"
  from eq obtain n4 where d: "d = next_obj n2" and n4: "upd_dent p (\<lambda>pe. pe\<lparr>d_children := d_children pe @ [d]\<rparr>) ?n3 = Some n4" "dget p n4 = Some n'"
    by (auto simp: bind_eq_Some_conv new_entry_def set_dent_def set_ks_def split: if_splits)
  show "d = next_obj n" using d k(3) by simp
  have "settles d ((new_entry p nm n)\<lparr>dentry_ht := dentry_ht n\<rparr>) ?n3"
    by (rule settles_same) (simp_all add: new_entry_def set_dent_def set_ks_def k)
  moreover have "settles d ?n3 n4" by (rule settles_upd_dent [OF n4(1)]) simp
  ultimately show "settles d ((new_entry p nm n)\<lparr>dentry_ht := dentry_ht n\<rparr>) n'"
    using settles_dget [OF n4(2)] by (blast intro: settles_trans)
qed

lemma pending_lookup_new:
  assumes "cache_ok n" "scan_all n p nm = None" "length nm \<noteq> INLINE_NAME_MAX" "dentry_create_pending_lookup E nm None p True n = Some (Inr d, n')"
  shows "d = next_obj n" "dentry_is_dir p n = Some True" "settles d (new_entry p nm n) n'"
proof -
  have "dentry_open_from_cache p nm n = Some (None, n)"
    using cache_scan_bucket [OF assms(1,3)] assms(2) by (simp add: dentry_open_from_cache_def)
  with assms(4) obtain n3 n4 where c: "dentry_create E nm None (Some p) n = Some (Some d, n3)"
    and n4: "upd_dent d (\<lambda>de. de\<lparr>d_flags := d_flags de OR DENTRY_FLAG_PENDING\<rparr>) n3 = Some n4"
    and n': "n' = n4\<lparr>dentry_ht := (dentry_ht n4)(dentry_ht_index p nm := dentry_ht n4 (dentry_ht_index p nm) @ [d])\<rparr>"
    by (auto simp: dentry_create_pending_lookup_def bind_eq_Some_conv Let_def split: option.splits)
  note new = dentry_create_new [OF c]
  show d: "d = next_obj n" "dentry_is_dir p n = Some True" using new by simp_all
  have "settles d ((new_entry p nm n)\<lparr>dentry_ht := dentry_ht n\<rparr>) n4"
    by (rule settles_trans [OF new(3) settles_upd_dent [OF n4]]) simp
  moreover from this have "dentry_ht n4 = dentry_ht n" by (simp add: settles_def)
  ultimately have "settles d ((new_entry p nm n)\<lparr>dentry_ht := dentry_ht n, dentry_ht := dentry_ht n'\<rparr>) n'"
    using settles_ht n' by fastforce
  moreover have "(new_entry p nm n)\<lparr>dentry_ht := dentry_ht n, dentry_ht := dentry_ht n'\<rparr> = new_entry p nm n"
    using \<open>dentry_ht n4 = dentry_ht n\<close> d(1) by (simp add: n' new_entry_def)
  ultimately show "settles d (new_entry p nm n) n'" by simp
qed

lemma bind_SomeE: "m \<bind> f = Some y \<Longrightarrow> (\<And>x. m = Some x \<Longrightarrow> f x = Some y \<Longrightarrow> P) \<Longrightarrow> P"
  by (cases m) simp_all

lemma create_handling_new:
  assumes "cache_ok n" "nd_location data = Some p" "scan_all n p nm = None" "length nm \<noteq> INLINE_NAME_MAX"
    and "create_handling (tmpfs_nenv S sp) ty mode dev data nm n = Some (Inr d, n')"
  obtains n1 de where "dents n1 = dents n" "dentry_ht n1 = dentry_ht n" "next_obj n1 = next_obj n" "inodes (ks (sy n1)) = inodes (ks (sy n))"
    "d = next_obj n" "dentry_is_dir p n1 = Some True" "settles d (new_entry p nm n1) n'"
    "dents n' d = Some de" "d_flags de AND DENTRY_FLAG_PENDING = 0"
proof -
  let ?E = "tmpfs_nenv S sp"
  let ?fs = "\<lambda>n. case ty of C_creat \<Rightarrow> fs_creat ?E nm mode p n | C_mkdir \<Rightarrow> fs_mkdir ?E nm mode p n | C_mknod \<Rightarrow> fs_mknod ?E nm mode dev p n"
  let ?link = "\<lambda>j n. if ty = C_mkdir then upd_inode j (\<lambda>ino. Some (ino\<lparr>i_dentry := Some d\<rparr>)) n else Some n"
  from assms(2,5) obtain i n1 n2 n3 n4 n5 n6 n7 n8 j where
    n1: "ino_access i FILE_ACCESS_WRITE n = Some (True, n1)" and n2: "dentry_create_pending_lookup ?E nm None p True n1 = Some (Inr d, n2)"
    and n3: "ilock_write i n2 = Some n3" and n4: "?fs n3 = Some (Some j, n4)"
    and n5: "dget d n4 = Some n5" and n6: "?link j n5 = Some n6" and n7: "upd_dent d (\<lambda>de. de\<lparr>d_inode := Some j\<rparr>) n6 = Some n7"
    and n8: "dentry_complete_lookup d n7 = Some n8" and n9: "iunlock_write i n8 = Some n'"
    unfolding create_handling_def by (fastforce elim!: bind_SomeE split: if_splits sum.split_asm option.split_asm)
  have same: "dents n1 = dents n" "dentry_ht n1 = dentry_ht n" "next_obj n1 = next_obj n" "inodes (ks (sy n1)) = inodes (ks (sy n))"
    using n1 by (auto simp: ino_access_def bind_eq_Some_conv)
  have "cache_ok n1" by (rule cache_ok_frame [OF assms(1)]) (simp_all add: same)
  moreover have "scan_all n1 p nm = None" using assms(3) by (simp add: scan_all_def cached_def same)
  ultimately have new: "d = next_obj n1" "dentry_is_dir p n1 = Some True" "settles d (new_entry p nm n1) n2"
    using pending_lookup_new [OF _ _ assms(4) n2] by auto
  have "settles d n3 n4" using n4 by (cases ty) (auto simp: tmpfs_nenv_def Let_def tmpfs_creat_def tmpfs_mkdir_def tmpfs_mknod_def elim!: settles_tmpfs_create_inode)
  moreover have "settles d n5 n6" using n6 by (cases "ty = C_mkdir") (auto elim!: settles_upd_inode intro: settles_same)
  moreover have "settles d n6 n7" by (rule settles_upd_dent [OF n7]) simp
  moreover have "settles d n7 n8" by (rule settles_upd_dent [OF n8 [unfolded dentry_complete_lookup_def]]) simp
  ultimately have "settles d (new_entry p nm n1) n'"
    using new(3) settles_lock(1) [OF n3] settles_dget [OF n5] settles_lock(2) [OF n9] by (meson settles_trans)
  moreover from n8 n9 obtain de where "dents n' d = Some de" "d_flags de AND DENTRY_FLAG_PENDING = 0"
    by (auto simp: dentry_complete_lookup_def upd_dent_def iunlock_write_def upd_inode_def bind_eq_Some_conv set_dent_def and.assoc)
  ultimately show thesis using that same new by simp
qed

lemma new_entry_sel:
  "dentry_ht (new_entry p nm n) = (dentry_ht n)(dentry_ht_index p nm := dentry_ht n (dentry_ht_index p nm) @ [next_obj n])"
  "next_obj (new_entry p nm n) = next_obj n + 1" "inodes (ks (sy (new_entry p nm n))) = inodes (ks (sy n))"
  "drefs (ks (sy (new_entry p nm n))) (next_obj n) \<noteq> None"
  "x \<noteq> next_obj n \<Longrightarrow> dents (new_entry p nm n) x = dents n x"
  "\<exists>de. dents (new_entry p nm n) (next_obj n) = Some de \<and> d_parent de = Some p \<and> d_name de = stored_name nm"
  by (simp_all add: new_entry_def set_dent_def set_ks_def)

text \<open>After the creation the new dentry is the only one with its parent and name.\<close>

lemma settles_scan:
  assumes "cache_ok n" "scan_all n p nm = None" "length nm \<noteq> INLINE_NAME_MAX" "settles (next_obj n) (new_entry p nm n) n'"
  shows "scan_all n' p nm = Some (next_obj n)"
proof -
  let ?d = "next_obj n" and ?N = "new_entry p nm n"
  let ?P = "\<lambda>n x. case dents n x of None \<Rightarrow> False | Some xe \<Rightarrow> d_parent xe = Some p \<and> d_name xe = nm"
  have ht: "dentry_ht n' = (dentry_ht n)(dentry_ht_index p nm := dentry_ht n (dentry_ht_index p nm) @ [?d])"
    using assms(4) by (simp add: settles_def new_entry_sel)
  have rel: "?P n' x = ?P ?N x" for x
  proof -
    have "rel_option (\<lambda>a b. d_parent b = d_parent a \<and> d_name b = d_name a \<and> (x \<noteq> ?d \<longrightarrow> d_inode b = d_inode a)) (dents ?N x) (dents n' x)"
      using assms(4) unfolding settles_def by blast
    then show ?thesis by (cases "dents ?N x"; cases "dents n' x") auto
  qed
  have name: "stored_name nm = nm" using assms(3) by (simp add: stored_name_def)
  have none: "\<not> ?P n x" if "x \<in> set (cached n)" for x using assms(2) that unfolding scan_all_def find_None_iff by blast
  show ?thesis
    unfolding scan_all_def
  proof (rule find_only)
    show "?d \<in> set (cached n')" unfolding cached_iff ht using dentry_ht_index_less [of p nm] by auto
    fix x assume "x \<in> set (cached n')"
    then have x: "x = ?d \<or> x \<in> set (cached n)" unfolding cached_iff ht by (auto split: if_splits)
    show "?P n' x \<longleftrightarrow> x = ?d"
    proof (cases "x = ?d")
      case True
      with new_entry_sel(6) [of p nm n] name show ?thesis unfolding rel by auto
    next
      case False
      with x none have "\<not> ?P n x" by blast
      with False show ?thesis unfolding rel by (simp add: new_entry_sel(5))
    qed
  qed
qed

lemma settles_dir:
  assumes "settles d (new_entry p nm n) n'" "dentry_is_dir x n = Some b" "x \<noteq> d" "d = next_obj n" "dent_inode x n = Some (i, ino)" "i < next_obj n"
  shows "dentry_is_dir x n' = Some b"
proof -
  from assms(5) obtain xe where xe: "dents (new_entry p nm n) x = Some xe" "d_inode xe = Some i" "inodes (ks (sy (new_entry p nm n))) i = Some ino"
    using assms(3,4) by (auto simp: dent_inode_def bind_eq_Some_conv new_entry_sel)
  with assms(1,3) obtain xe' where "dents n' x = Some xe'" "d_inode xe' = Some i"
    by (auto simp: settles_def option_rel_Some1 dest!: spec [of _ x])
  moreover have "i < next_obj (new_entry p nm n)" using assms(6) by (simp add: new_entry_sel)
  with assms(1) xe(3) obtain ino' where "inodes (ks (sy n')) i = Some ino'" "i_mode ino' = i_mode ino"
    by (auto simp: settles_def option_rel_Some1 dest!: spec [of _ i])
  ultimately show ?thesis using assms(2,5) by (auto simp: dentry_is_dir_def dent_inode_def bind_eq_Some_conv)
qed

section \<open>Creating a file and finding it\<close>


definition demo_creat :: nameidata where
  "demo_creat = \<lparr>nd_view = [110], nd_pos = 2, nd_root = 1, nd_location = Some 1, nd_last = True, nd_nloops = 0,
     nd_handler = Some (Create C_creat 0x1a4 0), nd_flags = 0\<rparr>"

lemma demo_dir_access: "ino_access 1 FILE_ACCESS_WRITE demo_ns = Some (True, demo_ns)"
  by (simp add: ino_access_def demo_simps inode_can_access_def creds_get_def creds_put_def rwslock_lock_read_def rwslock_unlock_read_def
      RDWR_LOCK_WRITE_def)

lemma demo_creates: "\<exists>n'. create_handling demo_env C_creat 0x1a4 0 demo_creat [110] demo_ns = Some (Inr 20, n')"
proof -
  have c: "dentry_open_from_cache 1 [110] demo_ns = Some (None, demo_ns)"
    using cache_scan_bucket [OF demo_cache_ok, of "[110]" 1] demo_no_n by (simp add: dentry_open_from_cache_def INLINE_NAME_MAX_def)
  have i: "dent_inode 1 demo_ns = Some (1, (demo_node 0x41ff 2)\<lparr>i_refc := 3, i_dentry := Some 1\<rparr>)"
    by (simp add: dent_inode_def demo_ns_def demo_dent_def)
  have m: "mode_to_vfs_type 0x81a4 = Some 1" by (simp add: mode_to_vfs_type_def S_ISREG_def S_IFMT_def)
  show ?thesis
    unfolding create_handling_def dentry_create_pending_lookup_def
    by (simp add: demo_creat_def i demo_dir_access c del: One_nat_def,
        simp add: dentry_create_def dentry_is_dir_def dent_inode_def kalloc_def malloc_def Let_def INLINE_NAME_MAX_def demo_simps
          set_dent_def set_ks_def upd_dent_def dget_def on_ks_def dentry_get_def ilock_write_def iunlock_write_def upd_inode_def set_inode_def
          tmpfs_creat_def tmpfs_create_inode_def tmpfs_base_def creds_get_def creds_put_def rwslock_lock_read_def rwslock_unlock_read_def
          RDWR_LOCK_WRITE_def S_IFREG_def m inode_is_special_def log_event_def dentry_complete_lookup_def rw_lock_write_def rw_lock_trywrite_def
          S_ISREG_def S_ISDIR_def S_IFMT_def)
qed


end
