(* ===== verification/Namei_Tokens.thy ===== *)
theory Namei_Tokens
  imports Namei
begin

text \<open>
  The names of a path: what \<open>get_token_from_path\<close> yields, call by call, are the non-empty pieces between the
  slashes, and exactly the last of them is marked as the last.
\<close>

section \<open>The reference\<close>

text \<open>A path cut at its slashes; the names are the pieces that are not empty.\<close>

fun split_path :: "name \<Rightarrow> name list" where
  "split_path [] = [[]]"
| "split_path (c # cs) = (if c = slash then [] # split_path cs else (c # hd (split_path cs)) # tl (split_path cs))"

definition path_names :: "name \<Rightarrow> name list" where
  "path_names v = filter (\<lambda>w. w \<noteq> []) (split_path v)"

lemma split_path_nonempty [simp]: "split_path v \<noteq> []"
  by (cases v) auto

lemma path_names_simps [simp]: "path_names [] = []" "path_names (slash # v) = path_names v"
  by (auto simp: path_names_def)

lemma path_names_skip: "path_names (dropWhile (\<lambda>c. c = slash) v) = path_names v"
  by (induction v) auto

lemma split_path_token:
  "slash \<notin> set w \<Longrightarrow> split_path w = [w]"
  "slash \<notin> set w \<Longrightarrow> split_path (w @ slash # r) = w # split_path r"
  by (induction w) auto

lemma path_names_token:
  assumes "slash \<notin> set w" "w \<noteq> []"
  shows "path_names w = [w]" "path_names (w @ slash # r) = w # path_names r"
  using assms by (simp_all add: path_names_def split_path_token)

lemma path_names_slashes: "path_names v = [] \<longleftrightarrow> (\<forall>c\<in>set v. c = slash)"
  by (induction v) (auto simp: path_names_def)

lemma split_path_no_slash: "u \<in> set (split_path v) \<Longrightarrow> slash \<notin> set u"
proof (induction v arbitrary: u)
  case (Cons c v)
  have "hd (split_path v) \<in> set (split_path v)" "\<And>x. x \<in> set (tl (split_path v)) \<Longrightarrow> x \<in> set (split_path v)"
    by (simp_all add: list.set_sel)
  with Cons show ?case by (auto split: if_splits)
qed simp

lemma path_names_no_slash: "w \<in> set (path_names v) \<Longrightarrow> w \<noteq> [] \<and> slash \<notin> set w"
  using split_path_no_slash by (auto simp: path_names_def)

section \<open>Searching by index\<close>

lemma find_upt_drop:
  "List.find (\<lambda>i. P (v ! i)) [p..<length v] =
     (if dropWhile (\<lambda>c. \<not> P c) (drop p v) = [] then None else Some (p + length (takeWhile (\<lambda>c. \<not> P c) (drop p v))))"
proof (induction "length v - p" arbitrary: p)
  case (Suc k)
  then have p: "p < length v" by simp
  then have d: "drop p v = v ! p # drop (Suc p) v" "[p..<length v] = p # [Suc p..<length v]"
    by (simp_all add: Cons_nth_drop_Suc upt_conv_Cons)
  have "k = length v - Suc p" using Suc.hyps(2) by simp
  from Suc.hyps(1) [OF this] show ?case
    by (simp add: d)
qed simp

lemma find_not_slash_drop:
  "find_not_slash v p =
     (if dropWhile (\<lambda>c. c = slash) (drop p v) = [] then None else Some (p + length (takeWhile (\<lambda>c. c = slash) (drop p v))))"
  using find_upt_drop [where P = "\<lambda>c. c \<noteq> slash"] by (simp add: find_not_slash_def)

lemma find_slash_drop:
  "find_slash v p =
     (if dropWhile (\<lambda>c. c \<noteq> slash) (drop p v) = [] then None else Some (p + length (takeWhile (\<lambda>c. c \<noteq> slash) (drop p v))))"
  unfolding find_slash_def by (rule find_upt_drop)

lemma find_not_slash_None: "find_not_slash v p = None \<longleftrightarrow> path_names (drop p v) = []"
  by (auto simp: find_not_slash_drop path_names_slashes dropWhile_eq_Nil_conv)

lemma find_not_slash_Some:
  assumes "find_not_slash v p = Some q"
  shows "drop q v = dropWhile (\<lambda>c. c = slash) (drop p v)" "drop q v \<noteq> []" "hd (drop q v) \<noteq> slash" "p \<le> q" "q < length v"
proof -
  let ?w = "takeWhile (\<lambda>c. c = slash) (drop p v)"
  from assms have q: "q = p + length ?w" and ne: "dropWhile (\<lambda>c. c = slash) (drop p v) \<noteq> []"
    by (auto simp: find_not_slash_drop split: if_splits)
  have "drop (length ?w) (drop p v) = dropWhile (\<lambda>c. c = slash) (drop p v)"
    by (simp add: dropWhile_eq_drop)
  then show d: "drop q v = dropWhile (\<lambda>c. c = slash) (drop p v)" by (simp add: q add.commute)
  then show "drop q v \<noteq> []" using ne by simp
  then show "q < length v" by simp
  show "hd (drop q v) \<noteq> slash" using hd_dropWhile [OF ne] d by simp
  show "p \<le> q" by (simp add: q)
qed

section \<open>One token\<close>

lemma get_token_None:
  "path_names (drop (nd_pos data) (nd_view data)) = [] \<Longrightarrow> get_token_from_path data = (None, data\<lparr>nd_pos := npos\<rparr>)"
  by (simp add: get_token_from_path_def find_not_slash_None [THEN iffD2] Let_def)

lemma find_slash_cases:
  assumes "drop p v \<noteq> []" "hd (drop p v) \<noteq> slash"
  obtains w where "w \<noteq> []" "slash \<notin> set w" "drop p v = w" "find_slash v p = None"
  | w r where "w \<noteq> []" "slash \<notin> set w" "drop p v = w @ slash # r" "find_slash v p = Some (p + length w)"
      "drop (p + length w) v = slash # r" "drop (p + length w + 1) v = r"
proof -
  obtain w r where wr: "w = takeWhile (\<lambda>c. c \<noteq> slash) (drop p v)" "r = dropWhile (\<lambda>c. c \<noteq> slash) (drop p v)" by simp
  then have split: "drop p v = w @ r" by simp
  have w: "w \<noteq> []" "slash \<notin> set w" using assms by (auto simp: wr takeWhile_eq_Nil_iff dest: set_takeWhileD)
  show thesis
  proof (cases r)
    case Nil
    then have "find_slash v p = None" unfolding find_slash_drop wr(2) [symmetric] by simp
    then show thesis using that(1) [OF w] split Nil by simp
  next
    case (Cons a r')
    then have "a = slash" using hd_dropWhile [of "\<lambda>c. c \<noteq> slash" "drop p v"] by (simp add: wr(2) [symmetric])
    moreover have "drop (p + length w) v = r" using split by (metis add.commute append_eq_conv_conj drop_drop)
    moreover have "drop (p + length w + 1) v = tl r" by (metis Suc_eq_plus1 calculation(2) drop_Suc tl_drop)
    moreover have "find_slash v p = Some (p + length w)" using Cons unfolding find_slash_drop wr [symmetric] by simp
    ultimately show thesis
      using that(2) [OF w] split Cons by simp
  qed
qed

lemma get_token_Some:
  assumes "path_names (drop (nd_pos data) (nd_view data)) = c # cs"
  obtains q where "get_token_from_path data = (Some c, data\<lparr>nd_pos := q, nd_last := (cs = [])\<rparr>)"
    "path_names (drop q (nd_view data)) = cs" "nd_pos data < q" "nd_pos data < length (nd_view data)"
proof -
  let ?v = "nd_view data"
  from assms find_not_slash_None obtain p where p: "find_not_slash ?v (nd_pos data) = Some p" by fastforce
  note p' = find_not_slash_Some [OF p]
  have names: "path_names (drop p ?v) = c # cs" using assms by (simp add: p'(1) path_names_skip)
  show thesis
  proof (rule find_slash_cases [OF p'(2,3)])
    fix w assume w: "w \<noteq> []" "slash \<notin> set w" "drop p ?v = w" "find_slash ?v p = None"
    then have "c = w" "cs = []" using names path_names_token(1) [OF w(2,1)] by simp_all
    moreover have "get_token_from_path data = (Some w, data\<lparr>nd_pos := p + length w + 1, nd_last := True\<rparr>)"
      using w by (auto simp: get_token_from_path_def p Let_def)
    moreover have "drop (p + length w + 1) ?v = []" using w(3) by auto
    ultimately show thesis using that [of "p + length w + 1"] p'(4,5) by simp
  next
    fix w r assume w: "w \<noteq> []" "slash \<notin> set w" "drop p ?v = w @ slash # r" "find_slash ?v p = Some (p + length w)"
      "drop (p + length w) ?v = slash # r" "drop (p + length w + 1) ?v = r"
    then have cs: "c = w" "cs = path_names r" using names path_names_token(2) [OF w(2,1)] by simp_all
    have "find_not_slash ?v (p + length w) = None \<longleftrightarrow> cs = []" by (simp add: find_not_slash_None w(5) cs)
    then have "get_token_from_path data = (Some w, data\<lparr>nd_pos := p + length w + 1, nd_last := (cs = [])\<rparr>)"
      by (simp add: get_token_from_path_def p w(3,4) Let_def)
    then show thesis using that [of "p + length w + 1"] p'(4,5) w(6) cs by simp
  qed
qed

section \<open>The tokens of a path\<close>

text \<open>The loop of \<open>__dentry_resolve_path\<close> without its body: the names with their mark.\<close>

function path_tokens :: "nameidata \<Rightarrow> (name \<times> bool) list" where
  "path_tokens data =
     (case get_token_from_path data of
        (None, data1) \<Rightarrow> []
      | (Some v, data1) \<Rightarrow> (v, nd_last data1) # path_tokens data1)"
  by pat_completeness auto

termination
proof (relation "measure (\<lambda>data. length (nd_view data) - nd_pos data)")
  fix data x data1 v
  assume t: "(x, data1) = get_token_from_path data" "x = Some v"
  then obtain c cs where "path_names (drop (nd_pos data) (nd_view data)) = c # cs"
    using get_token_None [of data] by (cases "path_names (drop (nd_pos data) (nd_view data))") auto
  then show "(data1, data) \<in> measure (\<lambda>data. length (nd_view data) - nd_pos data)"
    using t by (auto elim!: get_token_Some)
qed auto

declare path_tokens.simps [simp del]

lemma path_tokens_names:
  "path_tokens data =
     (let ws = path_names (drop (nd_pos data) (nd_view data)) in zip ws (replicate (length ws - 1) False @ [True]))"
proof (induction data rule: path_tokens.induct)
  case (1 data)
  show ?case
  proof (cases "path_names (drop (nd_pos data) (nd_view data))")
    case (Cons c cs)
    then obtain q where g: "get_token_from_path data = (Some c, data\<lparr>nd_pos := q, nd_last := (cs = [])\<rparr>)"
      "path_names (drop q (nd_view data)) = cs" by (elim get_token_Some)
    from 1 [OF g(1) [symmetric] refl] g Cons show ?thesis
      by (cases cs) (simp_all add: path_tokens.simps [of data] Let_def)
  qed (simp add: get_token_None path_tokens.simps [of data])
qed

text \<open>
  C16. For every path, the calls of \<open>get_token_from_path\<close> that a walk makes until it gets none yield the non-empty pieces of the path between
  its slashes, in their order, each once; the last of them, and no other, is marked as the last name.
\<close>

theorem path_tokens_split:
  "map fst (path_tokens (new_nameidata path root loc h flags)) = path_names path \<and>
   map snd (path_tokens (new_nameidata path root loc h flags)) =
     (if path_names path = [] then [] else replicate (length (path_names path) - 1) False @ [True])"
  by (simp add: path_tokens_names Let_def new_nameidata_def)

end
