(* ===== verification/Namei_Refine.thy ===== *)
theory Namei_Refine
  imports Dcache_Invariant Namei_Tokens "HOL-Library.Multiset"
begin

text \<open>
  Path resolution against an abstract tree. The specification (\<open>t_resolve\<close>) walks the list of names of a path in a tree of directories,
  symbolic links and mount points: no reference counts, hash tables, indices into the path or locks. \<open>Namei\<close> implements it on every
  name space that lives in the dentry cache: it returns, with the same result, and changes nothing but reference counts, access times and \<open>errno\<close>.
\<close>

unbundle bit_operations_syntax

section \<open>The specification\<close>

record tree =
  t_dir :: "nat \<Rightarrow> bool"
  t_search :: "nat \<Rightarrow> bool"
  t_parent :: "nat \<Rightarrow> nat option"
  t_child :: "nat \<Rightarrow> name \<Rightarrow> nat option"
  t_link :: "nat \<Rightarrow> name option"
  t_mount :: "nat \<Rightarrow> nat option"

definition t_lookup :: "tree \<Rightarrow> nat \<Rightarrow> name \<Rightarrow> int + nat" where
  "t_lookup T d v =
     (if \<not> t_dir T d then Inl (- ENOTDIR)
      else if v = dot then Inr d
      else if v = dotdot then Inr (case t_parent T d of None \<Rightarrow> d | Some p \<Rightarrow> p)
      else case t_child T d v of None \<Rightarrow> Inl (- ENOENT) | Some c \<Rightarrow> Inr c)"

definition t_cross :: "tree \<Rightarrow> nat \<Rightarrow> nat" where
  "t_cross T d = (case t_mount T d of None \<Rightarrow> d | Some m \<Rightarrow> m)"

text \<open>Resolving a path gives an error, or a node and the number of links met so far.\<close>

type_synonym t_resolver = "nat \<Rightarrow> nat \<Rightarrow> nat \<Rightarrow> name \<Rightarrow> int + nat \<times> nat"

definition t_follow :: "t_resolver \<Rightarrow> tree \<Rightarrow> u32 \<Rightarrow> nat \<Rightarrow> bool \<Rightarrow> nat \<Rightarrow> nat \<Rightarrow> nat \<Rightarrow> int + nat \<times> nat" where
  "t_follow R T fl root is_last loc d k =
     (case t_link T d of
        None \<Rightarrow> Inr (d, k)
      | Some path \<Rightarrow>
          if is_last \<and> fl AND OPEN_FLAG_FAIL_IF_LINK \<noteq> 0 then Inl (- ELOOP)
          else if is_last \<and> fl AND OPEN_FLAG_NOFOLLOW \<noteq> 0 \<and> fl AND LOOKUP_FLAG_INTERNAL_TRAILING_SLASH = 0 then Inr (d, k)
          else if k = SYMLOOP_MAX then Inl (- ELOOP)
          else R root loc (k + 1) path)"

primrec t_walk :: "t_resolver \<Rightarrow> tree \<Rightarrow> u32 \<Rightarrow> nat \<Rightarrow> name list \<Rightarrow> nat \<Rightarrow> nat \<Rightarrow> int + nat \<times> nat" where
  "t_walk R T fl root [] loc k = Inr (loc, k)"
| "t_walk R T fl root (v # vs) loc k =
     (if NAME_MAX < length v then Inl (- ENAMETOOLONG)
      else if \<not> t_search T loc then Inl (- EACCES)
      else if loc = root \<and> v = dotdot then t_walk R T fl root vs loc k
      else case t_lookup T loc v of
        Inl e \<Rightarrow> Inl e
      | Inr d \<Rightarrow>
          (case t_follow R T fl root (vs = []) loc d k of
             Inl e \<Rightarrow> Inl e
           | Inr (d1, k1) \<Rightarrow> t_walk R T fl root vs (t_cross T d1) k1))"

definition t_resolve_with :: "t_resolver \<Rightarrow> tree \<Rightarrow> u32 \<Rightarrow> t_resolver" where
  "t_resolve_with R T fl root loc k path =
     (if path = [] then (if fl AND OPEN_FLAG_EMPTY_PATH \<noteq> 0 then Inr (loc, k) else Inl (- ENOENT))
      else
        (let fl1 = (if last path = slash then fl OR LOOKUP_FLAG_INTERNAL_TRAILING_SLASH else fl);
             must_be_dir = (fl1 AND (LOOKUP_FLAG_INTERNAL_TRAILING_SLASH OR OPEN_FLAG_MUST_BE_DIR) \<noteq> 0)
         in case t_walk R T fl1 root (path_names path) (if hd path = slash then root else loc) k of
              Inl e \<Rightarrow> Inl e
            | Inr (d, k1) \<Rightarrow> if must_be_dir \<and> \<not> t_dir T d then Inl (- ENOTDIR) else Inr (d, k1)))"

text \<open>The first argument bounds the nesting of links.\<close>

primrec t_resolve :: "nat \<Rightarrow> tree \<Rightarrow> u32 \<Rightarrow> t_resolver" where
  "t_resolve 0 T fl = (\<lambda>root loc k path. Inl (- ELOOP))"
| "t_resolve (Suc j) T fl = t_resolve_with (t_resolve j T 0) T fl"

text \<open>The number of links met only grows.\<close>

definition counts_up :: "t_resolver \<Rightarrow> bool" where
  "counts_up R \<longleftrightarrow> (\<forall>root loc k path d k'. R root loc k path = Inr (d, k') \<longrightarrow> k \<le> k')"

lemma counts_upD: "R root loc k path = Inr (d, k') \<Longrightarrow> counts_up R \<Longrightarrow> k \<le> k'"
  by (auto simp: counts_up_def)

lemma t_follow_counts: "t_follow R T fl root is_last loc d k = Inr (d', k') \<Longrightarrow> counts_up R \<Longrightarrow> k \<le> k'"
  by (auto simp: t_follow_def split: option.splits if_splits dest!: counts_upD)

lemma t_walk_counts: "t_walk R T fl root ws loc k = Inr (d, k') \<Longrightarrow> counts_up R \<Longrightarrow> k \<le> k'"
proof (induction ws arbitrary: loc k)
  case (Cons v vs)
  then show ?case by (auto split: if_splits sum.splits dest: t_follow_counts dest!: Cons.IH intro: order_trans)
qed simp

lemma t_resolve_counts: "counts_up (t_resolve j T fl)"
proof (induction j arbitrary: fl)
  case (Suc j)
  have "k \<le> k'" if "t_resolve (Suc j) T fl root loc k path = Inr (d, k')" for root loc k path d k'
    using that by (auto simp: t_resolve_with_def Let_def split: if_splits sum.splits dest!: t_walk_counts [OF _ Suc.IH])
  then show ?case by (simp add: counts_up_def)
qed (simp add: counts_up_def)

section \<open>The tree of a name space\<close>

definition tree_of :: "(inode \<Rightarrow> name) \<Rightarrow> ns \<Rightarrow> tree" where
  "tree_of tgt n = \<lparr>
     t_dir = (\<lambda>d. case dent_inode d n of None \<Rightarrow> False | Some (i, ino) \<Rightarrow> S_ISDIR (i_mode ino)),
     t_search = (\<lambda>d. case dent_inode d n of None \<Rightarrow> False
       | Some (i, ino) \<Rightarrow> (case inode_can_access ino FILE_ACCESS_EXECUTE (cr (sy n)) of None \<Rightarrow> False | Some (b, c) \<Rightarrow> b)),
     t_parent = (\<lambda>d. case dents n d of None \<Rightarrow> None | Some de \<Rightarrow> d_parent de),
     t_child = scan_all n,
     t_link = (\<lambda>d. case dent_inode d n of None \<Rightarrow> None
       | Some (i, ino) \<Rightarrow> if i_type ino = VFS_TYPE_SYMLINK then Some (tgt ino) else None),
     t_mount = (\<lambda>d. case dents n d of None \<Rightarrow> None
       | Some de \<Rightarrow> if d_flags de AND DENTRY_FLAG_MOUNTPOINT \<noteq> 0 then d_mount_dentry de else None)\<rparr>"

text \<open>
  A name space that lives in the dentry cache, with no lookup under way: the cache is well-formed and counts references, every dentry has an inode
  of such a file system, parents and mounted roots exist, links are marked as such and their targets are C strings, and the lock of the credentials is free.
\<close>

definition node_ok :: "(inode \<Rightarrow> name) \<Rightarrow> ns \<Rightarrow> nat \<Rightarrow> dent \<Rightarrow> bool" where
  "node_ok tgt n d de \<longleftrightarrow>
     (\<exists>c. drefs (ks (sy n)) d = Some c \<and> 0 < c) \<and>
     (\<exists>i ino. d_inode de = Some i \<and> inodes (ks (sy n)) i = Some ino \<and> i_has_sb ino \<and> i_sb_in_memory ino \<and>
        (i_type ino = VFS_TYPE_SYMLINK \<longrightarrow> S_ISLNK (i_mode ino) \<and> 0 \<notin> set (tgt ino))) \<and>
     d_flags de AND DENTRY_FLAG_PENDING = 0 \<and>
     (\<forall>p. d_parent de = Some p \<longrightarrow> dents n p \<noteq> None) \<and>
     (d_flags de AND DENTRY_FLAG_MOUNTPOINT \<noteq> 0 \<longrightarrow> (\<exists>m. d_mount_dentry de = Some m \<and> dents n m \<noteq> None))"

definition tree_ok :: "(inode \<Rightarrow> name) \<Rightarrow> ns \<Rightarrow> bool" where
  "tree_ok tgt n \<longleftrightarrow> cache_ok n \<and> c_lock (cr (sy n)) = 0 \<and> (\<forall>d de. dents n d = Some de \<longrightarrow> node_ok tgt n d de)"

section \<open>What a lookup may change\<close>

text \<open>\<open>looked n0 M n\<close>: \<open>n\<close> is \<open>n0\<close> with the references \<open>M\<close> taken in addition, and the access times of some inodes changed.\<close>

definition touched :: "inode \<Rightarrow> inode \<Rightarrow> bool" where
  "touched a b \<longleftrightarrow> (\<exists>t fl. b = a\<lparr>i_atime := t, i_flags := fl\<rparr>)"

definition looked :: "ns \<Rightarrow> nat multiset \<Rightarrow> ns \<Rightarrow> bool" where
  "looked n0 M n \<longleftrightarrow>
     dents n = dents n0 \<and> dentry_ht n = dentry_ht n0 \<and> fs_root n = fs_root n0 \<and> boot_dentry n = boot_dentry n0 \<and>
     next_obj n = next_obj n0 \<and> sb_curr_inode n = sb_curr_inode n0 \<and> cr (sy n) = cr (sy n0) \<and> um (sy n) = um (sy n0) \<and>
     files (ks (sy n)) = files (ks (sy n0)) \<and> ctx (ks (sy n)) = ctx (ks (sy n0)) \<and>
     (\<forall>d. drefs (ks (sy n)) d = map_option (\<lambda>c. c + count M d) (drefs (ks (sy n0)) d)) \<and>
     (\<forall>i. rel_option touched (inodes (ks (sy n0)) i) (inodes (ks (sy n)) i))"

lemma touched_refl [simp]: "touched a a"
  unfolding touched_def by (rule exI [of _ "i_atime a"], rule exI [of _ "i_flags a"]) simp

lemma touched_trans: "touched a b \<Longrightarrow> touched b c \<Longrightarrow> touched a c"
  by (auto simp: touched_def) blast

lemma looked_refl: "looked n0 {#} n0"
  by (simp add: looked_def option.map_ident option.rel_refl)

lemma looked_errno [simp]: "looked n0 M (set_errno e n) = looked n0 M n"
  by (simp add: looked_def set_errno_def)

lemma looked_get:
  assumes "looked n0 M n" "drefs (ks (sy n0)) d \<noteq> None"
  shows "wp (dget d n) (looked n0 (add_mset d M))"
  using assms by (auto simp: dget_def on_ks_def dentry_get_def wp_simps looked_def set_ks_def split: option.splits)

lemma looked_put:
  assumes "looked n0 M n" "d \<in># M" "drefs (ks (sy n0)) d = Some c" "0 < c"
  shows "wp (dput d n) (looked n0 (M - {#d#}))"
proof -
  from assms have c: "drefs (ks (sy n)) d = Some (c + count M d)" "0 < count M d" by (simp_all add: looked_def)
  moreover have "\<not> c + count M d \<le> Suc 0" using c(2) assms(4) by linarith
  ultimately have "dput d n = Some (set_ks ((ks (sy n))\<lparr>drefs := (drefs (ks (sy n)))(d \<mapsto> c + count M d - 1)\<rparr>) n)"
    using assms(4) by (simp add: dput.simps on_ks_def dentry_put_def set_ks_def)
  then show ?thesis using assms c by (auto simp: wp_simps looked_def set_ks_def)
qed

lemma touched_same:
  assumes "touched a b"
  shows "i_mode b = i_mode a" "i_type b = i_type a" "i_uid b = i_uid a" "i_gid b = i_gid a" "i_has_sb b = i_has_sb a"
    "i_sb_in_memory b = i_sb_in_memory a" "i_link b = i_link a"
  using assms by (auto simp: touched_def)

lemma touched_access: "touched a b \<Longrightarrow> inode_can_access b p c = inode_can_access a p c"
  by (simp only: inode_can_access_def touched_same)

lemma looked_inode:
  assumes "looked n0 M n" "dent_inode d n0 = Some (i, ino)"
  obtains ino' where "dent_inode d n = Some (i, ino')" "touched ino ino'"
proof -
  from assms(2) obtain de where "dents n0 d = Some de" "d_inode de = Some i" "inodes (ks (sy n0)) i = Some ino"
    by (auto simp: dent_inode_def bind_eq_Some_conv)
  moreover from this assms(1) obtain ino' where "inodes (ks (sy n)) i = Some ino'" "touched ino ino'"
    unfolding looked_def by (metis option_rel_Some1)
  ultimately show thesis using that assms(1) by (simp add: dent_inode_def looked_def)
qed

lemma looked_dirty:
  assumes "looked n0 M n" "inodes (ks (sy n)) i = Some ino" "touched ino ino'"
  shows "looked n0 M (n\<lparr>sy := set_dirty i (ino', b) (sy n)\<rparr>)"
proof -
  have r: "rel_option touched (inodes (ks (sy n0)) j) (inodes (ks (sy n)) j)" for j using assms(1) by (simp add: looked_def)
  from r [of i] assms(2,3) have "rel_option touched (inodes (ks (sy n0)) i) (Some ino')"
    by (cases "inodes (ks (sy n0)) i") (auto intro: touched_trans)
  with r have "rel_option touched (inodes (ks (sy n0)) j) (if j = i then Some ino' else inodes (ks (sy n)) j)" for j by simp
  then show ?thesis
    using assms(1) by (auto simp: looked_def set_dirty_def set_inode_def log_sys_def log_event_def)
qed

lemma mark_dirty_touched: "touched ino (fst (inode_update_atime now ino))"
proof -
  have "ino\<lparr>i_atime := now\<rparr> = ino\<lparr>i_atime := now, i_flags := i_flags ino\<rparr>" by simp
  then have t: "touched ino (ino\<lparr>i_atime := now\<rparr>)" "touched ino (ino\<lparr>i_atime := now, i_flags := fl\<rparr>)" for fl
    unfolding touched_def by blast+
  then show ?thesis
    by (simp add: inode_update_atime_def inode_mark_dirty_def inode_wait_flush_def Let_def)
qed

lemma inode_can_access_unlocked:
  "c_lock c = 0 \<Longrightarrow> \<exists>b. inode_can_access ino p c = Some (b, c)"
  by (auto simp: inode_can_access_def creds_get_def creds_put_def rwslock_lock_read_def rwslock_unlock_read_def Let_def RDWR_LOCK_WRITE_def)

section \<open>Facts about the nodes of a tree\<close>

lemma tree_node:
  assumes "tree_ok tgt n0" "dents n0 d = Some de"
  obtains c i ino where "drefs (ks (sy n0)) d = Some c" "0 < c" "d_inode de = Some i" "dent_inode d n0 = Some (i, ino)"
    "i_has_sb ino" "i_sb_in_memory ino" "i_type ino = VFS_TYPE_SYMLINK \<longrightarrow> S_ISLNK (i_mode ino) \<and> 0 \<notin> set (tgt ino)"
  using assms that by (fastforce simp: tree_ok_def node_ok_def dent_inode_def)

lemma tree_flags:
  assumes "tree_ok tgt n0" "dents n0 d = Some de"
  shows "d_flags de AND DENTRY_FLAG_PENDING = 0" "d_parent de = Some p \<Longrightarrow> dents n0 p \<noteq> None"
    "d_flags de AND DENTRY_FLAG_MOUNTPOINT \<noteq> 0 \<Longrightarrow> \<exists>m. d_mount_dentry de = Some m \<and> dents n0 m \<noteq> None"
  using assms by (auto simp: tree_ok_def node_ok_def)

lemma tree_refs:
  assumes "tree_ok tgt n0" "dents n0 d \<noteq> None"
  obtains c where "drefs (ks (sy n0)) d = Some c" "0 < c"
  using assms that by (fastforce simp: tree_ok_def node_ok_def)

lemma tree_get: "tree_ok tgt n0 \<Longrightarrow> looked n0 M n \<Longrightarrow> dents n0 d \<noteq> None \<Longrightarrow> wp (dget d n) (looked n0 (add_mset d M))"
  by (metis looked_get tree_refs option.distinct(1))

lemma tree_put: "tree_ok tgt n0 \<Longrightarrow> looked n0 M n \<Longrightarrow> dents n0 d \<noteq> None \<Longrightarrow> d \<in># M \<Longrightarrow> wp (dput d n) (looked n0 (M - {#d#}))"
  by (metis looked_put tree_refs)

section \<open>One name\<close>

lemma scan_all_looked: "looked n0 M n \<Longrightarrow> scan_all n = scan_all n0"
  by (rule ext)+ (simp add: scan_all_def cached_def looked_def)

lemma cache_ok_looked: "looked n0 M n \<Longrightarrow> cache_ok n = cache_ok n0"
  by (simp add: cache_ok_def hashed_ok_def looked_def)

text \<open>For a C string the table is as good as a scan, whatever its length.\<close>

lemma scan_all_40:
  assumes "cache_ok n" "length v = INLINE_NAME_MAX" "0 \<notin> set v"
  shows "scan_all n p v = None"
proof -
  have "\<not> (case dents n d of None \<Rightarrow> False | Some de \<Rightarrow> d_parent de = Some p \<and> d_name de = v)" if "d \<in> set (cached n)" for d
  proof
    assume "case dents n d of None \<Rightarrow> False | Some de \<Rightarrow> d_parent de = Some p \<and> d_name de = v"
    then obtain de where de: "dents n d = Some de" "d_name de = v" by (auto split: option.splits)
    from that obtain j where "d \<in> set (dentry_ht n j)" using cached_iff by blast
    from hashed_name [OF assms(1) this de(1), of p] obtain nm where "v = stored_name nm" using de(2) by blast
    then have "0 \<in> set v" using assms(2) stored_name_length [of nm] by (auto simp: stored_name_def)
    with assms(3) show False by simp
  qed
  then show ?thesis unfolding scan_all_def find_None_iff by blast
qed

lemma cache_scan_string:
  assumes "cache_ok n" "0 \<notin> set v"
  shows "cache_scan n p v (dentry_ht n (dentry_ht_index p v)) = Some (scan_all n p v)"
  using cache_scan_bucket [OF assms(1)] cache_scan_40 [OF assms(1) _ assms(2)] scan_all_40 [OF assms(1) _ assms(2)] by metis

lemma scan_all_Some:
  assumes "cache_ok n" "scan_all n p v = Some d"
  obtains de where "dents n d = Some de"
  using assms that by (auto simp: scan_all_def find_Some_iff split: option.splits)

definition lookup_post :: "(inode \<Rightarrow> name) \<Rightarrow> ns \<Rightarrow> nat multiset \<Rightarrow> int + nat \<Rightarrow> nat option \<times> ns \<Rightarrow> bool" where
  "lookup_post tgt n0 M t = (\<lambda>(r, n').
     case t of
       Inl e \<Rightarrow> r = None \<and> e < 0 \<and> errno (sy n') = - e \<and> looked n0 M n'
     | Inr c \<Rightarrow> r = Some c \<and> dents n0 c \<noteq> None \<and> (\<exists>M'. looked n0 M' n' \<and> add_mset c M \<subseteq># M'))"

lemma tree_dir:
  assumes "tree_ok tgt n0" "looked n0 M n" "dents n0 d \<noteq> None"
  shows "dentry_is_dir d n = Some (t_dir (tree_of tgt n0) d)"
proof -
  from assms(3) obtain de where "dents n0 d = Some de" by auto
  with assms(1) obtain i ino where i: "dent_inode d n0 = Some (i, ino)" by (elim tree_node)
  with assms(2) obtain ino' where "dent_inode d n = Some (i, ino')" "touched ino ino'" by (elim looked_inode)
  with i show ?thesis by (simp add: dentry_is_dir_def tree_of_def touched_same)
qed

lemma set_errno_sel [simp]: "errno (sy (set_errno e n)) = e" "dents (set_errno e n) = dents n"
  by (simp_all add: set_errno_def)

lemma lookup_cached:
  assumes "tree_ok tgt n0" "looked n0 M n" "0 \<notin> set v"
  shows "scan_all n0 d v = None \<Longrightarrow> dentry_open_from_cache d v n = Some (None, n)"
    "scan_all n0 d v = Some c \<Longrightarrow> wp (dentry_open_from_cache d v n) (\<lambda>(r, n'). r = Some c \<and> dents n0 c \<noteq> None \<and> looked n0 (add_mset c M) n')"
proof -
  have ok: "cache_ok n" "cache_ok n0" using assms(1,2) cache_ok_looked by (auto simp: tree_ok_def)
  have sc: "cache_scan n d v (dentry_ht n (dentry_ht_index d v)) = Some (scan_all n0 d v)"
    using cache_scan_string [OF ok(1) assms(3)] scan_all_looked [OF assms(2)] by simp
  then show "scan_all n0 d v = None \<Longrightarrow> dentry_open_from_cache d v n = Some (None, n)"
    by (simp add: dentry_open_from_cache_def)
  assume c: "scan_all n0 d v = Some c"
  with scan_all_Some [OF ok(2) c] have "dents n0 c \<noteq> None" by auto
  with sc c tree_get [OF assms(1,2) this]
  show "wp (dentry_open_from_cache d v n) (\<lambda>(r, n'). r = Some c \<and> dents n0 c \<noteq> None \<and> looked n0 (add_mset c M) n')"
    by (auto simp: dentry_open_from_cache_def wp_simps elim!: wp_mono)
qed

lemma lookup_parent:
  assumes "tree_ok tgt n0" "looked n0 M n" "dents n0 d \<noteq> None"
  shows "wp (do { (p, n1) \<leftarrow> dentry_parent d n; let dent = (case p of None \<Rightarrow> d | Some p \<Rightarrow> p); n2 \<leftarrow> dget dent n1; Some (Some dent, n2) })
     (lookup_post tgt n0 M (Inr (case t_parent (tree_of tgt n0) d of None \<Rightarrow> d | Some p \<Rightarrow> p)))"
proof -
  from assms(3) obtain de where de: "dents n0 d = Some de" by auto
  then have den: "dents n d = Some de" "t_parent (tree_of tgt n0) d = d_parent de" using assms(2) by (simp_all add: looked_def tree_of_def)
  show ?thesis
  proof (cases "d_parent de")
    case None
    then show ?thesis using tree_get [OF assms] de
      by (auto simp: dentry_parent_def den wp_simps lookup_post_def elim!: wp_mono)
  next
    case (Some p)
    then have p: "dents n0 p \<noteq> None" by (rule tree_flags(2) [OF assms(1) de])
    have "wp (dget p n1) (\<lambda>n2. \<exists>M'. looked n0 M' n2 \<and> add_mset p M \<subseteq># M')" if "looked n0 (add_mset p M) n1" for n1
      using tree_get [OF assms(1) that p] by (rule wp_mono) (auto simp: subseteq_mset_def intro!: exI [of _ "add_mset p (add_mset p M)"])
    then have "wp (dget p n) (\<lambda>n1. wp (dget p n1) (\<lambda>n2. \<exists>M'. looked n0 M' n2 \<and> add_mset p M \<subseteq># M'))"
      using tree_get [OF assms(1,2) p] by (rule wp_mono [rotated])
    with Some p show ?thesis
      by (auto simp: dentry_parent_def den wp_simps lookup_post_def elim!: wp_mono)
  qed
qed

lemma lookup_refines:
  assumes "tree_ok tgt n0" "looked n0 M n" "dents n0 d \<noteq> None" "0 \<notin> set v"
  shows "wp (dentry_lookup_internal E v d 0 n) (lookup_post tgt n0 M (t_lookup (tree_of tgt n0) d v))"
proof -
  let ?T = "tree_of tgt n0"
  note dir = tree_dir [OF assms(1-3)]
  consider "\<not> t_dir ?T d" | "t_dir ?T d" "v = dot" | "t_dir ?T d" "v = dotdot" | "t_dir ?T d" "v \<noteq> dot" "v \<noteq> dotdot" by blast
  then show ?thesis
  proof cases
    case 1 then show ?thesis using assms(2) by (simp add: dentry_lookup_internal_def dir t_lookup_def lookup_post_def wp_simps)
  next
    case 2 then show ?thesis using tree_get [OF assms(1-3)] assms(3)
      by (auto simp: dentry_lookup_internal_def dir t_lookup_def lookup_post_def wp_simps elim!: wp_mono)
  next
    case 3 then show ?thesis using lookup_parent [OF assms(1-3)]
      by (simp add: dentry_lookup_internal_def dir t_lookup_def)
  next
    case 4
    show ?thesis
    proof (cases "scan_all n0 d v")
      case None
      from assms(3) obtain de where "dents n0 d = Some de" by auto
      with assms(1) obtain i ino where i: "dent_inode d n0 = Some (i, ino)" "i_has_sb ino" "i_sb_in_memory ino" by (elim tree_node)
      with assms(2) obtain ino' where "dent_inode d n = Some (i, ino')" "touched ino ino'" by (elim looked_inode)
      with i 4 None assms(2) lookup_cached(1) [OF assms(1,2,4) None] show ?thesis
        by (simp add: dentry_lookup_internal_def dir t_lookup_def lookup_post_def wp_simps dentry_try_to_open_def touched_same tree_of_def)
    next
      case (Some c)
      from lookup_cached(2) [OF assms(1,2,4) Some] obtain n1 where n1: "dentry_open_from_cache d v n = Some (Some c, n1)"
        "dents n0 c \<noteq> None" "looked n0 (add_mset c M) n1" by (auto simp: wp_iff)
      from n1(2,3) obtain ce where ce: "dents n0 c = Some ce" "dents n1 c = Some ce" by (auto simp: looked_def)
      with tree_flags(1) [OF assms(1) ce(1)] n1 4 Some show ?thesis
        by (auto simp: dentry_lookup_internal_def dir t_lookup_def lookup_post_def wp_simps tree_of_def)
    qed
  qed
qed

section \<open>Links and mount points\<close>

text \<open>What a resolver must keep of the references the caller holds (\<open>M\<close>), and what it returns.\<close>

definition res_post :: "ns \<Rightarrow> nat multiset \<Rightarrow> int + nat \<times> nat \<Rightarrow> int \<times> nameidata \<times> ns \<Rightarrow> bool" where
  "res_post n0 M t = (\<lambda>(st, nd, n').
     case t of
       Inl e \<Rightarrow> st = e \<and> e < 0 \<and> (\<exists>M'. looked n0 M' n' \<and> M \<subseteq># M')
     | Inr (d, k) \<Rightarrow> st = 0 \<and> nd_location nd = Some d \<and> nd_nloops nd = k \<and> k \<le> SYMLOOP_MAX \<and> dents n0 d \<noteq> None \<and>
         (\<exists>M'. looked n0 M' n' \<and> add_mset d M \<subseteq># M'))"

definition resolver_ok :: "ns \<Rightarrow> nat \<Rightarrow> u32 \<Rightarrow> resolver \<Rightarrow> t_resolver \<Rightarrow> bool" where
  "resolver_ok n0 j fl resolve R \<longleftrightarrow>
     (\<forall>nd n M loc. nd_pos nd = 0 \<longrightarrow> nd_handler nd = None \<longrightarrow> nd_flags nd = fl \<longrightarrow> nd_location nd = Some loc \<longrightarrow>
        dents n0 (nd_root nd) \<noteq> None \<longrightarrow> dents n0 loc \<noteq> None \<longrightarrow> nd_nloops nd \<le> SYMLOOP_MAX \<longrightarrow> SYMLOOP_MAX < j + nd_nloops nd \<longrightarrow>
        0 \<notin> set (nd_view nd) \<longrightarrow> looked n0 M n \<longrightarrow> {#nd_root nd, loc#} \<subseteq># M \<longrightarrow>
        wp (resolve nd n) (res_post n0 (M - {#nd_root nd, loc#}) (R (nd_root nd) loc (nd_nloops nd) (nd_view nd))))"

lemma resolver_okD:
  assumes "resolver_ok n0 j fl resolve R" "nd_pos nd = 0" "nd_handler nd = None" "nd_flags nd = fl" "nd_location nd = Some loc"
    "dents n0 (nd_root nd) \<noteq> None" "dents n0 loc \<noteq> None" "nd_nloops nd \<le> SYMLOOP_MAX" "SYMLOOP_MAX < j + nd_nloops nd"
    "0 \<notin> set (nd_view nd)" "looked n0 M n" "{#nd_root nd, loc#} \<subseteq># M"
  shows "wp (resolve nd n) (res_post n0 (M - {#nd_root nd, loc#}) (R (nd_root nd) loc (nd_nloops nd) (nd_view nd)))"
  using assms unfolding resolver_ok_def by blast

definition follow_post :: "ns \<Rightarrow> nat multiset \<Rightarrow> nameidata \<Rightarrow> int + nat \<times> nat \<Rightarrow> (int + nat) \<times> nameidata \<times> ns \<Rightarrow> bool" where
  "follow_post n0 M data t = (\<lambda>(r, data', n').
     case t of
       Inl e \<Rightarrow> r = Inl e \<and> e < 0 \<and> (\<exists>k. data' = data\<lparr>nd_nloops := k\<rparr>) \<and> (\<exists>M'. looked n0 M' n' \<and> M \<subseteq># M')
     | Inr (d, k) \<Rightarrow> r = Inr d \<and> data' = data\<lparr>nd_nloops := k\<rparr> \<and> k \<le> SYMLOOP_MAX \<and> dents n0 d \<noteq> None \<and>
         (\<exists>M'. looked n0 M' n' \<and> add_mset d M \<subseteq># M'))"

lemma cross_mount_refines:
  assumes "tree_ok tgt n0" "looked n0 M n" "dents n0 d \<noteq> None" "d \<in># M"
  shows "wp (cross_mount d n) (\<lambda>(d', n'). d' = t_cross (tree_of tgt n0) d \<and> dents n0 d' \<noteq> None \<and> looked n0 (add_mset d' (M - {#d#})) n')"
proof -
  from assms(3) obtain de where de: "dents n0 d = Some de" by auto
  then have den: "dents n d = Some de" using assms(2) by (simp add: looked_def)
  show ?thesis
  proof (cases "d_flags de AND DENTRY_FLAG_MOUNTPOINT = 0")
    case True
    then show ?thesis using assms by (simp add: cross_mount_def den wp_simps t_cross_def tree_of_def de)
  next
    case False
    from tree_flags(3) [OF assms(1) de False] obtain m where m: "d_mount_dentry de = Some m" "dents n0 m \<noteq> None" by auto
    have "wp (dput d n) (\<lambda>n1. wp (dget m n1) (looked n0 (add_mset m (M - {#d#}))))"
      using tree_put [OF assms(1-4)] by (rule wp_mono) (rule tree_get [OF assms(1) _ m(2)])
    with False m de show ?thesis
      by (auto simp: cross_mount_def den wp_simps t_cross_def tree_of_def elim!: wp_mono)
  qed
qed

lemma follow_post_put:
  assumes "tree_ok tgt n0" "follow_post n0 M data t (r, data1, n1)" "dents n0 d \<noteq> None" "d \<in># M"
  shows "wp (dput d n1) (\<lambda>n2. follow_post n0 (M - {#d#}) data t (r, data1, n2))"
proof (cases t)
  case (Inl e)
  with assms(2) obtain M1 where m: "looked n0 M1 n1" "M \<subseteq># M1" by (auto simp: follow_post_def)
  then have "d \<in># M1" "M - {#d#} \<subseteq># M1 - {#d#}" using assms(4) by (auto simp: mset_subset_eqD subseteq_mset_def diff_le_mono)
  with tree_put [OF assms(1) m(1) assms(3)] Inl assms(2) show ?thesis
    by (auto simp: follow_post_def elim!: wp_mono)
next
  case (Inr xk)
  obtain x k where xk: "xk = (x, k)" by fastforce
  with Inr assms(2) obtain M1 where m: "looked n0 M1 n1" "add_mset x M \<subseteq># M1" by (auto simp: follow_post_def)
  have "add_mset x (M - {#d#}) = add_mset x M - {#d#}" using assms(4) by (auto simp: multiset_eq_iff Suc_diff_Suc)
  then have "add_mset x (M - {#d#}) \<subseteq># M1 - {#d#}"
    using m(2) unfolding subseteq_mset_def by (metis count_diff diff_le_mono)
  moreover have "d \<in># M1" by (rule mset_subset_eqD [OF m(2)]) (simp add: assms(4))
  ultimately have "d \<in># M1" "add_mset x (M - {#d#}) \<subseteq># M1 - {#d#}" by simp_all
  with tree_put [OF assms(1) m(1) assms(3)] Inr xk assms(2) show ?thesis
    by (auto simp: follow_post_def elim!: wp_mono)
qed

locale link_reader =
  fixes E :: nenv and tgt :: "inode \<Rightarrow> name"
  assumes readlink: "drv_readlink (ne_s E) fl ino = Some (Inr (tgt ino))"
    and tgt_touched: "touched ino ino' \<Longrightarrow> tgt ino' = tgt ino"
begin

lemma readlink_inode_refines:
  assumes "looked n0 M n" "inodes (ks (sy n)) i = Some ino'" "touched ino ino'" "S_ISLNK (i_mode ino)"
  shows "wp (readlink_inode E i n) (\<lambda>(p, n'). p = Some (tgt ino) \<and> looked n0 M n')"
proof -
  obtain ino2 b where d: "inode_update_atime (se_now (ne_s E)) ino' = (ino2, b)" by fastforce
  then have "touched ino' ino2" using mark_dirty_touched [of ino'] by (metis fst_conv)
  with assms d looked_dirty [OF assms(1,2), of ino2 b] show ?thesis
    by (simp add: readlink_inode_def wp_simps readlink Let_def touched_same tgt_touched)
qed

lemma follow_symlink_refines:
  assumes t: "tree_ok tgt n0" and l: "looked n0 M n" and d: "dents n0 d \<noteq> None" and loc: "nd_location data = Some loc"
    and root: "dents n0 (nd_root data) \<noteq> None" "dents n0 loc \<noteq> None" and k: "nd_nloops data \<le> SYMLOOP_MAX" "SYMLOOP_MAX \<le> j + nd_nloops data"
    and R: "resolver_ok n0 j 0 resolve R" and link: "t_link (tree_of tgt n0) d = Some path"
  shows "wp (dentry_follow_symlink resolve E data d n) (follow_post n0 M data
     (if nd_nloops data = SYMLOOP_MAX then Inl (- ELOOP) else R (nd_root data) loc (nd_nloops data + 1) path))"
proof -
  from d obtain de where de: "dents n0 d = Some de" by auto
  with t obtain i ino where i: "dent_inode d n0 = Some (i, ino)"
    "i_type ino = VFS_TYPE_SYMLINK \<longrightarrow> S_ISLNK (i_mode ino) \<and> 0 \<notin> set (tgt ino)" by (elim tree_node)
  with link have path: "path = tgt ino" "S_ISLNK (i_mode ino)" "0 \<notin> set path" by (auto simp: tree_of_def split: if_splits)
  from l i(1) obtain ino' where ino': "dent_inode d n = Some (i, ino')" "touched ino ino'" by (elim looked_inode)
  then have inon: "inodes (ks (sy n)) i = Some ino'" by (auto simp: dent_inode_def bind_eq_Some_conv)
  show ?thesis
  proof (cases "nd_nloops data = SYMLOOP_MAX")
    case True
    then show ?thesis using l by (auto simp: dentry_follow_symlink_def ino' wp_simps follow_post_def)
  next
    case False
    let ?d1 = "data\<lparr>nd_nloops := nd_nloops data + 1\<rparr>"
    let ?nd = "\<lparr>nd_view = path, nd_pos = 0, nd_root = nd_root data, nd_location = Some loc, nd_last = False, nd_nloops = nd_nloops data + 1,
      nd_handler = None, nd_flags = 0\<rparr>"
    from readlink_inode_refines [OF l inon ino'(2) path(2)] obtain n1 where n1: "readlink_inode E i n = Some (Some path, n1)" "looked n0 M n1"
      using path(1) by (auto simp: wp_iff)
    have "wp (dget (nd_root data) n1) (\<lambda>m. wp (dget loc m) (looked n0 (add_mset loc (add_mset (nd_root data) M))))"
      using tree_get [OF t n1(2) root(1)] by (rule wp_mono) (rule tree_get [OF t _ root(2)])
    then obtain m n2 where n2: "dget (nd_root data) n1 = Some m" "dget loc m = Some n2" "looked n0 (add_mset loc (add_mset (nd_root data) M)) n2"
      by (auto simp: wp_iff)
    have "wp (resolve ?nd n2) (res_post n0 M (R (nd_root data) loc (nd_nloops data + 1) path))"
      using resolver_okD [OF R, of ?nd loc "add_mset loc (add_mset (nd_root data) M)" n2] root k False path(3) n2(3)
      by (simp add: add_mset_commute)
    then obtain st nd n3 where n3: "resolve ?nd n2 = Some (st, nd, n3)" "res_post n0 M (R (nd_root data) loc (nd_nloops data + 1) path) (st, nd, n3)"
      by (auto simp: wp_iff)
    show ?thesis
    proof (cases "R (nd_root data) loc (nd_nloops data + 1) path")
      case (Inl e)
      with n3 False show ?thesis
        by (auto simp: dentry_follow_symlink_def ino' wp_simps n1 for_symlink_resolution_def loc n2 follow_post_def res_post_def)
    next
      case (Inr dk)
      with n3 False show ?thesis
        by (cases dk) (auto simp: dentry_follow_symlink_def ino' wp_simps n1 for_symlink_resolution_def loc n2 follow_post_def res_post_def)
    qed
  qed
qed

lemma follow_found_refines:
  assumes t: "tree_ok tgt n0" and l: "looked n0 M n" and d: "dents n0 d \<noteq> None" "d \<in># M" and loc: "nd_location data = Some loc"
    and root: "dents n0 (nd_root data) \<noteq> None" "dents n0 loc \<noteq> None" and k: "nd_nloops data \<le> SYMLOOP_MAX" "SYMLOOP_MAX \<le> j + nd_nloops data"
    and R: "resolver_ok n0 j 0 resolve R"
  shows "wp (follow_found resolve E is_last d data n) (follow_post n0 (M - {#d#}) data
     (t_follow R (tree_of tgt n0) (nd_flags data) (nd_root data) is_last loc d (nd_nloops data)))"
proof -
  from d obtain de where de: "dents n0 d = Some de" by auto
  with t obtain i ino where i: "dent_inode d n0 = Some (i, ino)" by (elim tree_node)
  from l i obtain ino' where ino': "dent_inode d n = Some (i, ino')" "touched ino ino'" by (elim looked_inode)
  let ?l = "t_link (tree_of tgt n0) d"
  have link: "i_type ino' = VFS_TYPE_SYMLINK \<longleftrightarrow> ?l \<noteq> None" using ino'(2) i by (simp add: tree_of_def touched_same)
  have self: "follow_post n0 (M - {#d#}) data (Inr (d, nd_nloops data)) (Inr d, data, n)"
    using l d k by (auto simp: follow_post_def intro!: exI [of _ M])
  show ?thesis
  proof (cases ?l)
    case None
    then show ?thesis using link self by (simp add: follow_found_def ino' wp_simps t_follow_def)
  next
    case (Some path)
    note link' = link [unfolded Some, simplified]
    consider (fail) "is_last" "nd_flags data AND OPEN_FLAG_FAIL_IF_LINK \<noteq> 0"
      | (keep) "\<not> (is_last \<and> nd_flags data AND OPEN_FLAG_FAIL_IF_LINK \<noteq> 0)" "is_last" "nd_flags data AND OPEN_FLAG_NOFOLLOW \<noteq> 0"
          "nd_flags data AND LOOKUP_FLAG_INTERNAL_TRAILING_SLASH = 0"
      | (go) "\<not> (is_last \<and> nd_flags data AND OPEN_FLAG_FAIL_IF_LINK \<noteq> 0)"
          "\<not> (is_last \<and> nd_flags data AND OPEN_FLAG_NOFOLLOW \<noteq> 0 \<and> nd_flags data AND LOOKUP_FLAG_INTERNAL_TRAILING_SLASH = 0)"
      by blast
    then show ?thesis
    proof cases
      case fail
      have "wp (dput d n) (\<lambda>n1. follow_post n0 (M - {#d#}) data (Inl (- ELOOP)) (Inl (- ELOOP), data, n1))"
        using tree_put [OF t l d] by (rule wp_mono) (auto simp: follow_post_def intro: exI [of _ "nd_nloops data"])
      with fail Some link' show ?thesis by (simp add: follow_found_def ino' wp_simps t_follow_def)
    next
      case keep
      with Some link' self show ?thesis by (simp add: follow_found_def ino' wp_simps t_follow_def)
    next
      case go
      let ?t = "if nd_nloops data = SYMLOOP_MAX then Inl (- ELOOP) else R (nd_root data) loc (nd_nloops data + 1) path"
      have "wp (dentry_follow_symlink resolve E data d n) (\<lambda>(r, data1, n1). wp (dput d n1) (\<lambda>n2. follow_post n0 (M - {#d#}) data ?t (r, data1, n2)))"
        using follow_symlink_refines [OF t l d(1) loc root k R Some] by (rule wp_mono) (auto intro: follow_post_put [OF t _ d])
      then obtain r data1 n1 n2 where "dentry_follow_symlink resolve E data d n = Some (r, data1, n1)" "dput d n1 = Some n2"
        "follow_post n0 (M - {#d#}) data ?t (r, data1, n2)" by (auto simp: wp_iff)
      moreover have "t_follow R (tree_of tgt n0) (nd_flags data) (nd_root data) is_last loc d (nd_nloops data) = ?t"
        using go Some by (cases is_last) (auto simp: t_follow_def)
      ultimately show ?thesis using go link'
        by (cases is_last) (auto simp: follow_found_def ino' wp_simps)
    qed
  qed
qed

end

section \<open>The walk\<close>

definition loop_post :: "ns \<Rightarrow> nat multiset \<Rightarrow> nat \<Rightarrow> int + nat \<times> nat \<Rightarrow> int \<times> nameidata \<times> ns \<Rightarrow> bool" where
  "loop_post n0 M root t = (\<lambda>(st, data', n').
     nd_root data' = root \<and>
     (\<exists>loc. nd_location data' = Some loc \<and> dents n0 loc \<noteq> None \<and> (\<exists>M'. looked n0 M' n' \<and> add_mset loc M \<subseteq># M') \<and>
        (case t of
           Inl e \<Rightarrow> st = e \<and> e < 0
         | Inr (d, k) \<Rightarrow> st = 0 \<and> loc = d \<and> nd_nloops data' = k \<and> k \<le> SYMLOOP_MAX)))"

lemma tree_access:
  assumes "tree_ok tgt n0" "looked n0 M n" "dents n0 d \<noteq> None"
  obtains i ino where "dent_inode d n = Some (i, ino)" "ino_access i FILE_ACCESS_EXECUTE n = Some (t_search (tree_of tgt n0) d, n)"
proof -
  from assms(3) obtain de where "dents n0 d = Some de" by auto
  with assms(1) obtain i ino where i: "dent_inode d n0 = Some (i, ino)" by (elim tree_node)
  with assms(2) obtain ino' where ino': "dent_inode d n = Some (i, ino')" "touched ino ino'" by (elim looked_inode)
  then have "inodes (ks (sy n)) i = Some ino'" by (auto simp: dent_inode_def bind_eq_Some_conv)
  moreover have "cr (sy n) = cr (sy n0)" "c_lock (cr (sy n0)) = 0" using assms(1,2) by (simp_all add: looked_def tree_ok_def)
  moreover from this obtain b where "inode_can_access ino FILE_ACCESS_EXECUTE (cr (sy n0)) = Some (b, cr (sy n0))"
    using inode_can_access_unlocked by blast
  ultimately have "ino_access i FILE_ACCESS_EXECUTE n = Some (t_search (tree_of tgt n0) d, n)"
    using i ino' by (simp add: ino_access_def tree_of_def touched_access)
  with ino'(1) show thesis by (rule that)
qed

definition found_post :: "tree \<Rightarrow> ns \<Rightarrow> nat multiset \<Rightarrow> nameidata \<Rightarrow> nat \<Rightarrow> int + nat \<times> nat \<Rightarrow> (int + nat) \<times> nameidata \<times> ns \<Rightarrow> bool" where
  "found_post T n0 A data loc t = (\<lambda>(r, data1, n3).
     case t of
       Inl e \<Rightarrow> r = Inl e \<and> e < 0 \<and> (\<exists>k. data1 = data\<lparr>nd_nloops := k\<rparr>) \<and> (\<exists>M'. looked n0 M' n3 \<and> add_mset loc A \<subseteq># M')
     | Inr (d1, k1) \<Rightarrow> r = Inr d1 \<and> data1 = data\<lparr>nd_nloops := k1\<rparr> \<and> k1 \<le> SYMLOOP_MAX \<and>
         wp (cross_mount d1 n3) (\<lambda>(d2, n4). d2 = t_cross T d1 \<and> dents n0 d2 \<noteq> None \<and>
           wp (dput loc n4) (\<lambda>n5. \<exists>M'. looked n0 M' n5 \<and> add_mset d2 A \<subseteq># M')))"

lemma path_names_in: "w \<in> set (path_names v) \<Longrightarrow> set w \<subseteq> set v"
proof -
  have "w \<in> set (split_path v) \<Longrightarrow> set w \<subseteq> set v" for w
  proof (induction v arbitrary: w)
    case (Cons c v)
    have "hd (split_path v) \<in> set (split_path v)" "\<And>x. x \<in> set (tl (split_path v)) \<Longrightarrow> x \<in> set (split_path v)"
      by (simp_all add: list.set_sel)
    note sub = this
    from Cons.prems have "w = [] \<or> w \<in> set (split_path v) \<or> w = c # hd (split_path v)" by (auto split: if_splits dest: sub(2))
    with Cons.IH [of w] Cons.IH [OF sub(1)] show ?case by auto
  qed simp
  then show "w \<in> set (path_names v) \<Longrightarrow> set w \<subseteq> set v" by (simp add: path_names_def)
qed

text \<open>The start of a path at the root or at the current location, and what follows the walk.\<close>

lemma path_start:
  assumes "tree_ok tgt n0" "looked n0 M n" "{#root, loc#} \<subseteq># M" "dents n0 root \<noteq> None" "dents n0 loc \<noteq> None"
  shows "wp (if b then do { n1 \<leftarrow> put_opt (Some loc) n; dget root n1 } else Some n)
     (\<lambda>n2. \<exists>M2. looked n0 M2 n2 \<and> add_mset (if b then root else loc) (M - {#loc#}) \<subseteq># M2)"
proof -
  from assms(3) have loc: "loc \<in># M" using mset_subset_eqD by fastforce
  have "wp (dput loc n) (\<lambda>n1. wp (dget root n1) (looked n0 (add_mset root (M - {#loc#}))))"
    using tree_put [OF assms(1,2,5) loc] by (rule wp_mono) (rule tree_get [OF assms(1) _ assms(4)])
  with loc assms(2) show ?thesis by (auto simp: wp_simps put_opt_def elim!: wp_mono)
qed

lemma path_put_root:
  assumes "tree_ok tgt n0" "looked n0 M1 n" "add_mset loc1 (M - {#loc#}) \<subseteq># M1" "{#root, loc#} \<subseteq># M" "dents n0 root \<noteq> None"
  shows "wp (if b then dput root n else Some n) (\<lambda>n1. \<exists>M2. looked n0 M2 n1 \<and> add_mset loc1 (M - {#root, loc#}) \<subseteq># M2)"
proof -
  from assms(4) obtain C where "M = {#root, loc#} + C" by (auto simp: subset_mset.le_iff_add)
  then have "M - {#loc#} = add_mset root (M - {#root, loc#})" by simp
  then have "root \<in># M1" "add_mset loc1 (M - {#root, loc#}) \<subseteq># M1 - {#root#}"
    using assms(3) by (simp_all add: add_mset_commute [of loc1] insert_subset_eq_iff)
  moreover have "add_mset loc1 (M - {#root, loc#}) \<subseteq># M1" using calculation(2) by (meson diff_subset_eq_self subset_mset.order_trans)
  ultimately show ?thesis using tree_put [OF assms(1,2,5)] assms(2) by (auto simp: wp_simps elim!: wp_mono)
qed

lemma path_finish:
  assumes t: "tree_ok tgt n0" and l: "looked n0 M n" "add_mset loc A \<subseteq># M" and loc: "dents n0 loc \<noteq> None" "nd_location data = Some loc"
    and w: "case w of Inl e \<Rightarrow> st = e \<and> e < 0 | Inr (d, k) \<Rightarrow> st = 0 \<and> loc = d \<and> nd_nloops data = k \<and> k \<le> SYMLOOP_MAX"
  shows "wp (if st < 0 then do { n5 \<leftarrow> dput loc n; Some (st, data, n5) }
     else do { isdir \<leftarrow> dentry_is_dir loc n;
       if \<not> isdir \<and> must_be_dir then do { n5 \<leftarrow> dput loc n; Some (- ENOTDIR, data, n5) } else Some (0, data, n) })
     (res_post n0 A (case w of Inl e \<Rightarrow> Inl e
       | Inr (d, k) \<Rightarrow> if must_be_dir \<and> \<not> t_dir (tree_of tgt n0) d then Inl (- ENOTDIR) else Inr (d, k)))"
proof -
  from l(2) have m: "loc \<in># M" "A \<subseteq># M - {#loc#}" by (simp_all add: insert_subset_eq_iff)
  have "wp (dput loc n) (\<lambda>n5. \<exists>M'. looked n0 M' n5 \<and> A \<subseteq># M')"
    using tree_put [OF t l(1) loc(1) m(1)] m(2) by (auto elim!: wp_mono)
  with w l loc tree_dir [OF t l(1) loc(1)] show ?thesis
    by (cases w) (auto simp: wp_simps res_post_def elim!: wp_mono)
qed

context link_reader
begin

text \<open>From a name that was found to the location it leads to.\<close>

lemma found_refines:
  assumes t: "tree_ok tgt n0" and l: "looked n0 M n" "add_mset d (add_mset loc A) \<subseteq># M" and d: "dents n0 d \<noteq> None"
    and loc: "nd_location data = Some loc" and root: "dents n0 (nd_root data) \<noteq> None" "dents n0 loc \<noteq> None"
    and k: "nd_nloops data \<le> SYMLOOP_MAX" "SYMLOOP_MAX \<le> j + nd_nloops data" and R: "resolver_ok n0 j 0 resolve R"
  shows "wp (follow_found resolve E is_last d data n) (found_post (tree_of tgt n0) n0 A data loc
     (t_follow R (tree_of tgt n0) (nd_flags data) (nd_root data) is_last loc d (nd_nloops data)))"
proof -
  let ?t = "t_follow R (tree_of tgt n0) (nd_flags data) (nd_root data) is_last loc d (nd_nloops data)"
  have dM: "d \<in># M" and AM: "add_mset loc A \<subseteq># M - {#d#}" using l(2) by (simp_all add: insert_subset_eq_iff)
  have after: "wp (cross_mount d1 n3) (\<lambda>(d2, n4). d2 = t_cross (tree_of tgt n0) d1 \<and> dents n0 d2 \<noteq> None \<and>
       wp (dput loc n4) (\<lambda>n5. \<exists>M'. looked n0 M' n5 \<and> add_mset d2 A \<subseteq># M'))"
    if d1: "dents n0 d1 \<noteq> None" "looked n0 M3 n3" "add_mset d1 (M - {#d#}) \<subseteq># M3" for d1 n3 M3
  proof -
    from d1(3) have d1M: "d1 \<in># M3" and "M - {#d#} \<subseteq># M3 - {#d1#}" by (simp_all add: insert_subset_eq_iff)
    with AM have AM3: "add_mset loc A \<subseteq># M3 - {#d1#}" by (blast intro: subset_mset.order_trans)
    have "wp (dput loc n4) (\<lambda>n5. \<exists>M'. looked n0 M' n5 \<and> add_mset d2 A \<subseteq># M')" if n4: "looked n0 (add_mset d2 (M3 - {#d1#})) n4" for d2 n4
    proof -
      have "add_mset loc (add_mset d2 A) \<subseteq># add_mset d2 (M3 - {#d1#})" using AM3 by (simp add: add_mset_commute)
      then have "loc \<in># add_mset d2 (M3 - {#d1#})" "add_mset d2 A \<subseteq># add_mset d2 (M3 - {#d1#}) - {#loc#}" by (simp_all only: insert_subset_eq_iff)
      with tree_put [OF t n4 root(2)] show ?thesis by (auto elim!: wp_mono)
    qed
    with cross_mount_refines [OF t d1(2,1) d1M] show ?thesis by (auto elim!: wp_mono)
  qed
  have "found_post (tree_of tgt n0) n0 A data loc ?t x" if "follow_post n0 (M - {#d#}) data ?t x" for x
    using that AM by (cases ?t) (auto simp: follow_post_def found_post_def intro: after [simplified] subset_mset.order_trans)
  with follow_found_refines [OF t l(1) d dM loc root k R] show ?thesis by (rule wp_mono)
qed

lemma resolve_loop_refines:
  assumes t: "tree_ok tgt n0" and R: "resolver_ok n0 j 0 resolve R" and up: "counts_up R"
    and l: "looked n0 M n" "add_mset loc A \<subseteq># M" and loc: "nd_location data = Some loc" and root: "dents n0 (nd_root data) \<noteq> None" "dents n0 loc \<noteq> None"
    and k: "nd_nloops data \<le> SYMLOOP_MAX" "SYMLOOP_MAX \<le> j + nd_nloops data" and h: "nd_handler data = None" and z: "0 \<notin> set (nd_view data)"
    and ws: "path_names (drop (nd_pos data) (nd_view data)) = ws"
  shows "wp (resolve_loop resolve E data n) (loop_post n0 A (nd_root data)
     (t_walk R (tree_of tgt n0) (nd_flags data) (nd_root data) ws loc (nd_nloops data)))"
  using l loc root k h z ws
proof (induction ws arbitrary: data n M loc)
  case Nil
  then show ?case
    by (subst resolve_loop.simps) (auto simp: get_token_None wp_simps loop_post_def)
next
  case (Cons v vs)
  let ?T = "tree_of tgt n0"
  from get_token_Some [OF Cons.prems(10)] obtain q where tok: "get_token_from_path data = (Some v, data\<lparr>nd_pos := q, nd_last := (vs = [])\<rparr>)"
    and vs: "path_names (drop q (nd_view data)) = vs" by blast
  let ?data = "data\<lparr>nd_pos := q, nd_last := (vs = [])\<rparr>"
  have v0: "0 \<notin> set v" using path_names_in [of v "drop (nd_pos data) (nd_view data)"] Cons.prems(9,10) by (auto dest: in_set_dropD)
  obtain i ino where acc: "dent_inode loc n = Some (i, ino)" "ino_access i FILE_ACCESS_EXECUTE n = Some (t_search ?T loc, n)"
    using tree_access [OF t Cons.prems(1,5)] by blast
  note step = resolve_loop.simps [of resolve E data n] and sim = tok acc Cons.prems(3,8) wp_simps Let_def
  consider (long) "NAME_MAX < length v" | (denied) "length v \<le> NAME_MAX" "\<not> t_search ?T loc"
    | (up) "length v \<le> NAME_MAX" "t_search ?T loc" "loc = nd_root data" "v = dotdot"
    | (find) "length v \<le> NAME_MAX" "t_search ?T loc" "\<not> (loc = nd_root data \<and> v = dotdot)" by linarith
  then show ?case
  proof cases
    case long then show ?thesis using Cons.prems(1-5) by (subst step) (auto simp: sim loop_post_def)
  next
    case denied then show ?thesis using Cons.prems(1-5) by (subst step) (auto simp: sim loop_post_def)
  next
    case up
    have "resolve_loop resolve E data n = resolve_loop resolve E ?data n"
      using up acc Cons.prems(3,8) by (subst step) (auto simp: tok Let_def)
    then show ?thesis using Cons.IH [of M n loc ?data] Cons.prems vs up by simp
  next
    case find
    let ?go = "\<lambda>d n2. do { (r, data1, n3) \<leftarrow> follow_found resolve E (vs = []) d ?data n2;
         case r of Inl e \<Rightarrow> Some (e, data1, n3)
         | Inr d1 \<Rightarrow> do { (d2, n4) \<leftarrow> cross_mount d1 n3; n5 \<leftarrow> dput loc n4; resolve_loop resolve E (data1\<lparr>nd_location := Some d2\<rparr>) n5 } }"
    have found: "wp (?go d n2) (loop_post n0 A (nd_root data) (case t_follow R ?T (nd_flags data) (nd_root data) (vs = []) loc d (nd_nloops data) of
           Inl e \<Rightarrow> Inl e | Inr (d1, k1) \<Rightarrow> t_walk R ?T (nd_flags data) (nd_root data) vs (t_cross ?T d1) k1))"
      if d: "dents n0 d \<noteq> None" "looked n0 M2 n2" "add_mset d M \<subseteq># M2" for d n2 M2
    proof -
      let ?t = "t_follow R ?T (nd_flags data) (nd_root data) (vs = []) loc d (nd_nloops data)"
      have "add_mset d (add_mset loc A) \<subseteq># M2" using d(3) Cons.prems(2) by (meson mset_subset_eq_add_mset_cancel subset_mset.order_trans)
      from found_refines [OF t d(2) this d(1), of ?data j resolve R "vs = []"] Cons.prems R
      obtain r data1 n3 where n3: "follow_found resolve E (vs = []) d ?data n2 = Some (r, data1, n3)"
        "found_post ?T n0 A ?data loc ?t (r, data1, n3)" by (auto simp: wp_iff)
      show ?thesis
      proof (cases ?t)
        case (Inl e)
        with n3 Cons.prems(3,5) show ?thesis by (auto simp: wp_simps found_post_def loop_post_def)
      next
        case (Inr dk)
        obtain d1 k1 where dk: "dk = (d1, k1)" by fastforce
        with Inr n3(2) obtain n4 n5 M5 where n5: "r = Inr d1" "data1 = ?data\<lparr>nd_nloops := k1\<rparr>" "k1 \<le> SYMLOOP_MAX"
          "cross_mount d1 n3 = Some (t_cross ?T d1, n4)" "dents n0 (t_cross ?T d1) \<noteq> None" "dput loc n4 = Some n5"
          "looked n0 M5 n5" "add_mset (t_cross ?T d1) A \<subseteq># M5" by (auto simp: found_post_def wp_iff)
        have "nd_nloops data \<le> k1" using up Inr dk by (auto dest: t_follow_counts)
        with Cons.IH [OF n5(7,8), of "data1\<lparr>nd_location := Some (t_cross ?T d1)\<rparr>"] Cons.prems vs n5 n3(1) Inr dk show ?thesis
          by (simp add: wp_simps)
      qed
    qed
    from lookup_refines [OF t Cons.prems(1,5) v0, of E] obtain r n2 where n2: "dentry_lookup_internal E v loc 0 n = Some (r, n2)"
      "lookup_post tgt n0 M (t_lookup ?T loc v) (r, n2)" by (auto simp: wp_iff)
    show ?thesis
    proof (cases "t_lookup ?T loc v")
      case (Inl e)
      then show ?thesis using find n2 Cons.prems(1-5) by (subst step) (auto simp: sim loop_post_def lookup_post_def)
    next
      case (Inr d)
      then obtain M2 where d: "r = Some d" "dents n0 d \<noteq> None" "looked n0 M2 n2" "add_mset d M \<subseteq># M2" using n2(2) by (auto simp: lookup_post_def)
      have "resolve_loop resolve E data n = ?go d n2"
        using find n2(1) acc Cons.prems(3,8) d(1) by (subst step) (cases "loc = nd_root data", auto simp: tok Let_def cong: option.case_cong)
      with found [OF d(2-4)] find Inr show ?thesis by (cases "loc = nd_root data") simp_all
    qed
  qed
qed

lemma resolve_path_refines:
  assumes t: "tree_ok tgt n0" and R: "resolver_ok n0 j 0 resolve R" "counts_up R"
  shows "resolver_ok n0 (Suc j) fl (resolve_path_with resolve E) (t_resolve_with R (tree_of tgt n0) fl)"
  unfolding resolver_ok_def
proof (intro allI impI)
  fix nd :: nameidata and n M loc
  assume nd: "nd_pos nd = 0" "nd_handler nd = None" "nd_flags nd = fl" "nd_location nd = Some loc"
    and d: "dents n0 (nd_root nd) \<noteq> None" "dents n0 loc \<noteq> None" and k: "nd_nloops nd \<le> SYMLOOP_MAX" "SYMLOOP_MAX < Suc j + nd_nloops nd"
    and z: "0 \<notin> set (nd_view nd)" and l: "looked n0 M n" and M: "{#nd_root nd, loc#} \<subseteq># M"
  let ?path = "nd_view nd" and ?T = "tree_of tgt n0" and ?B = "M - {#nd_root nd, loc#}"
  show "wp (resolve_path_with resolve E nd n) (res_post n0 ?B (t_resolve_with R ?T fl (nd_root nd) loc (nd_nloops nd) ?path))"
  proof (cases "?path = []")
    case True
    have "add_mset loc ?B \<subseteq># add_mset loc M" by simp
    with True tree_get [OF t l d(2)] nd d k l show ?thesis
      by (auto simp: resolve_path_with_def t_resolve_with_def wp_simps Let_def res_post_def elim!: wp_mono)
  next
    case False
    obtain fl1 where fl1: "(if last ?path = slash then fl OR LOOKUP_FLAG_INTERNAL_TRAILING_SLASH else fl) = fl1" by blast
    let ?abs = "hd ?path = slash" and ?nd1 = "nd\<lparr>nd_flags := fl1\<rparr>"
    let ?nd2 = "if ?abs then ?nd1\<lparr>nd_location := Some (nd_root nd), nd_view := tl ?path\<rparr> else ?nd1"
    let ?loc = "if ?abs then nd_root nd else loc"
    let ?w = "t_walk R ?T fl1 (nd_root nd) (path_names ?path) ?loc (nd_nloops nd)"
    have nd1: "(if last ?path = slash then nd\<lparr>nd_flags := fl OR LOOKUP_FLAG_INTERNAL_TRAILING_SLASH\<rparr> else nd) = ?nd1"
      using fl1 nd(3) by (auto split: if_splits)
    from path_start [OF t l M d, of ?abs] obtain n2 M2 where
      n2: "(if ?abs then do { n1 \<leftarrow> put_opt (Some loc) n; dget (nd_root nd) n1 } else Some n) = Some n2"
        "looked n0 M2 n2" "add_mset ?loc (M - {#loc#}) \<subseteq># M2" by (auto simp: wp_iff)
    have names: "path_names (drop (nd_pos ?nd2) (nd_view ?nd2)) = path_names ?path" using False nd(1) by (cases ?path) auto
    have z2: "0 \<notin> set (nd_view ?nd2)" using z False by (cases ?path) auto
    have "wp (resolve_loop resolve E ?nd2 n2) (loop_post n0 (M - {#loc#}) (nd_root nd) ?w)"
      using resolve_loop_refines [OF t R n2(2,3), of ?nd2 "path_names ?path"] nd d k names z2 by (simp split: if_splits)
    then obtain st nd3 n3 loc3 M3 where n3: "resolve_loop resolve E ?nd2 n2 = Some (st, nd3, n3)" "nd_root nd3 = nd_root nd"
      "nd_location nd3 = Some loc3" "dents n0 loc3 \<noteq> None" "looked n0 M3 n3" "add_mset loc3 (M - {#loc#}) \<subseteq># M3"
      "case ?w of Inl e \<Rightarrow> st = e \<and> e < 0 | Inr (d, k) \<Rightarrow> st = 0 \<and> loc3 = d \<and> nd_nloops nd3 = k \<and> k \<le> SYMLOOP_MAX"
      unfolding wp_iff loop_post_def by blast
    from path_put_root [OF t n3(5,6) M d(1), of ?abs] obtain n4 M4 where
      n4: "(if ?abs then dput (nd_root nd) n3 else Some n3) = Some n4" "looked n0 M4 n4" "add_mset loc3 ?B \<subseteq># M4" by (auto simp: wp_iff)
    from path_finish [OF t n4(2,3) n3(4,3,7), of "fl1 AND (LOOKUP_FLAG_INTERNAL_TRAILING_SLASH OR OPEN_FLAG_MUST_BE_DIR) \<noteq> 0"]
      False nd n2(1) n3(1-3) n4(1) show ?thesis
      unfolding resolve_path_with_def t_resolve_with_def Let_def nd(3) fl1 nd1 by (cases ?abs) (auto simp: bind_eq_Some_conv)
  qed
qed

lemma dentry_resolve_path_refines:
  assumes "tree_ok tgt n0"
  shows "resolver_ok n0 j fl (dentry_resolve_path j E) (t_resolve j (tree_of tgt n0) fl)"
proof (induction j arbitrary: fl)
  case 0
  then show ?case by (simp add: resolver_ok_def)
next
  case (Suc j)
  from resolve_path_refines [OF assms Suc.IH [of 0] t_resolve_counts] show ?case by simp
qed

end

section \<open>The resolution of a path\<close>

text \<open>How a resolution starts: at the first byte of a C string, with no handler, no links met, and the root and the location existing.\<close>

definition start_ok :: "ns \<Rightarrow> nameidata \<Rightarrow> nat \<Rightarrow> bool" where
  "start_ok n0 nd loc \<longleftrightarrow> nd_pos nd = 0 \<and> nd_handler nd = None \<and> nd_nloops nd = 0 \<and> nd_location nd = Some loc \<and>
     dents n0 (nd_root nd) \<noteq> None \<and> dents n0 loc \<noteq> None \<and> 0 \<notin> set (nd_view nd)"

text \<open>The result the specification \<open>t\<close> allows: its error in \<open>errno\<close>, or its node, referenced.\<close>

definition resolves_as :: "ns \<Rightarrow> int + nat \<times> nat \<Rightarrow> nat option \<times> ns \<Rightarrow> bool" where
  "resolves_as n0 t = (\<lambda>(r, n').
     case t of
       Inl e \<Rightarrow> r = None \<and> e < 0 \<and> errno (sy n') = - e \<and> (\<exists>M. looked n0 M n')
     | Inr (d, k) \<Rightarrow> r = Some d \<and> dents n0 d \<noteq> None \<and> (\<exists>M. looked n0 M n' \<and> d \<in># M))"

context link_reader
begin

lemma dentry_resolve_tree:
  assumes t: "tree_ok tgt n0" and s: "start_ok n0 nd loc" and l: "looked n0 {#nd_root nd, loc#} n"
  shows "wp (dentry_resolve E nd n)
     (resolves_as n0 (t_resolve (SYMLOOP_MAX + 1) (tree_of tgt n0) (nd_flags nd) (nd_root nd) loc 0 (nd_view nd)))"
proof -
  let ?t = "t_resolve (SYMLOOP_MAX + 1) (tree_of tgt n0) (nd_flags nd) (nd_root nd) loc 0 (nd_view nd)"
  have "wp (dentry_resolve_path (SYMLOOP_MAX + 1) E nd n) (res_post n0 {#} ?t)"
    using resolver_okD [OF dentry_resolve_path_refines [OF t, of "SYMLOOP_MAX + 1" "nd_flags nd"], of nd loc "{#nd_root nd, loc#}" n] s l
    by (simp add: start_ok_def)
  then obtain st nd' n1 where n1: "dentry_resolve_path (SYMLOOP_MAX + 1) E nd n = Some (st, nd', n1)" "res_post n0 {#} ?t (st, nd', n1)"
    by (auto simp: wp_iff)
  show ?thesis
  proof (cases ?t)
    case (Inl e)
    with n1 show ?thesis unfolding dentry_resolve_def n1(1) by (auto simp: wp_simps res_post_def resolves_as_def)
  next
    case (Inr dk)
    with n1 show ?thesis unfolding dentry_resolve_def n1(1) by (auto simp: wp_simps res_post_def resolves_as_def)
  qed
qed

end

interpretation tmpfs_links: link_reader "tmpfs_nenv S sp" i_link for S sp
  by unfold_locales (simp_all add: tmpfs_nenv_def tmpfs_readlink_def Let_def touched_same)

section \<open>Confinement\<close>

text \<open>A set of nodes that names, mounts and, except at the root, parents do not lead out of.\<close>

definition t_closed :: "tree \<Rightarrow> nat \<Rightarrow> nat set \<Rightarrow> bool" where
  "t_closed T root A \<longleftrightarrow> root \<in> A \<and>
     (\<forall>d\<in>A. (\<forall>v c. t_child T d v = Some c \<longrightarrow> c \<in> A) \<and> t_cross T d \<in> A \<and> (\<forall>p. d \<noteq> root \<longrightarrow> t_parent T d = Some p \<longrightarrow> p \<in> A))"

lemma t_closedD:
  assumes "t_closed T root A" "d \<in> A"
  shows "t_child T d v = Some c \<Longrightarrow> c \<in> A" "t_cross T d \<in> A" "d \<noteq> root \<Longrightarrow> t_parent T d = Some p \<Longrightarrow> p \<in> A"
  using assms unfolding t_closed_def by blast+

lemma t_lookup_closed:
  assumes "t_closed T root A" "loc \<in> A" "\<not> (loc = root \<and> v = dotdot)" "t_lookup T loc v = Inr d"
  shows "d \<in> A"
  using assms(2-4) t_closedD(1,3) [OF assms(1,2)] by (auto simp: t_lookup_def split: if_splits option.splits)

lemma t_follow_closed:
  assumes "\<And>loc k path d k'. loc \<in> A \<Longrightarrow> R root loc k path = Inr (d, k') \<Longrightarrow> d \<in> A" "loc \<in> A" "d \<in> A"
    "t_follow R T fl root is_last loc d k = Inr (d', k')"
  shows "d' \<in> A"
  using assms(3,4) by (auto simp: t_follow_def split: option.splits if_splits dest: assms(1) [OF assms(2)])

lemma t_walk_closed:
  assumes R: "\<And>loc k path d k'. loc \<in> A \<Longrightarrow> R root loc k path = Inr (d, k') \<Longrightarrow> d \<in> A" and A: "t_closed T root A"
  shows "loc \<in> A \<Longrightarrow> t_walk R T fl root ws loc k = Inr (d, k') \<Longrightarrow> d \<in> A"
proof (induction ws arbitrary: loc k)
  case (Cons v vs)
  then consider "loc = root" "v = dotdot" "t_walk R T fl root vs loc k = Inr (d, k')"
    | c d1 k1 where "\<not> (loc = root \<and> v = dotdot)" "t_lookup T loc v = Inr c" "t_follow R T fl root (vs = []) loc c k = Inr (d1, k1)"
        "t_walk R T fl root vs (t_cross T d1) k1 = Inr (d, k')"
    by (auto split: if_splits sum.splits)
  then show ?case
  proof cases
    case 1 then show ?thesis using Cons.IH Cons.prems(1) by blast
  next
    case 2
    from t_lookup_closed [OF A Cons.prems(1) 2(1,2)] have "c \<in> A" .
    from t_follow_closed [OF R Cons.prems(1) this 2(3)] have "d1 \<in> A" .
    then have "t_cross T d1 \<in> A" by (rule t_closedD(2) [OF A])
    then show ?thesis using Cons.IH 2(4) by blast
  qed
qed simp

lemma t_resolve_closed:
  assumes A: "t_closed T root A"
  shows "loc \<in> A \<Longrightarrow> t_resolve j T fl root loc k path = Inr (d, k') \<Longrightarrow> d \<in> A"
proof (induction j arbitrary: fl loc k path d k')
  case (Suc j)
  have root: "root \<in> A" using A unfolding t_closed_def by blast
  show ?case
  proof (cases "path = []")
    case False
    with Suc.prems(2) obtain fl1 where w: "t_walk (t_resolve j T 0) T fl1 root (path_names path) (if hd path = slash then root else loc) k = Inr (d, k')"
      unfolding t_resolve.simps t_resolve_with_def Let_def by (fastforce split: sum.splits if_splits)
    show ?thesis
    proof (rule t_walk_closed [OF _ A _ w])
      show "(if hd path = slash then root else loc) \<in> A" using root Suc.prems(1) by simp
    qed (rule Suc.IH)
  qed (use Suc.prems in \<open>auto simp: t_resolve_with_def split: if_splits\<close>)
qed simp

end
