(* ===== verification/Namei_Properties.thy ===== *)
theory Namei_Properties
  imports Namei_Refine Dcache_Properties
begin

text \<open>
  What the resolution of a path promises its callers: the answer of the abstract walk, within the root directory of the process.
\<close>

section \<open>The example name space as a tree\<close>

lemma demo_tree_ok: "tree_ok i_link demo_ns"
proof -
  have "d = 1 \<or> d = 2 \<or> d = 3 \<or> d = 4" if "dents demo_ns d = Some de" for d de
    using that by (simp add: demo_ns_def split: if_splits)
  then show ?thesis
    using demo_cache_ok
    by (auto simp: tree_ok_def node_ok_def demo_ns_def demo_dent_def demo_user_def kernel_creds_def demo_node_def tmpfs_new_inode_def demo_inode_def
        DENTRY_FLAG_PENDING_def DENTRY_FLAG_MOUNTPOINT_def DENTRY_FLAG_MOUNT_ROOT_def S_ISLNK_def S_IFMT_def VFS_TYPE_SYMLINK_def)
qed

text \<open>The path \<open>path\<close>, to be resolved from the root directory.\<close>

definition demo_lookup :: "name \<Rightarrow> nameidata" where
  "demo_lookup path = \<lparr>nd_view = path, nd_pos = 0, nd_root = 1, nd_location = Some 1, nd_last = False, nd_nloops = 0, nd_handler = None, nd_flags = 0\<rparr>"

definition demo_taken :: ns where
  "demo_taken = demo_ns\<lparr>sy := (sy demo_ns)\<lparr>ks := (ks (sy demo_ns))\<lparr>drefs := (drefs (ks (sy demo_ns)))(1 \<mapsto> 7)\<rparr>\<rparr>\<rparr>"

lemma demo_taken: "looked demo_ns {#nd_root (demo_lookup path), 1#} demo_taken"
  by (auto simp: looked_def demo_taken_def demo_lookup_def demo_ns_def option.rel_refl)

lemma demo_start: "0 \<notin> set path \<Longrightarrow> start_ok demo_ns (demo_lookup path) 1"
  by (simp add: start_ok_def demo_lookup_def demo_ns_def)

section \<open>Refinement\<close>

text \<open>
  C11. On a tmpfs name space, resolving a path returns, and gives exactly what the abstract walk over the names of the path gives: the same
  node, with a reference to it taken, or the same error in \<open>errno\<close> (\<open>ENOENT\<close>, \<open>ENOTDIR\<close>, \<open>EACCES\<close>, \<open>ENAMETOOLONG\<close>, or \<open>ELOOP\<close> after 40
  symbolic links). Whatever the result, the name space is left as it was, but for reference counts, access times of links and \<open>errno\<close>.
\<close>

theorem dentry_resolve_refines:
  assumes "tree_ok i_link n0" "start_ok n0 nd loc" "looked n0 {#nd_root nd, loc#} n"
  shows "\<exists>r n'. dentry_resolve (tmpfs_nenv S sp) nd n = Some (r, n') \<and>
     resolves_as n0 (t_resolve (SYMLOOP_MAX + 1) (tree_of i_link n0) (nd_flags nd) (nd_root nd) loc 0 (nd_view nd)) (r, n')"
  using tmpfs_links.dentry_resolve_tree [OF assms] by (auto simp: wp_iff)

theorem dentry_resolve_refines_witness:
  "tree_ok i_link demo_ns \<and> start_ok demo_ns (demo_lookup [108]) 1 \<and> looked demo_ns {#1, 1#} demo_taken \<and>
   (\<exists>r n'. dentry_resolve demo_env (demo_lookup [108]) demo_taken = Some (r, n') \<and>
     resolves_as demo_ns (t_resolve (SYMLOOP_MAX + 1) (tree_of i_link demo_ns) 0 1 1 0 [108]) (r, n'))"
  using dentry_resolve_refines [OF demo_tree_ok demo_start demo_taken, of "[108]" demo_senv "\<lambda>ino. (0, ino)"]
    demo_tree_ok demo_start [of "[108]"] demo_taken [of "[108]"]
  by (simp add: demo_lookup_def demo_env_def)

section \<open>Confinement\<close>

text \<open>
  A set of dentries closed under cached children, mounted roots and, except for the root directory, parents: the part of the name space that
  a root directory gives access to.
\<close>

definition closed_under :: "ns \<Rightarrow> nat \<Rightarrow> nat set \<Rightarrow> bool" where
  "closed_under n root A \<longleftrightarrow> root \<in> A \<and>
     (\<forall>d\<in>A. \<forall>v c. scan_all n d v = Some c \<longrightarrow> c \<in> A) \<and>
     (\<forall>d\<in>A. \<forall>de. dents n d = Some de \<longrightarrow>
        (\<forall>m. d_flags de AND DENTRY_FLAG_MOUNTPOINT \<noteq> 0 \<longrightarrow> d_mount_dentry de = Some m \<longrightarrow> m \<in> A) \<and>
        (\<forall>p. d \<noteq> root \<longrightarrow> d_parent de = Some p \<longrightarrow> p \<in> A))"

lemma closed_under_tree:
  assumes "closed_under n root A"
  shows "t_closed (tree_of tgt n) root A"
  unfolding t_closed_def
proof (intro conjI ballI allI impI)
  show "root \<in> A" using assms unfolding closed_under_def by blast
next
  fix d v c assume "d \<in> A" "t_child (tree_of tgt n) d v = Some c"
  moreover from this have "scan_all n d v = Some c" by (simp add: tree_of_def)
  ultimately show "c \<in> A" using assms unfolding closed_under_def by blast
next
  fix d assume "d \<in> A"
  then show "t_cross (tree_of tgt n) d \<in> A"
  proof (cases "t_mount (tree_of tgt n) d")
    case (Some m)
    then obtain de where "dents n d = Some de" "d_flags de AND DENTRY_FLAG_MOUNTPOINT \<noteq> 0" "d_mount_dentry de = Some m"
      by (auto simp: tree_of_def split: option.splits if_splits)
    with assms \<open>d \<in> A\<close> have "m \<in> A" unfolding closed_under_def by blast
    with Some show ?thesis by (simp add: t_cross_def)
  qed (simp add: t_cross_def)
next
  fix d p assume "d \<in> A" "d \<noteq> root" "t_parent (tree_of tgt n) d = Some p"
  moreover from this obtain de where "dents n d = Some de" "d_parent de = Some p" by (auto simp: tree_of_def split: option.splits)
  ultimately show "p \<in> A" using assms unfolding closed_under_def by blast
qed

text \<open>
  C12. Resolution cannot escape from the root directory: from a location inside such a set, no path, with any number of \<open>..\<close>, symbolic links
  (absolute ones included) and mount points, resolves to a dentry outside of it.
\<close>

theorem dentry_resolve_confined:
  assumes "tree_ok i_link n0" "start_ok n0 nd loc" "looked n0 {#nd_root nd, loc#} n"
    and "closed_under n0 (nd_root nd) A" "loc \<in> A" "dentry_resolve (tmpfs_nenv S sp) nd n = Some (Some d, n')"
  shows "d \<in> A"
proof -
  let ?t = "t_resolve (SYMLOOP_MAX + 1) (tree_of i_link n0) (nd_flags nd) (nd_root nd) loc 0 (nd_view nd)"
  from tmpfs_links.dentry_resolve_tree [OF assms(1-3), of S sp] assms(6) have "resolves_as n0 ?t (Some d, n')" by (simp add: wp_iff)
  then obtain k where "?t = Inr (d, k)" by (auto simp: resolves_as_def split: sum.splits)
  then show ?thesis by (rule t_resolve_closed [OF closed_under_tree [OF assms(4)] assms(5)])
qed

lemma demo_cached: "d \<in> set (cached demo_ns) \<longleftrightarrow> d = 2 \<or> d = 3 \<or> d = 4"
  unfolding cached_iff by (auto simp: demo_ns_def dentry_ht_index_less split: if_splits)

lemma demo_dents: "dents demo_ns 2 = Some (demo_dent [100] 2 (Some 1) [4])" "dents demo_ns 3 = Some (demo_dent [108] 3 (Some 1) [])"
    "dents demo_ns 4 = Some (demo_dent [102] 4 (Some 2) [])"
  by (simp_all add: demo_ns_def)

lemma demo_child: "scan_all demo_ns 1 [100] = Some 2"
  unfolding scan_all_def by (rule find_only) (auto simp: demo_cached demo_dents, auto simp: demo_dent_def)

lemma demo_closed: "closed_under demo_ns 1 {1, 2, 3, 4}"
proof -
  have "c \<in> {1, 2, 3, 4}" if "scan_all demo_ns d v = Some c" for d v c
    using that demo_cached unfolding scan_all_def find_Some_iff by (metis insertCI nth_mem)
  then show ?thesis
    by (auto simp: closed_under_def demo_ns_def demo_dent_def DENTRY_FLAG_MOUNTPOINT_def DENTRY_FLAG_MOUNT_ROOT_def)
qed

lemma demo_walk: "t_resolve (SYMLOOP_MAX + 1) (tree_of i_link demo_ns) 0 1 1 0 [46, 46, 47, 100] = Inr (2, 0)"
proof -
  have "path_names [46, 46, 47, 100] = [[46, 46], [100]]" by (simp add: path_names_def)
  then show ?thesis
    using demo_child
    by (simp add: t_resolve_with_def Let_def t_lookup_def t_follow_def t_cross_def tree_of_def dent_inode_def demo_simps NAME_MAX_def
        inode_can_access_def creds_get_def creds_put_def rwslock_lock_read_def rwslock_unlock_read_def RDWR_LOCK_WRITE_def
        S_ISDIR_def S_IFMT_def VFS_TYPE_SYMLINK_def DENTRY_FLAG_MOUNTPOINT_def DENTRY_FLAG_MOUNT_ROOT_def)
qed

theorem dentry_resolve_confined_witness:
  "\<exists>n'. dentry_resolve demo_env (demo_lookup [46, 46, 47, 100]) demo_taken = Some (Some 2, n') \<and>
     closed_under demo_ns 1 {1, 2, 3, 4} \<and> (2 :: nat) \<in> {1, 2, 3, 4}"
proof -
  let ?nd = "demo_lookup [46, 46, 47, 100]"
  have s: "start_ok demo_ns ?nd 1" by (rule demo_start) simp
  have "t_resolve (SYMLOOP_MAX + 1) (tree_of i_link demo_ns) (nd_flags ?nd) (nd_root ?nd) 1 0 (nd_view ?nd) = Inr (2, 0)"
    using demo_walk by (simp add: demo_lookup_def)
  with tmpfs_links.dentry_resolve_tree [OF demo_tree_ok s demo_taken, of demo_senv "\<lambda>ino. (0, ino)"]
  obtain n' where n': "dentry_resolve demo_env ?nd demo_taken = Some (Some 2, n')" by (auto simp: wp_iff resolves_as_def demo_env_def)
  have c: "closed_under demo_ns (nd_root ?nd) {1, 2, 3, 4}" using demo_closed by (simp add: demo_lookup_def)
  from dentry_resolve_confined [OF demo_tree_ok s demo_taken c _ n' [unfolded demo_env_def]] n' demo_closed show ?thesis by blast
qed

end
