(* ===== verification/Spec2Isabelle.thy ===== *)
theory Spec2Isabelle
  imports File_Io Pipe Path_Calls Dcache_Create Namei_Properties
begin

text \<open>
  \<^bold>\<open>A verification of the file and name space layers of the Onyx kernel\<close>

  Onyx is a Unix-like operating system; its kernel, C and C++, is under \<open>src/kernel\<close>. This development covers the part of it that
  implements files for a process: from the system calls on descriptors and paths down to the page cache, the dentry cache
  and the in-memory file system tmpfs, with the locks, credentials and pipes they use.

  \<^bold>\<open>How code is modelled.\<close> A routine that changes state is a function \<open>state \<Rightarrow> (result \<times> state) option\<close>, written in do-notation in the order of
  the code. \<open>None\<close> is everything the code does not recover from: an access outside an array, a null or freed pointer, a failed
  \<open>assert\<close>, a lock taken twice by its holder, a loop that does not end (\<^theory_text>\<open>partial_function\<close>). So a theorem that a call yields \<open>Some\<close>
  excludes all of these; \<open>wp\<close> (\<open>Onyx_Prelude\<close>) is the corresponding total correctness, \<open>may\<close> (\<open>Dcache_Invariant\<close>) the partial one.
  Structs are records, pointers are natural numbers into maps, machine integers are words where they wrap. Return codes are integers, negative
  for an error, as in the code. What the modelled code asks of parts that are not modelled is either a parameter (\<open>kenv\<close>, \<open>penv\<close>, \<open>senv\<close>, \<open>nenv\<close>:
  allocation, drivers, clock, file system) or logged in program order in \<open>events\<close>. Locks and pipes are step relations over any number of threads; the
  rest is the execution of one thread.

  \<^bold>\<open>The parts, bottom up\<close>

  \<^item> \<open>Onyx_Prelude\<close>: types, error numbers, \<open>wp\<close>, arrays, bit masks; the locales \<open>refcounted\<close>, \<open>bit_field\<close>, which the theories
    below interpret on their objects.
  \<^item> \<open>Rwlock\<close> (\<open>sched/rwlock.cpp\<close>): \<open>rw_step\<close> and \<open>rws_step\<close> interleave threads at the atomic accesses of the sleeping and the
    spinning lock. Shown: mutual exclusion for both (locale \<open>rw_protocol\<close>), and that the sleeping lock loses no wake-up.
  \<^item> \<open>Creds\<close> (\<open>cred.cpp\<close>, \<open>rlimit.cpp\<close>): all calls on user and group ids and on limits. Shown: they return and release the lock, a process
    without a root id never gets one through them, but \<open>fork\<close> gives every child the saved id 0.
  \<^item> \<open>Vfs_Objects\<close>, \<open>Vfs_Inode\<close> (\<open>file.cpp\<close>, \<open>inode.cpp\<close>, \<open>vfs.cpp\<close>, \<open>dentry.cpp\<close>): reference counts and release of files, inodes and dentries;
    permissions and attributes. Shown: objects are freed with the last reference, the permission check is the owner/group/other rule.
  \<^item> \<open>Page_Cache\<close>, \<open>Tmpfs\<close> (\<open>inode.cpp\<close>, \<open>mm/vm_object.cpp\<close>, \<open>tmpfs.cpp\<close>): buffered reads and writes, truncation. Shown (over the locale \<open>cache_backend\<close>, interpreted
    on tmpfs): a file is an array of bytes.
  \<^item> \<open>Fd_Table\<close>, \<open>Fd_Invariant\<close>, \<open>Fd_Alloc\<close>, \<open>Fd_Lifetime\<close> (\<open>file.cpp\<close>): the descriptor table, its invariant \<open>fd_inv\<close> and its abstraction \<open>fdtab\<close>, allocation, fork,
    exit, exec.
  \<^item> \<open>Vfs_Ops\<close>, \<open>Fd_Syscalls\<close>, \<open>Fd_Calls\<close>, \<open>Fd_Properties\<close>, \<open>Fd_Errors\<close>, \<open>File_Io\<close> (\<open>vfs.cpp\<close>, \<open>file.cpp\<close>): the system calls on descriptors. Shown: no sequence of the calls that
    duplicate, close, tag or seek breaks a count or a lock, what each does to the table, \<open>write\<close> then \<open>pread\<close> gives the bytes back, and the
    inputs on which calls fail their purpose.
  \<^item> \<open>Pipe\<close> (\<open>pipe.cpp\<close>, \<open>wait_queue.cpp\<close>): readers, writers and closers interleaved. Shown: a pipe refines a bounded queue, small writes are atomic, no
    wake-up is lost, and a small write into a pipe with too little room spins for ever.
  \<^item> \<open>Dcache\<close>, \<open>Dentry_Ops\<close>, \<open>Namei\<close>, \<open>Dentry_Tree\<close>, \<open>Path_Calls\<close> (\<open>dentry.cpp\<close>, \<open>file.cpp\<close>, \<open>tmpfs.cpp\<close>): dentries and their hash table; creating, linking,
    unlinking and renaming; the walk along a path (\<open>resolve_loop\<close> is \<open>__dentry_resolve_path\<close>, \<open>resolve_path_with\<close> is \<open>dentry_resolve_path\<close>); mounting and path names; the system
    calls on paths.
  \<^item> \<open>Dcache_Invariant\<close>, \<open>Path_Invariant\<close>: the invariant \<open>cache_ok\<close> of the dentry cache, kept by all calls on paths but \<open>rename\<close> and \<open>fmount\<close>. The file system is the
    locale \<open>fs_ops\<close> (an extension of \<open>fs_lookup\<close>), interpreted on the operations of tmpfs.
  \<^item> \<open>Namei_Tokens\<close>, \<open>Namei_Refine\<close>, \<open>Namei_Properties\<close>: the tokens of a path are its names; resolution refines a walk in a tree (\<open>t_resolve\<close>; locale \<open>link_reader\<close>,
    interpreted on tmpfs), and does not leave the root directory.
  \<^item> \<open>Dcache_Properties\<close>, \<open>Dcache_Create\<close>: lookup through the table is a scan of everything cached; a created name is found; a renamed one is not.
    \<open>Namespace_Demo\<close> is the name space of the examples.

  \<^bold>\<open>Bounds and fuel.\<close> \<open>dentry_resolve_path k\<close> unrolls the recursion through symbolic links \<open>k\<close> times; the code calls it as \<open>dentry_resolve\<close> with \<open>SYMLOOP_MAX + 1 = 41\<close>. The count of
    links grows at each level and 40 is the last that is followed, so this is enough: the refinement theorem has a result on every path. The loops
    over memory, descriptors and directory entries recurse on what is left to do, and the allocation loop of descriptors on the size of the table; the walk along a path and
    the release of dentries are \<^theory_text>\<open>partial_function\<close>s, the first shown to return.

  \<^bold>\<open>Not modelled.\<close> The scheduler, interrupts and processor state (threads are the steps of the lock and pipe models); virtual memory
    and the allocators (user memory is a map from addresses to bytes, an allocation succeeds or fails as a parameter says); the
    network stack; block devices, write-back and ext2 (the file system is a parameter, tmpfs the instance); sysfs, devfs and drivers; signals,
    \<open>exec\<close> beyond its closing of descriptors, \<open>ptrace\<close>; \<open>poll\<close> and \<open>select\<close> beyond the poll function of pipes; \<open>mount\<close>, \<open>statfs\<close> and the creation of pipes. These either are hardware access,
    or work on data the modelled layers only pass through. Concurrency between system calls on files is not modelled: the locks of dentries and
    hash buckets are left out, and of the others it is shown that a call gives back what it takes.
\<close>

end
